(* ===== verification/Relay_Prelude.thy ===== *)
theory Relay_Prelude
  imports
    Main
    "HOL-Library.Word"
    "HOL-Library.Char_ord"
    "HOL-Library.List_Lexorder"
    "HOL-Library.Sublist"
    "HOL-Library.Multiset"
begin

text \<open>
  Shared vocabulary of the development.

  \<^item> A Rust \<^verbatim>\<open>String\<close> or \<^verbatim>\<open>Vec<u8>\<close> is a \<^typ>\<open>string\<close>: a list of 8-bit characters, so
    \<^verbatim>\<open>len()\<close> is \<^const>\<open>length\<close> (bytes, not Unicode scalars), \<^verbatim>\<open>as_bytes()\<close> is the identity and
    \<^verbatim>\<open>from_utf8\<close> is the test \<open>utf8_valid\<close>.
  \<^item> A \<^verbatim>\<open>Result<T, E>\<close> is a sum \<open>'e + 'a\<close> (\<^const>\<open>Inl\<close> is \<^verbatim>\<open>Err\<close>); the question mark operator is
    \<open>and_then\<close>.
  \<^item> An \<^verbatim>\<open>i64\<close> is an \<^typ>\<open>int\<close> with saturation and wrap-around written out.

  The collections \<open>result_simps\<close>, \<open>i64_defs\<close> and \<open>text_simps\<close> carry the component proofs.
\<close>

named_theorems result_simps \<open>inversion of the result combinators\<close>
named_theorems i64_defs \<open>64-bit arithmetic written out on integers\<close>
named_theorems text_simps \<open>string scanning\<close>

type_synonym bytes = string
type_synonym ('e, 'a) result = "'e + 'a"

subsection \<open>Results\<close>

definition and_then :: "('e, 'a) result \<Rightarrow> ('a \<Rightarrow> ('e, 'b) result) \<Rightarrow> ('e, 'b) result" where
  "and_then r f = (case r of Inl e \<Rightarrow> Inl e | Inr x \<Rightarrow> f x)"

definition map_err :: "('e \<Rightarrow> 'f) \<Rightarrow> ('e, 'a) result \<Rightarrow> ('f, 'a) result" where
  "map_err g r = (case r of Inl e \<Rightarrow> Inl (g e) | Inr x \<Rightarrow> Inr x)"

definition ok_or :: "'e \<Rightarrow> 'a option \<Rightarrow> ('e, 'a) result" where
  "ok_or e x = (case x of None \<Rightarrow> Inl e | Some y \<Rightarrow> Inr y)"

definition ok :: "('e, 'a) result \<Rightarrow> 'a option" where
  "ok r = (case r of Inl e \<Rightarrow> None | Inr x \<Rightarrow> Some x)"

definition is_ok :: "('e, 'a) result \<Rightarrow> bool" where
  "is_ok r = (case r of Inl e \<Rightarrow> False | Inr x \<Rightarrow> True)"

definition require :: "bool \<Rightarrow> 'e \<Rightarrow> ('e, unit) result" where
  "require b e = (if b then Inr () else Inl e)"

lemma and_then_simps [simp]:
  "and_then (Inl e) f = Inl e" "and_then (Inr x) f = f x"
  by (simp_all add: and_then_def)

lemma map_err_simps [simp]:
  "map_err g (Inl e) = Inl (g e)" "map_err g (Inr x) = Inr x"
  by (simp_all add: map_err_def)

lemma ok_or_simps [simp]:
  "ok_or e None = Inl e" "ok_or e (Some x) = Inr x"
  by (simp_all add: ok_or_def)

lemma ok_simps [simp]: "ok (Inl e) = None" "ok (Inr x) = Some x"
  by (simp_all add: ok_def)

lemma is_ok_simps [simp]: "is_ok (Inl e) = False" "is_ok (Inr x) = True"
  by (simp_all add: is_ok_def)

lemma and_then_eq_Inr [result_simps]:
  "and_then r f = Inr y \<longleftrightarrow> (\<exists>x. r = Inr x \<and> f x = Inr y)"
  by (cases r) auto

lemma and_then_eq_Inl [result_simps]:
  "and_then r f = Inl e \<longleftrightarrow> r = Inl e \<or> (\<exists>x. r = Inr x \<and> f x = Inl e)"
  by (cases r) auto

lemma map_err_eq_Inr [result_simps]: "map_err g r = Inr y \<longleftrightarrow> r = Inr y"
  by (cases r) auto

lemma map_err_eq_Inl [result_simps]: "map_err g r = Inl e \<longleftrightarrow> (\<exists>d. r = Inl d \<and> e = g d)"
  by (cases r) auto

lemma ok_or_eq_Inr [result_simps]: "ok_or e x = Inr y \<longleftrightarrow> x = Some y"
  by (cases x) auto

lemma ok_or_eq_Inl [result_simps]: "ok_or e x = Inl d \<longleftrightarrow> x = None \<and> d = e"
  by (cases x) auto

lemma ok_eq_Some [result_simps]: "ok r = Some y \<longleftrightarrow> r = Inr y"
  by (cases r) auto

lemma is_ok_iff [result_simps]: "is_ok r \<longleftrightarrow> (\<exists>x. r = Inr x)"
  by (cases r) auto

lemma require_eq_Inr [result_simps]: "require b e = Inr u \<longleftrightarrow> b"
  by (simp add: require_def)

lemma require_eq_Inl [result_simps]: "require b e = Inl d \<longleftrightarrow> \<not> b \<and> d = e"
  by (auto simp: require_def)

lemma require_simps [simp]: "require True e = Inr ()" "require False e = Inl e"
  by (simp_all add: require_def)

subsection \<open>Signed 64-bit and 32-bit integers\<close>

abbreviation i64_max :: int where "i64_max \<equiv> 9223372036854775807"
abbreviation i64_min :: int where "i64_min \<equiv> -9223372036854775808"
abbreviation i32_max :: int where "i32_max \<equiv> 2147483647"
abbreviation i32_min :: int where "i32_min \<equiv> -2147483648"

definition in_i64 :: "int \<Rightarrow> bool" where [i64_defs]:
  "in_i64 x \<longleftrightarrow> i64_min \<le> x \<and> x \<le> i64_max"

definition in_i32 :: "int \<Rightarrow> bool" where [i64_defs]:
  "in_i32 x \<longleftrightarrow> i32_min \<le> x \<and> x \<le> i32_max"

definition saturating_sub :: "int \<Rightarrow> int \<Rightarrow> int" where [i64_defs]:
  "saturating_sub a b = max i64_min (min i64_max (a - b))"

definition saturating_add :: "int \<Rightarrow> int \<Rightarrow> int" where [i64_defs]:
  "saturating_add a b = max i64_min (min i64_max (a + b))"

text \<open>Plain \<open>+\<close> in a release build (no overflow checks): two's complement wrap-around.\<close>

definition wrapping_add :: "int \<Rightarrow> int \<Rightarrow> int" where
  "wrapping_add a b = (a + b + 9223372036854775808) mod 18446744073709551616 - 9223372036854775808"

lemma wrapping_add_exact: "in_i64 (a + b) \<Longrightarrow> wrapping_add a b = a + b"
  by (simp add: wrapping_add_def in_i64_def)

lemma wrapping_add_range: "in_i64 (wrapping_add a b)"
proof -
  have "0 \<le> (a + b + 9223372036854775808) mod (18446744073709551616::int)"
    and "(a + b + 9223372036854775808) mod 18446744073709551616 < (18446744073709551616::int)"
    by simp_all
  then show ?thesis unfolding wrapping_add_def in_i64_def by linarith
qed

lemma wrapping_add_overflow:
  assumes "in_i64 a" "0 \<le> b" "b \<le> 1000000000" "i64_max < a + b"
  shows "wrapping_add a b = a + b - 18446744073709551616"
proof -
  have "(a + b + 9223372036854775808) mod 18446744073709551616
      = (a + b + 9223372036854775808 - 18446744073709551616) mod (18446744073709551616::int)"
    by (metis minus_mod_self2)
  also have "\<dots> = a + b + 9223372036854775808 - 18446744073709551616"
    using assms by (intro mod_pos_pos_trivial) (auto simp: in_i64_def)
  finally show ?thesis by (simp add: wrapping_add_def)
qed

subsection \<open>Scanning strings\<close>

definition starts_with :: "string \<Rightarrow> string \<Rightarrow> bool" where
  "starts_with p s \<longleftrightarrow> take (length p) s = p"

definition ends_with :: "string \<Rightarrow> string \<Rightarrow> bool" where
  "ends_with p s \<longleftrightarrow> length p \<le> length s \<and> drop (length s - length p) s = p"

fun contains_str :: "string \<Rightarrow> string \<Rightarrow> bool" where
  "contains_str p [] \<longleftrightarrow> p = []"
| "contains_str p (c # s) \<longleftrightarrow> starts_with p (c # s) \<or> contains_str p s"

lemma starts_with_iff [text_simps]: "starts_with p s \<longleftrightarrow> (\<exists>r. s = p @ r)"
  by (metis append_eq_conv_conj append_take_drop_id starts_with_def)

lemma starts_with_append [simp]: "starts_with p (p @ r)"
  by (simp add: starts_with_def)

lemma ends_with_iff [text_simps]: "ends_with p s \<longleftrightarrow> (\<exists>r. s = r @ p)"
  by (auto simp: ends_with_def) (metis append_take_drop_id)

lemma contains_str_iff [text_simps]: "contains_str p s \<longleftrightarrow> (\<exists>a b. s = a @ p @ b)"
proof (induction s)
  case (Cons c s)
  have "(\<exists>a b. c # s = a @ p @ b) \<longleftrightarrow> (\<exists>b. c # s = p @ b) \<or> (\<exists>a b. s = a @ p @ b)"
    by (metis append_Cons append_Nil list.exhaust list.inject)
  with Cons show ?case by (simp add: starts_with_iff)
qed auto

lemma contains_str_single [simp]: "contains_str [c] s \<longleftrightarrow> c \<in> set s"
  by (induction s) (auto simp: starts_with_def)

fun split_on :: "char \<Rightarrow> string \<Rightarrow> string list" where
  "split_on d [] = [[]]"
| "split_on d (c # s) =
     (if c = d then [] # split_on d s
      else (case split_on d s of [] \<Rightarrow> [[c]] | w # ws \<Rightarrow> (c # w) # ws))"

fun join_with :: "char \<Rightarrow> string list \<Rightarrow> string" where
  "join_with d [] = []"
| "join_with d [w] = w"
| "join_with d (w # v # ws) = w @ d # join_with d (v # ws)"

lemma split_on_nonempty [simp]: "split_on d s \<noteq> []"
  by (cases s) (auto split: list.splits)

lemma join_with_Cons: "ws \<noteq> [] \<Longrightarrow> join_with d (w # ws) = w @ d # join_with d ws"
  by (cases ws) auto

lemma join_split [simp]: "join_with d (split_on d s) = s"
proof (induction s)
  case (Cons c s)
  then show ?case
    by (cases "split_on d s") (auto simp: join_with_Cons neq_Nil_conv split: list.splits, (metis join_with.simps(2) join_with_Cons append_Cons list.exhaust)+)
qed simp

lemma split_on_no_sep: "w \<in> set (split_on d s) \<Longrightarrow> d \<notin> set w"
  by (induction s arbitrary: w) (auto split: if_splits list.splits)

lemma split_on_atom: "d \<notin> set w \<Longrightarrow> split_on d w = [w]"
  by (induction w) auto

lemma split_on_append: "d \<notin> set w \<Longrightarrow> split_on d (w @ d # s) = w # split_on d s"
  by (induction w) auto

lemma split_join:
  "ws \<noteq> [] \<Longrightarrow> (\<And>w. w \<in> set ws \<Longrightarrow> d \<notin> set w) \<Longrightarrow> split_on d (join_with d ws) = ws"
proof (induction ws)
  case (Cons w ws)
  then show ?case
    by (cases ws) (auto simp: split_on_atom split_on_append)
qed simp

subsection \<open>UTF-8 and Unicode white space, on bytes\<close>

definition byte_in :: "nat \<Rightarrow> nat \<Rightarrow> char \<Rightarrow> bool" where
  "byte_in lo hi c \<longleftrightarrow> lo \<le> of_char c \<and> of_char c \<le> hi"

abbreviation cont_byte :: "char \<Rightarrow> bool" where "cont_byte \<equiv> byte_in 128 191"

text \<open>Well-formed UTF-8, as \<^verbatim>\<open>core::str::from_utf8\<close> checks it (no overlong forms, no surrogates).\<close>

fun utf8_valid :: "bytes \<Rightarrow> bool" where
  "utf8_valid [] \<longleftrightarrow> True"
| "utf8_valid (c # s) \<longleftrightarrow>
     (if byte_in 0 127 c then utf8_valid s
      else if byte_in 194 223 c then
        (case s of c1 # s1 \<Rightarrow> cont_byte c1 \<and> utf8_valid s1 | _ \<Rightarrow> False)
      else if byte_in 224 239 c then
        (case s of c1 # c2 # s2 \<Rightarrow>
           (if byte_in 224 224 c then byte_in 160 191 c1
            else if byte_in 237 237 c then byte_in 128 159 c1 else cont_byte c1)
           \<and> cont_byte c2 \<and> utf8_valid s2
         | _ \<Rightarrow> False)
      else if byte_in 240 244 c then
        (case s of c1 # c2 # c3 # s3 \<Rightarrow>
           (if byte_in 240 240 c then byte_in 144 191 c1
            else if byte_in 244 244 c then byte_in 128 143 c1 else cont_byte c1)
           \<and> cont_byte c2 \<and> cont_byte c3 \<and> utf8_valid s3
         | _ \<Rightarrow> False)
      else False)"

text \<open>Length in bytes of the white-space scalar a string starts with, 0 if it starts with none.\<close>

fun ws_len :: "string \<Rightarrow> nat" where
  "ws_len [] = 0"
| "ws_len (c # s) =
     (if byte_in 9 13 c \<or> c = CHR '' '' then 1
      else (case s of [] \<Rightarrow> 0
        | c1 # s1 \<Rightarrow>
          if byte_in 194 194 c \<and> (byte_in 133 133 c1 \<or> byte_in 160 160 c1) then 2
          else (case s1 of [] \<Rightarrow> 0
            | c2 # _ \<Rightarrow>
              if (byte_in 225 225 c \<and> byte_in 154 154 c1 \<and> byte_in 128 128 c2)
                \<or> (byte_in 226 226 c \<and> byte_in 128 128 c1
                    \<and> (byte_in 128 138 c2 \<or> byte_in 168 169 c2 \<or> byte_in 175 175 c2))
                \<or> (byte_in 226 226 c \<and> byte_in 129 129 c1 \<and> byte_in 159 159 c2)
                \<or> (byte_in 227 227 c \<and> byte_in 128 128 c1 \<and> byte_in 128 128 c2)
              then 3 else 0)))"

text \<open>\<^verbatim>\<open>s.trim().is_empty()\<close>: every scalar of the string is white space.\<close>

function trims_to_empty :: "string \<Rightarrow> bool" where
  "trims_to_empty s \<longleftrightarrow>
     (if s = [] then True else if ws_len s = 0 then False else trims_to_empty (drop (ws_len s) s))"
  by pat_completeness auto
termination
  by (relation "measure length") auto

declare trims_to_empty.simps [simp del]

lemma utf8_valid_ascii: "(\<And>c. c \<in> set s \<Longrightarrow> of_char c < (128::nat)) \<Longrightarrow> utf8_valid s"
proof (induction s)
  case (Cons c s)
  then have "byte_in 0 127 c" by (force simp: byte_in_def)
  with Cons show ?case by simp
qed simp

text \<open>\<^verbatim>\<open>str::trim\<close>: white-space scalars are dropped from the front, then from the back.\<close>

function trim_start :: "string \<Rightarrow> string" where
  "trim_start s = (if s = [] \<or> ws_len s = 0 then s else trim_start (drop (ws_len s) s))"
  by pat_completeness auto
termination
  by (relation "measure length") auto

definition ws_last :: "string \<Rightarrow> nat" where
  "ws_last s = (let n = length s in
     if 1 \<le> n \<and> ws_len (drop (n - 1) s) = 1 then 1
     else if 2 \<le> n \<and> ws_len (drop (n - 2) s) = 2 then 2
     else if 3 \<le> n \<and> ws_len (drop (n - 3) s) = 3 then 3 else 0)"

function trim_end :: "string \<Rightarrow> string" where
  "trim_end s = (if ws_last s = 0 then s else trim_end (take (length s - ws_last s) s))"
  by pat_completeness auto
termination
  by (relation "measure length") (auto simp: ws_last_def Let_def split: if_splits)

definition trim :: "string \<Rightarrow> string" where
  "trim s = trim_end (trim_start s)"

declare trim_start.simps [simp del] trim_end.simps [simp del]

lemma trims_to_empty_iff: "trims_to_empty s \<longleftrightarrow> trim_start s = []"
proof (induction s rule: trims_to_empty.induct)
  case (1 s)
  then show ?case
    by (auto simp: trims_to_empty.simps [of s] trim_start.simps [of s])
qed

end
