(* ===== verification/Relay_Error.thy ===== *)
theory Relay_Error
  imports Relay_Prelude
begin

text \<open>
  \<^verbatim>\<open>src/constants.rs\<close> and \<^verbatim>\<open>src/error.rs\<close>: the fixed identity and limits of the relay, and the
  closed set of problem codes with their wire string, HTTP status and title.
\<close>

subsection \<open>constants.rs\<close>

definition RELAY_ORIGIN :: string where "RELAY_ORIGIN = ''https://relay.pseud0.org''"
definition MATRIX_API :: string where "MATRIX_API = ''https://matrix.pseud0.org''"
definition MATRIX_USER_ID :: string where "MATRIX_USER_ID = ''@web-login:pseud0.org''"
definition MATRIX_PREFIX :: string where "MATRIX_PREFIX = ''pseud0-web-login-v1:''"
definition MAX_TTL_MS :: int where "MAX_TTL_MS = 300000"
definition CLOCK_SKEW_MS :: int where "CLOCK_SKEW_MS = 30000"
definition REPLAY_GRACE_MS :: int where "REPLAY_GRACE_MS = 30000"
definition MAX_METADATA_BYTES :: nat where "MAX_METADATA_BYTES = 16384"
definition MAX_SITE_RESPONSE_BYTES :: nat where "MAX_SITE_RESPONSE_BYTES = 16384"
definition MAX_DECODED_BODY :: nat where "MAX_DECODED_BODY = 32768"
definition MAX_DISPLAY_NAME :: nat where "MAX_DISPLAY_NAME = 100"
definition MAX_DOMAIN :: nat where "MAX_DOMAIN = 253"
definition MAX_HTTP_BODY :: nat where "MAX_HTTP_BODY = 65536"
definition PROTOCOL_VERSION :: int where "PROTOCOL_VERSION = 1"
definition SUBJECT_CONTEXT :: bytes where "SUBJECT_CONTEXT = ''pseud0-sub-v1'' @ [CHR 0x00]"
definition ASSERTION_PATH :: string where "ASSERTION_PATH = ''/pseud0/web-login/assertions''"
definition REVOCATION_PATH :: string where "REVOCATION_PATH = ''/pseud0/web-login/revocations''"
definition METADATA_PATH :: string where "METADATA_PATH = ''/.well-known/pseud0-web-login''"
definition DEFAULT_KID :: string where "DEFAULT_KID = ''relay-2026-01''"
definition CHALLENGE_BYTES :: nat where "CHALLENGE_BYTES = 16"
definition JTI_BYTES :: nat where "JTI_BYTES = 16"
definition MATRIX_SYNC_STALE_MS :: int where "MATRIX_SYNC_STALE_MS = 120000"

lemmas constant_defs =
  RELAY_ORIGIN_def MATRIX_API_def MATRIX_USER_ID_def MATRIX_PREFIX_def MAX_TTL_MS_def
  CLOCK_SKEW_MS_def REPLAY_GRACE_MS_def MAX_METADATA_BYTES_def MAX_SITE_RESPONSE_BYTES_def
  MAX_DECODED_BODY_def MAX_DISPLAY_NAME_def MAX_DOMAIN_def MAX_HTTP_BODY_def
  PROTOCOL_VERSION_def SUBJECT_CONTEXT_def ASSERTION_PATH_def REVOCATION_PATH_def
  METADATA_PATH_def DEFAULT_KID_def CHALLENGE_BYTES_def JTI_BYTES_def MATRIX_SYNC_STALE_MS_def

subsection \<open>error.rs\<close>

datatype ProblemCode =
    InvalidRequest
  | UnsupportedVersion
  | InvalidSignature
  | DomainVerificationFailed
  | SessionNotFound
  | SessionConflict
  | RequestExpired
  | RequestCancelled
  | ChallengeReplayed
  | ConsentReplayed
  | AssertionReplayed
  | AudienceMismatch
  | Revoked
  | RateLimited
  | RelayUnavailable
  | InternalError

fun as_str :: "ProblemCode \<Rightarrow> string" where
  "as_str InvalidRequest = ''invalid_request''"
| "as_str UnsupportedVersion = ''unsupported_version''"
| "as_str InvalidSignature = ''invalid_signature''"
| "as_str DomainVerificationFailed = ''domain_verification_failed''"
| "as_str SessionNotFound = ''session_not_found''"
| "as_str SessionConflict = ''session_conflict''"
| "as_str RequestExpired = ''request_expired''"
| "as_str RequestCancelled = ''request_cancelled''"
| "as_str ChallengeReplayed = ''challenge_replayed''"
| "as_str ConsentReplayed = ''consent_replayed''"
| "as_str AssertionReplayed = ''assertion_replayed''"
| "as_str AudienceMismatch = ''audience_mismatch''"
| "as_str Revoked = ''revoked''"
| "as_str RateLimited = ''rate_limited''"
| "as_str RelayUnavailable = ''relay_unavailable''"
| "as_str InternalError = ''internal_error''"

fun status :: "ProblemCode \<Rightarrow> nat" where
  "status InvalidRequest = 400"
| "status UnsupportedVersion = 400"
| "status InvalidSignature = 400"
| "status DomainVerificationFailed = 422"
| "status AudienceMismatch = 422"
| "status SessionNotFound = 404"
| "status SessionConflict = 409"
| "status ChallengeReplayed = 409"
| "status ConsentReplayed = 409"
| "status AssertionReplayed = 409"
| "status RequestExpired = 410"
| "status RequestCancelled = 410"
| "status Revoked = 410"
| "status RateLimited = 429"
| "status RelayUnavailable = 503"
| "status InternalError = 500"

fun title :: "ProblemCode \<Rightarrow> string" where
  "title InvalidRequest = ''Invalid request''"
| "title UnsupportedVersion = ''Unsupported version''"
| "title InvalidSignature = ''Invalid signature''"
| "title DomainVerificationFailed = ''Domain verification failed''"
| "title SessionNotFound = ''Session not found''"
| "title SessionConflict = ''Session conflict''"
| "title RequestExpired = ''Request expired''"
| "title RequestCancelled = ''Request cancelled''"
| "title ChallengeReplayed = ''Challenge replayed''"
| "title ConsentReplayed = ''Consent replayed''"
| "title AssertionReplayed = ''Assertion replayed''"
| "title AudienceMismatch = ''Audience mismatch''"
| "title Revoked = ''Revoked''"
| "title RateLimited = ''Rate limited''"
| "title RelayUnavailable = ''Relay unavailable''"
| "title InternalError = ''Internal error''"

text \<open>\<open>Internal\<close> carries an \<^verbatim>\<open>anyhow::Error\<close>, of which only the message text is kept.\<close>

datatype RelayError = Problem ProblemCode | Internal string

fun code :: "RelayError \<Rightarrow> ProblemCode" where
  "code (Problem c) = c"
| "code (Internal _) = InternalError"

text \<open>A \<^verbatim>\<open>Result<T, RelayError>\<close>, and the shorthand for \<^verbatim>\<open>Err(RelayError::problem(code))\<close>.\<close>

type_synonym 'a relay_result = "(RelayError, 'a) result"

abbreviation err :: "ProblemCode \<Rightarrow> 'a relay_result" where
  "err c \<equiv> Inl (Problem c)"

lemma as_str_inject: "as_str a = as_str b \<Longrightarrow> a = b"
  by (cases a; cases b) simp_all

lemma status_client_or_server: "400 \<le> status c \<and> status c \<le> 503"
  by (cases c) simp_all

end
