(* ===== verification/Json_Strict.thy ===== *)
theory Json_Strict
  imports Relay_Error "HOL-Library.Monad_Syntax"
begin

text \<open>
  \<^verbatim>\<open>src/json/strict.rs\<close>: JSON values, the strict visitor that refuses duplicate keys, floats and
  integers beyond \<^verbatim>\<open>i64\<close>, and the field decoders the derived \<^verbatim>\<open>Deserialize\<close> implementations use.

  The text parser of the \<^verbatim>\<open>serde_json\<close> crate is a parameter: a function from text to the tree of
  visitor calls it makes (\<open>jtext\<close>), \<^const>\<open>None\<close> when the text is not exactly one JSON value. The
  tree keeps repeated keys in order, because the parser reports every key to the visitor.
\<close>

subsection \<open>Trees\<close>

datatype jtext =
    TNull
  | TBool bool
  | TI64 int
  | TU64 int
  | TF64 string
  | TStr string
  | TSeq "jtext list"
  | TMap "(string \<times> jtext) list"

datatype Number = PosInt int | NegInt int | Float string

datatype Value =
    Null
  | Bool bool
  | Number Number
  | String string
  | Array "Value list"
  | Object "(string \<times> Value) list"

text \<open>\<^verbatim>\<open>serde_json::Map\<close> is a \<^verbatim>\<open>BTreeMap\<close> (the crate is built without \<^verbatim>\<open>preserve_order\<close>): a list of
  entries with strictly increasing keys.\<close>

fun btree_insert :: "string \<Rightarrow> 'v \<Rightarrow> (string \<times> 'v) list \<Rightarrow> (string \<times> 'v) list" where
  "btree_insert k v [] = [(k, v)]"
| "btree_insert k v ((k', v') # m) =
     (if k < k' then (k, v) # (k', v') # m
      else if k = k' then (k, v) # m
      else (k', v') # btree_insert k v m)"

definition json_int :: "int \<Rightarrow> Value" where
  "json_int i = Number (if i < 0 then NegInt i else PosInt i)"

subsection \<open>The strict visitor\<close>

fun strict_value :: "jtext \<Rightarrow> Value option"
  and strict_seq :: "jtext list \<Rightarrow> Value list option"
  and strict_map :: "string list \<Rightarrow> (string \<times> Value) list \<Rightarrow> (string \<times> jtext) list
        \<Rightarrow> (string \<times> Value) list option" where
  "strict_value TNull = Some Null"
| "strict_value (TBool b) = Some (Bool b)"
| "strict_value (TI64 i) = Some (json_int i)"
| "strict_value (TU64 u) = (if u > i64_max then None else Some (json_int u))"
| "strict_value (TF64 _) = None"
| "strict_value (TStr s) = Some (String s)"
| "strict_value (TSeq ts) = map_option Array (strict_seq ts)"
| "strict_value (TMap es) = map_option Object (strict_map [] [] es)"
| "strict_seq [] = Some []"
| "strict_seq (t # ts) =
     (case strict_value t of None \<Rightarrow> None | Some v \<Rightarrow> map_option ((#) v) (strict_seq ts))"
| "strict_map seen object [] = Some object"
| "strict_map seen object ((key, t) # es) =
     (if key \<in> set seen then None
      else (case strict_value t of None \<Rightarrow> None
        | Some v \<Rightarrow> strict_map (key # seen) (btree_insert key v object) es))"

text \<open>\<open>from_str\<close> and \<open>from_slice\<close>, for a text parser \<open>parse\<close> and a decoder \<open>from_value\<close>.\<close>

definition from_str :: "(string \<Rightarrow> jtext option) \<Rightarrow> (Value \<Rightarrow> 'a option) \<Rightarrow> string \<Rightarrow> 'a relay_result" where
  "from_str parse from_value text =
     and_then (ok_or (Problem InvalidRequest) (Option.bind (parse text) strict_value))
       (\<lambda>value. ok_or (Problem InvalidRequest) (from_value value))"

definition from_slice :: "(string \<Rightarrow> jtext option) \<Rightarrow> (Value \<Rightarrow> 'a option) \<Rightarrow> bytes \<Rightarrow> 'a relay_result" where
  "from_slice parse from_value bs =
     (if utf8_valid bs then from_str parse from_value bs else err InvalidRequest)"

subsection \<open>Field decoders\<close>

text \<open>
  \<^verbatim>\<open>#[derive(Deserialize)] #[serde(deny_unknown_fields)]\<close> on a struct accepts an object whose keys
  are all declared, or an array with one element per field in declaration order; a missing
  \<^verbatim>\<open>Option\<close> field of an object is \<^verbatim>\<open>None\<close>, any other missing field is an error.
\<close>

definition struct_fields :: "string list \<Rightarrow> Value \<Rightarrow> Value option list option" where
  "struct_fields names v =
     (case v of
        Object m \<Rightarrow> if list_all (\<lambda>(k, _). k \<in> set names) m then Some (map (map_of m) names) else None
      | Array vs \<Rightarrow> if length vs = length names then Some (map Some vs) else None
      | _ \<Rightarrow> None)"

fun de_string :: "Value \<Rightarrow> string option" where
  "de_string (String s) = Some s"
| "de_string _ = None"

fun de_bool :: "Value \<Rightarrow> bool option" where
  "de_bool (Bool b) = Some b"
| "de_bool _ = None"

fun de_i64 :: "Value \<Rightarrow> int option" where
  "de_i64 (Number (PosInt i)) = (if i \<le> i64_max then Some i else None)"
| "de_i64 (Number (NegInt i)) = Some i"
| "de_i64 _ = None"

definition de_i32 :: "Value \<Rightarrow> int option" where
  "de_i32 v = (case de_i64 v of None \<Rightarrow> None | Some i \<Rightarrow> if in_i32 i then Some i else None)"

fun de_opt_string :: "Value \<Rightarrow> string option option" where
  "de_opt_string Null = Some None"
| "de_opt_string (String s) = Some (Some s)"
| "de_opt_string _ = None"

definition field :: "(Value \<Rightarrow> 'a option) \<Rightarrow> Value option \<Rightarrow> 'a option" where
  "field d x = (case x of None \<Rightarrow> None | Some v \<Rightarrow> d v)"

definition opt_field :: "(Value \<Rightarrow> 'a option option) \<Rightarrow> Value option \<Rightarrow> 'a option option" where
  "opt_field d x = (case x of None \<Rightarrow> Some None | Some v \<Rightarrow> d v)"

lemma field_Some [simp]: "field d (Some v) = d v"
  and opt_field_Some [simp]: "opt_field e (Some v) = e v"
  by (simp_all add: field_def opt_field_def)

lemma de_i64_json_int [simp]: "in_i64 i \<Longrightarrow> de_i64 (json_int i) = Some i"
  by (auto simp: json_int_def in_i64_def)

lemma de_i32_json_int [simp]: "in_i32 i \<Longrightarrow> de_i32 (json_int i) = Some i"
  by (auto simp: de_i32_def json_int_def in_i32_def)

subsection \<open>Entries of a BTreeMap\<close>

abbreviation keys_sorted :: "(string \<times> 'v) list \<Rightarrow> bool" where
  "keys_sorted m \<equiv> sorted_wrt (<) (map fst m)"

lemma btree_insert_keys: "set (map fst (btree_insert k v m)) = insert k (set (map fst m))"
  by (induction k v m rule: btree_insert.induct) auto

lemma btree_insert_sorted: "keys_sorted m \<Longrightarrow> keys_sorted (btree_insert k v m)"
proof (induction k v m rule: btree_insert.induct)
  case (2 k v k' v' m)
  then show ?case
    using btree_insert_keys [of k v m] by (auto simp: image_iff not_less)
qed simp

lemma btree_insert_fresh_mset:
  "k \<notin> set (map fst m) \<Longrightarrow> mset (btree_insert k v m) = add_mset (k, v) (mset m)"
  by (induction k v m rule: btree_insert.induct) auto

lemma btree_insert_map_of: "map_of (btree_insert k v m) = (map_of m)(k \<mapsto> v)"
  by (induction k v m rule: btree_insert.induct) auto

lemma keys_sorted_distinct: "keys_sorted m \<Longrightarrow> distinct (map fst m)"
  by (induction m) auto

lemma keys_sorted_sorted: "keys_sorted m \<Longrightarrow> sorted (map fst m)"
  by (induction m) (auto simp: less_imp_le)

lemma keys_sorted_mset_eq:
  assumes "keys_sorted m" "keys_sorted n" "mset m = mset n"
  shows "m = n"
proof -
  have "inj_on fst (set m)"
    using keys_sorted_distinct [OF assms(1)] by (simp add: distinct_map)
  then have "sort_key fst m = n"
    using assms by (intro sort_key_inj_key_eq) (simp_all add: keys_sorted_sorted)
  then show ?thesis
    using assms(1) by (simp add: keys_sorted_sorted sort_key_id_if_sorted)
qed

subsection \<open>What the strict visitor accepts\<close>

text \<open>
  The specification: \<open>plain_value\<close> is the value a lenient reader builds (later keys overwrite
  earlier ones), \<open>strict_ok\<close> holds of the trees without repeated keys, floats and integers above
  \<^verbatim>\<open>i64::MAX\<close>, at every depth.
\<close>

primrec strict_ok :: "jtext \<Rightarrow> bool" where
  "strict_ok TNull \<longleftrightarrow> True"
| "strict_ok (TBool b) \<longleftrightarrow> True"
| "strict_ok (TI64 i) \<longleftrightarrow> True"
| "strict_ok (TU64 u) \<longleftrightarrow> u \<le> i64_max"
| "strict_ok (TF64 s) \<longleftrightarrow> False"
| "strict_ok (TStr s) \<longleftrightarrow> True"
| "strict_ok (TSeq ts) \<longleftrightarrow> list_all id (map strict_ok ts)"
| "strict_ok (TMap es) \<longleftrightarrow> distinct (map fst es) \<and> list_all id (map snd (map (map_prod id strict_ok) es))"

primrec plain_value :: "jtext \<Rightarrow> Value" where
  "plain_value TNull = Null"
| "plain_value (TBool b) = Bool b"
| "plain_value (TI64 i) = json_int i"
| "plain_value (TU64 u) = json_int u"
| "plain_value (TF64 s) = Number (Float s)"
| "plain_value (TStr s) = String s"
| "plain_value (TSeq ts) = Array (map plain_value ts)"
| "plain_value (TMap es) = Object (foldl (\<lambda>m (k, v). btree_insert k v m) [] (map (map_prod id plain_value) es))"

lemma strict_seq_exact:
  assumes "\<And>t. t \<in> set ts \<Longrightarrow> strict_value t = (if strict_ok t then Some (plain_value t) else None)"
  shows "strict_seq ts = (if list_all strict_ok ts then Some (map plain_value ts) else None)"
  using assms by (induction ts) auto

lemma strict_map_exact:
  assumes "\<And>k t. (k, t) \<in> set es \<Longrightarrow> strict_value t = (if strict_ok t then Some (plain_value t) else None)"
  shows "strict_map seen ob es =
    (if distinct (map fst es) \<and> set (map fst es) \<inter> set seen = {} \<and> list_all (\<lambda>e. strict_ok (snd e)) es
     then Some (foldl (\<lambda>m (k, v). btree_insert k v m) ob (map (\<lambda>e. (fst e, plain_value (snd e))) es))
     else None)"
  using assms
proof (induction es arbitrary: seen ob)
  case (Cons e es)
  obtain k t where e: "e = (k, t)" by (cases e)
  have t: "strict_value t = (if strict_ok t then Some (plain_value t) else None)"
    using Cons.prems [of k t] e by simp
  have IH: "strict_map s b es =
    (if distinct (map fst es) \<and> set (map fst es) \<inter> set s = {} \<and> list_all (\<lambda>e. strict_ok (snd e)) es
     then Some (foldl (\<lambda>m (k, v). btree_insert k v m) b (map (\<lambda>e. (fst e, plain_value (snd e))) es))
     else None)" for s b
    using Cons.prems by (intro Cons.IH) (metis list.set_intros(2))
  show ?case unfolding e by (auto simp: t IH)
qed simp

lemma map_prod_id_left: "map_prod id f = (\<lambda>e. (fst e, f (snd e)))"
  by auto

lemma strict_value_exact:
  "strict_value t = (if strict_ok t then Some (plain_value t) else None)"
proof (induction t)
  case (TSeq ts)
  then show ?case by (simp add: strict_seq_exact list_all_iff)
next
  case (TMap es)
  then have "strict_value t = (if strict_ok t then Some (plain_value t) else None)"
    if "(k, t) \<in> set es" for k t
    using that by (auto simp: snds.simps)
  from strict_map_exact [of es "[]" "[]", OF this] show ?case
    by (simp add: map_prod_id_left list_all_iff)
qed auto

lemma from_slice_InrD:
  assumes "from_slice parse d bs = Inr x"
  obtains t v where "utf8_valid bs" "parse bs = Some t" "strict_value t = Some v" "d v = Some x"
  using assms
  by (auto simp: from_slice_def from_str_def result_simps Option.bind_eq_Some_conv split: if_splits)

lemma from_slice_Inl: "from_slice parse d bs = Inl e \<Longrightarrow> e = Problem InvalidRequest"
  by (auto simp: from_slice_def from_str_def result_simps split: if_splits)

lemma from_sliceI:
  assumes "utf8_valid bs" "parse bs = Some t" "strict_ok t" "d (plain_value t) = Some x"
  shows "from_slice parse d bs = Inr x"
  using assms by (simp add: from_slice_def from_str_def strict_value_exact)

text \<open>
  C33. Strict JSON: whatever the crate's text parser reads, \<^verbatim>\<open>from_slice\<close> succeeds exactly on valid
  UTF-8 whose value has, at every depth, no repeated object key, no floating-point number and no
  integer above \<^verbatim>\<open>i64::MAX\<close>, and then decodes the very value that was written; every failure is
  \<^verbatim>\<open>invalid_request\<close>.
\<close>

theorem strict_from_slice_exact:
  "from_slice parse from_value bs =
     (case (if utf8_valid bs then parse bs else None) of
        None \<Rightarrow> err InvalidRequest
      | Some t \<Rightarrow> if strict_ok t then ok_or (Problem InvalidRequest) (from_value (plain_value t))
                 else err InvalidRequest)"
  by (simp add: from_slice_def from_str_def strict_value_exact split: option.splits)

text \<open>A string map is sorted after any number of insertions.\<close>

lemma foldl_btree_sorted:
  "keys_sorted m \<Longrightarrow> keys_sorted (foldl (\<lambda>m (k, v). btree_insert k v m) m es)"
  by (induction es arbitrary: m) (auto simp: btree_insert_sorted)

end
