(* ===== verification/Jcs.thy ===== *)
theory Jcs
  imports Json_Strict
begin

text \<open>
  \<^verbatim>\<open>src/crypto/jcs.rs\<close>: canonical JSON for everything the relay signs or verifies. The escaping of
  a string literal is the \<^verbatim>\<open>serde_json\<close> crate's (\<open>js\<close>, \<^const>\<open>None\<close> where \<^verbatim>\<open>to_string\<close> fails); what the
  uniqueness theorem needs of it is that a string literal is self-delimiting (\<open>literal_ok\<close>).
\<close>

subsection \<open>Decimal numbers\<close>

fun nat_digits :: "nat \<Rightarrow> string" where
  "nat_digits n = (if n < 10 then [char_of (48 + n)]
                   else nat_digits (n div 10) @ [char_of (48 + n mod 10)])"

declare nat_digits.simps [simp del]

definition int_to_string :: "int \<Rightarrow> string" where
  "int_to_string i = (if i < 0 then CHR ''-'' # nat_digits (nat (- i)) else nat_digits (nat i))"

subsection \<open>Writing\<close>

fun write_number :: "Number \<Rightarrow> string relay_result" where
  "write_number (PosInt n) = Inr (int_to_string n)"
| "write_number (NegInt n) = Inr (int_to_string n)"
| "write_number (Float _) = err InvalidRequest"

definition write_string :: "(string \<Rightarrow> string option) \<Rightarrow> string \<Rightarrow> string relay_result" where
  "write_string js s = ok_or (Problem InvalidRequest) (js s)"

fun separated :: "string list \<Rightarrow> string" where
  "separated [] = []"
| "separated (x # xs) = x @ concat (map ((#) CHR '','') xs)"

fun collect :: "'a relay_result list \<Rightarrow> 'a list relay_result" where
  "collect [] = Inr []"
| "collect (r # rs) = and_then r (\<lambda>x. and_then (collect rs) (\<lambda>xs. Inr (x # xs)))"

definition write_member :: "(string \<Rightarrow> string option) \<Rightarrow> string \<times> string relay_result \<Rightarrow> string relay_result" where
  "write_member js = (\<lambda>(key, r). and_then (write_string js key) (\<lambda>k. and_then r (\<lambda>v. Inr (k @ CHR '':'' # v))))"

fun write_value :: "(string \<Rightarrow> string option) \<Rightarrow> Value \<Rightarrow> string relay_result"
  and write_items :: "(string \<Rightarrow> string option) \<Rightarrow> Value list \<Rightarrow> string relay_result list"
  and write_members :: "(string \<Rightarrow> string option) \<Rightarrow> (string \<times> Value) list \<Rightarrow> (string \<times> string relay_result) list" where
  "write_value js Null = Inr ''null''"
| "write_value js (Bool True) = Inr ''true''"
| "write_value js (Bool False) = Inr ''false''"
| "write_value js (Number n) = write_number n"
| "write_value js (String s) = write_string js s"
| "write_value js (Array items) =
     and_then (collect (write_items js items)) (\<lambda>ss. Inr (CHR ''['' # separated ss @ '']''))"
| "write_value js (Object m) =
     and_then (collect (map (write_member js) (sort_key fst (write_members js m))))
       (\<lambda>ss. Inr (CHR ''{'' # separated ss @ ''}''))"
| "write_items js [] = []"
| "write_items js (v # vs) = write_value js v # write_items js vs"
| "write_members js [] = []"
| "write_members js ((k, v) # m) = (k, write_value js v) # write_members js m"

definition canonicalize :: "(string \<Rightarrow> string option) \<Rightarrow> Value \<Rightarrow> string relay_result" where
  "canonicalize js v = write_value js v"

fun insert_fields :: "(string \<times> Value) list \<Rightarrow> (string \<times> Value) list \<Rightarrow> (string \<times> Value) list relay_result" where
  "insert_fields m [] = Inr m"
| "insert_fields m ((key, v) # fields) =
     (if map_of m key \<noteq> None then err InvalidRequest else insert_fields (btree_insert key v m) fields)"

definition canonicalize_object :: "(string \<Rightarrow> string option) \<Rightarrow> (string \<times> Value) list \<Rightarrow> string relay_result" where
  "canonicalize_object js fields =
     and_then (insert_fields [] fields) (\<lambda>m. canonicalize js (Object m))"

subsection \<open>Decimal numbers are self-delimiting\<close>

abbreviation is_digit :: "char \<Rightarrow> bool" where "is_digit c \<equiv> byte_in 48 57 c"

definition delim :: "string \<Rightarrow> bool" where
  "delim x \<longleftrightarrow> x = [] \<or> \<not> is_digit (hd x)"

lemma of_char_digit [simp]: "n < 10 \<Longrightarrow> of_char (char_of (48 + n) :: char) = 48 + (n::nat)"
  by simp

lemma nat_digits_digits: "c \<in> set (nat_digits n) \<Longrightarrow> is_digit c"
proof (induction n arbitrary: c rule: nat_digits.induct)
  case (1 n)
  then show ?case
    by (cases "n < 10") (auto simp: nat_digits.simps [of n] byte_in_def)
qed

lemma nat_digits_nonempty [simp]: "nat_digits n \<noteq> []"
  by (subst nat_digits.simps) simp

definition digits_value :: "string \<Rightarrow> nat" where
  "digits_value = foldl (\<lambda>n c. 10 * n + (of_char c - 48)) 0"

lemma digits_value_nat_digits: "digits_value (nat_digits n) = n"
proof (induction n rule: nat_digits.induct)
  case (1 n)
  show ?case
  proof (cases "n < 10")
    case True
    then show ?thesis by (simp add: nat_digits.simps [of n] digits_value_def)
  next
    case False
    with 1 have "digits_value (nat_digits n) = 10 * (n div 10) + n mod 10"
      by (simp add: nat_digits.simps [of n] digits_value_def)
    then show ?thesis by simp
  qed
qed

lemma takeWhile_digits: "delim x \<Longrightarrow> takeWhile is_digit (nat_digits n @ x) = nat_digits n"
  using nat_digits_digits [of _ n] by (cases x) (auto simp: delim_def takeWhile_append)

lemma nat_digits_unique:
  assumes "nat_digits a @ x = nat_digits b @ y" "delim x" "delim y"
  shows "a = b \<and> x = y"
proof -
  have "nat_digits a = nat_digits b"
    using assms by (metis takeWhile_digits)
  then show ?thesis using assms(1) by (metis digits_value_nat_digits same_append_eq)
qed

lemma nat_digits_head: "\<exists>c r. nat_digits n = c # r \<and> is_digit c"
  using nat_digits_digits [of "hd (nat_digits n)" n] by (cases "nat_digits n") auto

lemma int_to_string_head: "\<exists>c r. int_to_string i = c # r \<and> (c = CHR ''-'' \<or> is_digit c)"
  using nat_digits_head [of "nat i"] by (auto simp: int_to_string_def)

lemma minus_no_digit [simp]: "\<not> is_digit CHR ''-''"
  by (simp add: byte_in_def)

lemma int_to_string_unique:
  assumes "int_to_string a @ x = int_to_string b @ y" "delim x" "delim y"
  shows "a = b \<and> x = y"
proof -
  obtain c r where r: "nat_digits (nat a) = c # r" "is_digit c" using nat_digits_head by blast
  obtain d q where q: "nat_digits (nat b) = d # q" "is_digit d" using nat_digits_head by blast
  have "c \<noteq> CHR ''-''" "d \<noteq> CHR ''-''" using r(2) q(2) by auto
  then have "(a < 0) = (b < 0)"
    using assms(1) r q by (auto simp: int_to_string_def split: if_splits)
  then show ?thesis
    using nat_digits_unique [of "nat (- a)" x "nat (- b)" y] nat_digits_unique [of "nat a" x "nat b" y] assms
    by (auto simp: int_to_string_def split: if_splits)
qed

subsection \<open>Canonical forms are unique\<close>

text \<open>
  What the proofs use of the crate's string literals: they start with a quotation mark and are
  self-delimiting, so the text of a literal and what follows it determine the string.
\<close>

definition literal_ok :: "(string \<Rightarrow> string option) \<Rightarrow> bool" where
  "literal_ok js \<longleftrightarrow>
     (\<forall>s t. js s = Some t \<longrightarrow> (\<exists>r. t = CHR 0x22 # r)) \<and>
     (\<forall>s s' t t' x y. js s = Some t \<longrightarrow> js s' = Some t' \<longrightarrow> t @ x = t' @ y \<longrightarrow> s = s' \<and> x = y)"

primrec wf_value :: "Value \<Rightarrow> bool" where
  "wf_value Null \<longleftrightarrow> True"
| "wf_value (Bool b) \<longleftrightarrow> True"
| "wf_value (Number n) \<longleftrightarrow> (case n of PosInt i \<Rightarrow> 0 \<le> i | NegInt i \<Rightarrow> i < 0 | Float _ \<Rightarrow> True)"
| "wf_value (String s) \<longleftrightarrow> True"
| "wf_value (Array vs) \<longleftrightarrow> list_all id (map wf_value vs)"
| "wf_value (Object m) \<longleftrightarrow> keys_sorted m \<and> list_all id (map snd (map (map_prod id wf_value) m))"

lemma wf_Array: "wf_value (Array vs) \<longleftrightarrow> (\<forall>v \<in> set vs. wf_value v)"
  and wf_Object: "wf_value (Object m) \<longleftrightarrow> keys_sorted m \<and> (\<forall>(k, v) \<in> set m. wf_value v)"
  by (auto simp: list_all_iff)

declare wf_value.simps(5,6) [simp del]

lemma wf_json_int [simp]: "wf_value (json_int i)"
  by (simp add: json_int_def)

lemma write_items_map: "write_items js vs = map (write_value js) vs"
  by (induction vs) auto

lemma write_members_map: "write_members js m = map (\<lambda>(k, v). (k, write_value js v)) m"
  by (induction m) auto

definition member_text :: "(string \<Rightarrow> string option) \<Rightarrow> string \<times> Value \<Rightarrow> string relay_result" where
  "member_text js = (\<lambda>(k, v). write_member js (k, write_value js v))"

lemma write_Object_sorted:
  assumes "keys_sorted m"
  shows "write_value js (Object m)
    = and_then (collect (map (member_text js) m)) (\<lambda>ss. Inr (CHR ''{'' # separated ss @ ''}''))"
proof -
  have "map fst (write_members js m) = map fst m"
    by (induction m) auto
  then have "sort_key fst (write_members js m) = write_members js m"
    using assms by (intro sort_key_id_if_sorted) (simp add: keys_sorted_sorted)
  then show ?thesis
    by (simp add: write_members_map member_text_def comp_def case_prod_unfold)
qed

lemma collect_length: "collect rs = Inr xs \<Longrightarrow> length xs = length rs"
  by (induction rs arbitrary: xs) (auto simp: result_simps)

lemma delim_Cons [simp]: "delim (c # x) \<longleftrightarrow> \<not> is_digit c"
  by (simp add: delim_def)

lemma delim_comma: "\<not> is_digit c \<Longrightarrow> delim (concat (map ((#) CHR '','') ss) @ c # x)"
  by (cases ss) (auto simp: byte_in_def)

text \<open>
  \<open>self_delimiting F A B\<close>: the texts of the elements of \<open>A\<close> and \<open>B\<close> under the writer \<open>F\<close> can be told
  apart, and told from what follows, as long as that does not start with a digit.
\<close>

definition self_delimiting :: "('a \<Rightarrow> string relay_result) \<Rightarrow> 'a set \<Rightarrow> 'a set \<Rightarrow> bool" where
  "self_delimiting F A B \<longleftrightarrow>
     (\<forall>a \<in> A. \<forall>b \<in> B. \<forall>s t x y. F a = Inr s \<longrightarrow> F b = Inr t \<longrightarrow> s @ x = t @ y \<longrightarrow> delim x \<longrightarrow> delim y
        \<longrightarrow> a = b \<and> x = y)"

lemma self_delimitingD:
  "self_delimiting F A B \<Longrightarrow> a \<in> A \<Longrightarrow> b \<in> B \<Longrightarrow> F a = Inr s \<Longrightarrow> F b = Inr t \<Longrightarrow> s @ x = t @ y \<Longrightarrow>
     delim x \<Longrightarrow> delim y \<Longrightarrow> a = b \<and> x = y"
  unfolding self_delimiting_def by blast

lemma self_delimiting_mono: "self_delimiting F A B \<Longrightarrow> A' \<subseteq> A \<Longrightarrow> B' \<subseteq> B \<Longrightarrow> self_delimiting F A' B'"
  unfolding self_delimiting_def by blast

lemma tail_unique:
  assumes "self_delimiting F (set as) (set bs)"
    and c: "\<not> is_digit c" "c \<noteq> CHR '',''"
    and "collect (map F as) = Inr ss" "collect (map F bs) = Inr tt"
    and "concat (map ((#) CHR '','') ss) @ c # x = concat (map ((#) CHR '','') tt) @ c # y"
  shows "as = bs \<and> x = y"
  using assms(1,4-6)
proof (induction as arbitrary: bs ss tt)
  case Nil
  with c show ?case by (cases bs) (auto simp: result_simps)
next
  case (Cons a as)
  from Cons.prems(2) obtain s ss' where s: "F a = Inr s" "collect (map F as) = Inr ss'" "ss = s # ss'"
    by (auto simp: result_simps)
  from Cons.prems(3,4) s c obtain b bs' t tt' where
    t: "bs = b # bs'" "F b = Inr t" "collect (map F bs') = Inr tt'" "tt = t # tt'"
    by (cases bs) (auto simp: result_simps)
  have "s @ concat (map ((#) CHR '','') ss') @ c # x = t @ concat (map ((#) CHR '','') tt') @ c # y"
    using Cons.prems(4) s t by simp
  from self_delimitingD [OF Cons.prems(1) _ _ s(1) t(2) this] t c
  have "a = b" and eq: "concat (map ((#) CHR '','') ss') @ c # x = concat (map ((#) CHR '','') tt') @ c # y"
    by (auto simp: delim_comma)
  moreover have "self_delimiting F (set as) (set bs')"
    using Cons.prems(1) t(1) by (auto intro: self_delimiting_mono)
  from Cons.IH [OF this s(2) t(3) eq] have "as = bs' \<and> x = y" .
  ultimately show ?case using t by simp
qed

lemma separated_unique:
  assumes U: "self_delimiting F (set as) (set bs)"
    and H: "\<And>a s. F a = Inr s \<Longrightarrow> s \<noteq> [] \<and> hd s \<noteq> c"
    and c: "\<not> is_digit c" "c \<noteq> CHR '',''"
    and ss: "collect (map F as) = Inr ss" and tt: "collect (map F bs) = Inr tt"
    and eq: "separated ss @ c # x = separated tt @ c # y"
  shows "as = bs \<and> x = y"
proof (cases "as = [] \<or> bs = []")
  case True
  have "separated us = [] \<or> hd (separated us) \<noteq> c \<and> separated us \<noteq> []" if "collect (map F zs) = Inr us" for zs us
    using H that by (cases zs) (fastforce simp: result_simps)+
  moreover have "separated us \<noteq> []" if "collect (map F zs) = Inr us" "zs \<noteq> []" for zs us
    using H that by (cases zs) (fastforce simp: result_simps)+
  moreover have "separated ss = [] \<or> separated tt = []"
    using True ss tt by auto
  ultimately show ?thesis
    using True ss tt eq by (metis append_Nil hd_append2 list.inject list.sel(1))
next
  case False
  then have "concat (map ((#) CHR '','') ss) @ c # x = concat (map ((#) CHR '','') tt) @ c # y"
    using ss tt eq by (cases as; cases bs) (auto simp: result_simps)
  from tail_unique [OF U c ss tt this] show ?thesis .
qed

lemma literal_head: "literal_ok js \<Longrightarrow> write_string js s = Inr t \<Longrightarrow> \<exists>r. t = CHR 0x22 # r"
  by (auto simp: literal_ok_def write_string_def result_simps)

lemma literal_unique:
  "literal_ok js \<Longrightarrow> write_string js s = Inr t \<Longrightarrow> write_string js s' = Inr t' \<Longrightarrow> t @ x = t' @ y
     \<Longrightarrow> s = s' \<and> x = y"
  unfolding literal_ok_def write_string_def result_simps by blast

text \<open>The first character of a value's text tells its constructor.\<close>

fun leads :: "Value \<Rightarrow> char \<Rightarrow> bool" where
  "leads Null c \<longleftrightarrow> c = CHR ''n''"
| "leads (Bool True) c \<longleftrightarrow> c = CHR ''t''"
| "leads (Bool False) c \<longleftrightarrow> c = CHR ''f''"
| "leads (Number n) c \<longleftrightarrow> c = CHR ''-'' \<or> is_digit c"
| "leads (String s) c \<longleftrightarrow> c = CHR 0x22"
| "leads (Array vs) c \<longleftrightarrow> c = CHR ''[''"
| "leads (Object m) c \<longleftrightarrow> c = CHR ''{''"

lemma write_value_leads:
  assumes "literal_ok js" "write_value js v = Inr s"
  shows "\<exists>c r. s = c # r \<and> leads v c"
proof (cases v)
  case (Number n)
  then show ?thesis using assms(2) int_to_string_head by (cases n) auto
next
  case (Bool b)
  then show ?thesis using assms(2) by (cases b) auto
qed (use assms literal_head in \<open>auto simp: result_simps\<close>)

lemma write_value_not_close:
  assumes "literal_ok js" "write_value js v = Inr s"
  shows "s \<noteq> [] \<and> hd s \<noteq> CHR '']''"
proof -
  from write_value_leads [OF assms] obtain c r where "s = c # r" "leads v c" by blast
  then show ?thesis by (cases "(v, c)" rule: leads.cases) (auto simp: byte_in_def)
qed

lemma member_text_not_close:
  assumes "literal_ok js" "member_text js kv = Inr s"
  shows "s \<noteq> [] \<and> hd s \<noteq> CHR ''}''"
  using assms literal_head by (fastforce simp: member_text_def write_member_def result_simps split: prod.splits)

lemma leads_cases:
  assumes "leads v c" "leads w c"
  shows "(v = Null \<longleftrightarrow> w = Null) \<and> (\<forall>b. v = Bool b \<longleftrightarrow> w = Bool b)
    \<and> ((\<exists>n. v = Number n) \<longleftrightarrow> (\<exists>n. w = Number n)) \<and> ((\<exists>q. v = String q) \<longleftrightarrow> (\<exists>q. w = String q))
    \<and> ((\<exists>q. v = Array q) \<longleftrightarrow> (\<exists>q. w = Array q)) \<and> ((\<exists>q. v = Object q) \<longleftrightarrow> (\<exists>q. w = Object q))"
  using assms
  by (cases "(v, c)" rule: leads.cases; cases "(w, c)" rule: leads.cases) (auto simp: byte_in_def)

lemma write_shape:
  assumes "literal_ok js" "write_value js v = Inr s" "write_value js w = Inr t" "s @ x = t @ y"
  obtains c where "leads v c" "leads w c"
  using write_value_leads [OF assms(1,2)] write_value_leads [OF assms(1,3)] assms(4) by auto

lemma write_number_self_delimiting:
  assumes "wf_value (Number m)" "wf_value (Number n)" "write_number m = Inr s" "write_number n = Inr t"
    and "s @ x = t @ y" "delim x" "delim y"
  shows "m = n \<and> x = y"
proof -
  from assms(1,3) obtain a where a: "s = int_to_string a" "m = PosInt a \<and> 0 \<le> a \<or> m = NegInt a \<and> a < 0"
    by (cases m) auto
  from assms(2,4) obtain b where b: "t = int_to_string b" "n = PosInt b \<and> 0 \<le> b \<or> n = NegInt b \<and> b < 0"
    by (cases n) auto
  from int_to_string_unique assms(5-7) a(1) b(1) have "a = b" "x = y" by blast+
  with a(2) b(2) show ?thesis by auto
qed

lemma self_delimitingI:
  assumes "\<And>a b s t x y. a \<in> A \<Longrightarrow> b \<in> B \<Longrightarrow> F a = Inr s \<Longrightarrow> F b = Inr t \<Longrightarrow> s @ x = t @ y \<Longrightarrow>
     delim x \<Longrightarrow> delim y \<Longrightarrow> a = b \<and> x = y"
  shows "self_delimiting F A B"
  unfolding self_delimiting_def by (intro ballI allI impI) (rule assms)

lemma member_self_delimiting:
  assumes js: "literal_ok js" and vals: "self_delimiting (write_value js) (snd ` set m) (snd ` set n)"
  shows "self_delimiting (member_text js) (set m) (set n)"
proof (rule self_delimitingI)
  fix e f s t x y
  assume mem: "e \<in> set m" "f \<in> set n" and w: "member_text js e = Inr s" "member_text js f = Inr t"
    and eq: "s @ x = t @ y" and d: "delim x" "delim y"
  obtain k v l u where e: "e = (k, v)" "f = (l, u)" by (cases e; cases f)
  from w e obtain p q p' q' where
    a: "write_string js k = Inr p" "write_value js v = Inr q" "s = p @ CHR '':'' # q" and
    b: "write_string js l = Inr p'" "write_value js u = Inr q'" "t = p' @ CHR '':'' # q'"
    by (auto simp: member_text_def write_member_def result_simps)
  have "p @ CHR '':'' # q @ x = p' @ CHR '':'' # q' @ y" using eq a b by simp
  from literal_unique [OF js a(1) b(1) this] have k: "k = l" and q: "q @ x = q' @ y" by auto
  have "v \<in> snd ` set m" "u \<in> snd ` set n" using mem e by force+
  from self_delimitingD [OF vals this a(2) b(2) q d] k e show "e = f \<and> x = y" by simp
qed

lemma write_value_self_delimiting:
  assumes js: "literal_ok js"
  shows "self_delimiting (write_value js) {v. wf_value v} {w. wf_value w}"
proof (rule self_delimitingI, unfold mem_Collect_eq)
  show "v = w \<and> x = y"
    if "wf_value v" "wf_value w" "write_value js v = Inr s" "write_value js w = Inr t"
      and "s @ x = t @ y" "delim x" "delim y" for v w s t x y
    using that
  proof (induction v arbitrary: w s t x y)
    case (Array vs)
    obtain ws where w: "w = Array ws"
      using write_shape [OF js Array.prems(3-5)] leads_cases by metis
    have "self_delimiting (write_value js) (set vs) (set ws)"
    proof (rule self_delimitingI)
      fix a b s t x y
      assume a: "a \<in> set vs" and "b \<in> set ws" and eqs: "write_value js a = Inr s"
        "write_value js b = Inr t" "s @ x = t @ y" "delim x" "delim y"
      then have "wf_value a" "wf_value b" using Array.prems(1,2) unfolding w wf_Array by auto
      from Array.IH [OF a this eqs] show "a = b \<and> x = y" .
    qed
    moreover from Array.prems(3-5) w obtain ss tt where
      "collect (map (write_value js) vs) = Inr ss" "collect (map (write_value js) ws) = Inr tt"
      "separated ss @ CHR '']'' # x = separated tt @ CHR '']'' # y"
      by (auto simp: result_simps write_items_map)
    ultimately show ?case
      using separated_unique [OF _ write_value_not_close [OF js]] w by (fastforce simp: byte_in_def)
  next
    case (Object m)
    obtain n where w: "w = Object n"
      using write_shape [OF js Object.prems(3-5)] leads_cases by metis
    have "self_delimiting (write_value js) (snd ` set m) (snd ` set n)"
    proof (rule self_delimitingI)
      fix a b s t x y
      assume "a \<in> snd ` set m" "b \<in> snd ` set n"
      then obtain k l where "(k, a) \<in> set m" "(l, b) \<in> set n" by force
      moreover from this Object.prems(1,2) have "wf_value a" "wf_value b" unfolding w wf_Object by auto
      moreover assume "write_value js a = Inr s" "write_value js b = Inr t" "s @ x = t @ y" "delim x" "delim y"
      ultimately show "a = b \<and> x = y" by (intro Object.IH) (auto simp: snds.simps)
    qed
    from member_self_delimiting [OF js this] have "self_delimiting (member_text js) (set m) (set n)" .
    moreover from Object.prems(1,2) w have "keys_sorted m" "keys_sorted n" by (auto simp: wf_Object)
    with Object.prems(3-5) w obtain ss tt where
      "collect (map (member_text js) m) = Inr ss" "collect (map (member_text js) n) = Inr tt"
      "separated ss @ CHR ''}'' # x = separated tt @ CHR ''}'' # y"
      by (auto simp: result_simps write_Object_sorted simp del: write_value.simps)
    ultimately show ?case
      using separated_unique [OF _ member_text_not_close [OF js]] w by (fastforce simp: byte_in_def)
  next
    case (String q)
    obtain q' where w: "w = String q'"
      using write_shape [OF js String.prems(3-5)] leads_cases by metis
    with literal_unique [OF js, of q s q' t x y] String.prems show ?case by simp
  next
    case (Number n)
    obtain n' where w: "w = Number n'"
      using write_shape [OF js Number.prems(3-5)] leads_cases by metis
    with write_number_self_delimiting [of n n' s t x y] Number.prems show ?case by simp
  next
    case Null
    have "w = Null"
      using write_shape [OF js Null.prems(3-5)] leads_cases by metis
    with Null.prems show ?case by simp
  next
    case (Bool b)
    have "w = Bool b"
      using write_shape [OF js Bool.prems(3-5)] leads_cases by metis
    with Bool.prems show ?case by simp
  qed
qed

subsection \<open>Objects built from a list of fields\<close>

lemma insert_fields_spec:
  "keys_sorted m \<Longrightarrow> insert_fields m fs =
     (if distinct (map fst fs) \<and> set (map fst m) \<inter> set (map fst fs) = {}
      then Inr (foldl (\<lambda>m (k, v). btree_insert k v m) m fs) else err InvalidRequest)"
proof (induction fs arbitrary: m)
  case (Cons f fs)
  obtain k v where f: "f = (k, v)" by (cases f)
  have "keys_sorted (btree_insert k v m)" using Cons.prems by (rule btree_insert_sorted)
  from Cons.IH [OF this] btree_insert_keys [of k v m] show ?case
    unfolding f by (auto simp: map_of_eq_None_iff)
qed auto

lemma foldl_btree_mset:
  "distinct (map fst fs) \<Longrightarrow> set (map fst m) \<inter> set (map fst fs) = {} \<Longrightarrow>
     mset (foldl (\<lambda>m (k, v). btree_insert k v m) m fs) = mset m + mset fs"
proof (induction fs arbitrary: m)
  case (Cons f fs)
  obtain k v where f: "f = (k, v)" by (cases f)
  with Cons btree_insert_keys [of k v m] show ?case
    by (auto simp: btree_insert_fresh_mset)
qed simp

definition btree_of :: "(string \<times> Value) list \<Rightarrow> (string \<times> Value) list" where
  "btree_of fs = foldl (\<lambda>m (k, v). btree_insert k v m) [] fs"

lemma canonicalize_object_eq:
  "canonicalize_object js fs =
     (if distinct (map fst fs) then write_value js (Object (btree_of fs)) else err InvalidRequest)"
  by (simp add: canonicalize_object_def canonicalize_def insert_fields_spec btree_of_def)

lemma btree_of_sorted: "keys_sorted (btree_of fs)"
  by (simp add: btree_of_def foldl_btree_sorted)

lemma btree_of_mset: "distinct (map fst fs) \<Longrightarrow> mset (btree_of fs) = mset fs"
  by (simp add: btree_of_def foldl_btree_mset)

lemma btree_of_perm:
  assumes "mset fs = mset gs" "distinct (map fst fs)"
  shows "btree_of fs = btree_of gs"
proof (rule keys_sorted_mset_eq)
  have "distinct (map fst gs)"
    using assms by (metis mset_eq_imp_distinct_iff mset_map)
  with assms show "mset (btree_of fs) = mset (btree_of gs)" by (simp add: btree_of_mset)
qed (simp_all add: btree_of_sorted)

lemma canonicalize_object_inj:
  assumes js: "literal_ok js"
    and wf: "\<forall>(k, v) \<in> set fs \<union> set gs. wf_value v"
    and s: "canonicalize_object js fs = Inr s" "canonicalize_object js gs = Inr s"
  shows "mset fs = mset gs"
proof -
  from s have d: "distinct (map fst fs)" "distinct (map fst gs)"
    and w: "write_value js (Object (btree_of fs)) = Inr s" "write_value js (Object (btree_of gs)) = Inr s"
    by (auto simp: canonicalize_object_eq split: if_splits)
  have "set (btree_of fs) = set fs" "set (btree_of gs) = set gs"
    using d by (metis btree_of_mset set_mset_mset)+
  with wf have "wf_value (Object (btree_of fs))" "wf_value (Object (btree_of gs))"
    by (auto simp: wf_Object btree_of_sorted)
  with self_delimitingD [OF write_value_self_delimiting [OF js] _ _ w, of "[]" "[]"]
  have "btree_of fs = btree_of gs" by (simp add: delim_def)
  then show ?thesis using d by (metis btree_of_mset)
qed

subsection \<open>A concrete literal writer\<close>

text \<open>Backslash escaping of the quotation mark and the backslash: an instance of \<open>literal_ok\<close>.\<close>

definition esc :: "char \<Rightarrow> string" where
  "esc c = (if c = CHR 0x22 \<or> c = CHR 0x5C then [CHR 0x5C, c] else [c])"

definition quoted :: "string \<Rightarrow> string option" where
  "quoted s = Some (CHR 0x22 # concat (map esc s) @ [CHR 0x22])"

lemma esc_unique: "esc c @ x = esc d @ y \<Longrightarrow> c = d \<and> x = y"
  by (auto simp: esc_def split: if_splits)

lemma esc_not_quote: "esc c @ x \<noteq> CHR 0x22 # y"
  by (simp add: esc_def)

lemma esc_body_unique:
  "concat (map esc a) @ CHR 0x22 # x = concat (map esc b) @ CHR 0x22 # y \<Longrightarrow> a = b \<and> x = y"
proof (induction a arbitrary: b)
  case Nil
  then show ?case by (cases b) (simp_all add: esc_not_quote [THEN not_sym])
next
  case (Cons c a)
  show ?case
  proof (cases b)
    case Nil
    with Cons.prems show ?thesis by (simp add: esc_not_quote)
  next
    case (Cons d b')
    with Cons.prems have "esc c @ concat (map esc a) @ CHR 0x22 # x = esc d @ concat (map esc b') @ CHR 0x22 # y"
      by simp
    from esc_unique [OF this] Cons.IH Cons show ?thesis by simp
  qed
qed

lemma literal_ok_quoted: "literal_ok quoted"
  unfolding literal_ok_def
proof (intro conjI allI impI)
  fix s s' t t' x y
  assume "quoted s = Some t" "quoted s' = Some t'" "t @ x = t' @ y"
  then have "concat (map esc s) @ CHR 0x22 # x = concat (map esc s') @ CHR 0x22 # y"
    by (auto simp: quoted_def)
  from esc_body_unique [OF this] show "s = s'" "x = y" by auto
qed (auto simp: quoted_def)

text \<open>
  C32. Canonicalisation is a function of the object alone: the order in which a caller lists the
  fields has no influence on the bytes, and a repeated field name is refused with
  \<^verbatim>\<open>invalid_request\<close> in whatever position it stands.
\<close>

theorem canonicalize_object_order_free:
  assumes "mset fs = mset gs"
  shows "canonicalize_object js fs = canonicalize_object js gs
    \<and> (\<not> distinct (map fst fs) \<longrightarrow> canonicalize_object js fs = err InvalidRequest)"
proof -
  have "distinct (map fst fs) = distinct (map fst gs)"
    using assms by (metis mset_eq_imp_distinct_iff mset_map)
  with assms btree_of_perm [OF assms] show ?thesis by (auto simp: canonicalize_object_eq)
qed

theorem canonicalize_object_order_free_witness:
  "canonicalize_object quoted [(''z'', json_int 1), (''a'', String ''first'')]
   = canonicalize_object quoted [(''a'', String ''first''), (''z'', json_int 1)]"
  by (rule canonicalize_object_order_free [THEN conjunct1]) simp

text \<open>
  C16. Canonical bytes identify the object: if two field lists of well-formed values canonicalise to
  the same bytes, they have the same fields with the same values. A signature over the bytes is
  therefore a signature over exactly one object. (String literals are assumed self-delimiting.)
\<close>

theorem canonicalize_object_injective:
  assumes "literal_ok js"
    and "\<forall>(k, v) \<in> set fs \<union> set gs. wf_value v"
    and "canonicalize_object js fs = Inr s" "canonicalize_object js gs = Inr s"
  shows "mset fs = mset gs"
  using assms by (rule canonicalize_object_inj)

theorem canonicalize_object_injective_witness:
  "\<exists>s. canonicalize_object quoted [(''b'', Bool True), (''a'', json_int 7)] = Inr s
     \<and> canonicalize_object quoted [(''a'', json_int 7), (''b'', Bool True)] = Inr s
     \<and> mset [(''b'', Bool True), (''a'', json_int 7)] = mset [(''a'', json_int 7), (''b'', Bool True)]"
proof -
  let ?s = "CHR ''{'' # CHR 0x22 # CHR ''a'' # CHR 0x22 # CHR '':'' # CHR ''7'' # CHR '','' # CHR 0x22
      # CHR ''b'' # CHR 0x22 # '':true}''"
  have 1: "canonicalize_object quoted [(''b'', Bool True), (''a'', json_int 7)] = Inr ?s"
    and 2: "canonicalize_object quoted [(''a'', json_int 7), (''b'', Bool True)] = Inr ?s"
    by code_simp+
  have "mset [(''b'', Bool True), (''a'', json_int 7)] = mset [(''a'', json_int 7), (''b'', Bool True)]"
    by (rule canonicalize_object_injective [OF literal_ok_quoted _ 1 2]) simp
  with 1 2 show ?thesis by blast
qed

end
