(* ===== verification/Validation.thy ===== *)
theory Validation
  imports Relay_Error
begin

text \<open>
  \<^verbatim>\<open>src/protocol/validation.rs\<close> and \<^verbatim>\<open>src/protocol/domain.rs\<close>: the field validators.

  Each regular expression of the source is kept twice: as the syntax tree of its pattern
  (\<open>ID_RE\<close>, \<open>DOMAIN_RE\<close>, ...) with its language \<open>lang\<close>, and as the executable test the validators
  run. The lemmas show that the test decides membership in the language. The five token
  validators share one contract, the locale \<open>token_validator\<close>, interpreted for each of them.
\<close>

subsection \<open>Regular expressions of the source\<close>

datatype re =
    Cls "(char \<times> char) list"
  | Seq re re
  | Opt re
  | Rep nat nat re
  | Plus re

definition in_cls :: "(char \<times> char) list \<Rightarrow> char \<Rightarrow> bool" where
  "in_cls rs c \<longleftrightarrow> list_ex (\<lambda>(lo, hi). lo \<le> c \<and> c \<le> hi) rs"

primrec lang :: "re \<Rightarrow> string set" where
  "lang (Cls rs) = {[c] | c. in_cls rs c}"
| "lang (Seq a b) = {x @ y | x y. x \<in> lang a \<and> y \<in> lang b}"
| "lang (Opt a) = insert [] (lang a)"
| "lang (Rep m n a) = {concat ws | ws. m \<le> length ws \<and> length ws \<le> n \<and> set ws \<subseteq> lang a}"
| "lang (Plus a) = {concat ws | ws. ws \<noteq> [] \<and> set ws \<subseteq> lang a}"

definition class_run :: "(char \<times> char) list \<Rightarrow> nat \<Rightarrow> nat \<Rightarrow> string \<Rightarrow> bool" where
  "class_run rs m n s \<longleftrightarrow> m \<le> length s \<and> length s \<le> n \<and> list_all (in_cls rs) s"

lemma lang_Seq: "w \<in> lang (Seq a b) \<longleftrightarrow> (\<exists>x y. w = x @ y \<and> x \<in> lang a \<and> y \<in> lang b)"
  and lang_Cls: "w \<in> lang (Cls rs) \<longleftrightarrow> (\<exists>c. w = [c] \<and> in_cls rs c)"
  and lang_Opt: "w \<in> lang (Opt a) \<longleftrightarrow> w = [] \<or> w \<in> lang a"
  and lang_Plus: "w \<in> lang (Plus a) \<longleftrightarrow> (\<exists>ws. w = concat ws \<and> ws \<noteq> [] \<and> set ws \<subseteq> lang a)"
  by auto

lemmas lang_iffs = lang_Seq lang_Cls lang_Opt lang_Plus

lemma singletons_of_class: "set ws \<subseteq> lang (Cls rs) \<longleftrightarrow> (\<exists>s. ws = map (\<lambda>c. [c]) s \<and> list_all (in_cls rs) s)"
proof
  assume "set ws \<subseteq> lang (Cls rs)"
  then show "\<exists>s. ws = map (\<lambda>c. [c]) s \<and> list_all (in_cls rs) s"
  proof (induction ws)
    case (Cons w ws)
    then obtain c s where "w = [c]" "in_cls rs c" "ws = map (\<lambda>c. [c]) s" "list_all (in_cls rs) s"
      by auto
    then show ?case by (intro exI [of _ "c # s"]) simp
  qed simp
qed (auto simp: list_all_iff)

lemma concat_singletons [simp]: "concat (map (\<lambda>c. [c]) s) = s"
  by (induction s) auto

lemma lang_class_run: "s \<in> lang (Rep m n (Cls rs)) \<longleftrightarrow> class_run rs m n s"
proof
  assume "class_run rs m n s"
  then show "s \<in> lang (Rep m n (Cls rs))"
    unfolding class_run_def lang.simps(4) mem_Collect_eq singletons_of_class
    by (intro exI [of _ "map (\<lambda>c. [c]) s"]) auto
next
  assume "s \<in> lang (Rep m n (Cls rs))"
  then show "class_run rs m n s"
    unfolding class_run_def lang.simps(4) mem_Collect_eq singletons_of_class by auto
qed

subsection \<open>The token classes\<close>

definition TOKEN :: "(char \<times> char) list" where
  "TOKEN = [(CHR ''A'', CHR ''Z''), (CHR ''a'', CHR ''z''), (CHR ''0'', CHR ''9''),
            (CHR ''_'', CHR ''_''), (CHR ''-'', CHR ''-'')]"

definition KID_CLASS :: "(char \<times> char) list" where
  "KID_CLASS = [(CHR ''A'', CHR ''Z''), (CHR ''a'', CHR ''z''), (CHR ''0'', CHR ''9''),
            (CHR ''.'', CHR ''.''), (CHR ''_'', CHR ''_''), (CHR ''-'', CHR ''-'')]"

definition ID_RE :: re where "ID_RE = Rep 16 128 (Cls TOKEN)"
definition SIG_RE :: re where "SIG_RE = Rep 86 86 (Cls TOKEN)"
definition ACCOUNT_RE :: re where "ACCOUNT_RE = Rep 22 128 (Cls TOKEN)"
definition CHALLENGE_RE :: re where "CHALLENGE_RE = Rep 16 512 (Cls TOKEN)"
definition KID_RE :: re where "KID_RE = Rep 1 64 (Cls KID_CLASS)"

definition validate_id :: "string \<Rightarrow> unit relay_result" where
  "validate_id v = (if class_run TOKEN 16 128 v then Inr () else err InvalidRequest)"

definition validate_signature_b64 :: "string \<Rightarrow> unit relay_result" where
  "validate_signature_b64 v = (if class_run TOKEN 86 86 v then Inr () else err InvalidSignature)"

definition validate_site_account_id :: "string \<Rightarrow> unit relay_result" where
  "validate_site_account_id v = (if class_run TOKEN 22 128 v then Inr () else err InvalidRequest)"

definition validate_challenge_token :: "string \<Rightarrow> unit relay_result" where
  "validate_challenge_token v = (if class_run TOKEN 16 512 v then Inr () else err InvalidRequest)"

definition validate_kid :: "string \<Rightarrow> unit relay_result" where
  "validate_kid v = (if class_run KID_CLASS 1 64 v then Inr () else err InvalidRequest)"

definition validate_reason :: "string \<Rightarrow> unit relay_result" where
  "validate_reason v = (if length v \<le> 100 then Inr () else err InvalidRequest)"

definition validate_display_name :: "string \<Rightarrow> bool \<Rightarrow> unit relay_result" where
  "validate_display_name v required =
     (if required \<and> (v = [] \<or> length v > MAX_DISPLAY_NAME) then err InvalidRequest
      else if length v > MAX_DISPLAY_NAME then err InvalidRequest
      else Inr ())"

subsection \<open>The contract of the token validators\<close>

locale token_validator =
  fixes validate :: "string \<Rightarrow> unit relay_result"
    and rs :: "(char \<times> char) list"
    and lo hi :: nat
    and e :: ProblemCode
  assumes validate_eq: "validate s = (if class_run rs lo hi s then Inr () else err e)"
begin

lemma accepts_iff_lang: "validate s = Inr () \<longleftrightarrow> s \<in> lang (Rep lo hi (Cls rs))"
  unfolding lang_class_run by (simp add: validate_eq)

lemma rejects_with: "validate s \<noteq> Inr () \<Longrightarrow> validate s = err e"
  by (simp add: validate_eq split: if_splits)

lemma accepts_length: "validate s = Inr u \<Longrightarrow> lo \<le> length s \<and> length s \<le> hi"
  by (simp add: validate_eq class_run_def split: if_splits)

lemma accepts_chars: "validate s = Inr u \<Longrightarrow> c \<in> set s \<Longrightarrow> in_cls rs c"
  by (simp add: validate_eq class_run_def list_all_iff split: if_splits)

lemma acceptsI: "lo \<le> length s \<Longrightarrow> length s \<le> hi \<Longrightarrow> list_all (in_cls rs) s \<Longrightarrow> validate s = Inr ()"
  by (simp add: validate_eq class_run_def)

end

interpretation id_tok: token_validator validate_id TOKEN 16 128 InvalidRequest
  by unfold_locales (simp add: validate_id_def)

interpretation sig_tok: token_validator validate_signature_b64 TOKEN 86 86 InvalidSignature
  by unfold_locales (simp add: validate_signature_b64_def)

interpretation account_tok: token_validator validate_site_account_id TOKEN 22 128 InvalidRequest
  by unfold_locales (simp add: validate_site_account_id_def)

interpretation challenge_tok: token_validator validate_challenge_token TOKEN 16 512 InvalidRequest
  by unfold_locales (simp add: validate_challenge_token_def)

interpretation kid_tok: token_validator validate_kid KID_CLASS 1 64 InvalidRequest
  by unfold_locales (simp add: validate_kid_def)

lemma char_le_iff: "(c \<le> d) \<longleftrightarrow> (of_char c :: nat) \<le> of_char d"
  by (simp add: less_eq_char_def)

lemma token_char_ascii: "in_cls TOKEN c \<Longrightarrow> of_char c < (128::nat)"
  by (auto simp: in_cls_def TOKEN_def char_le_iff)

lemma kid_char_ascii: "in_cls KID_CLASS c \<Longrightarrow> of_char c < (128::nat)"
  by (auto simp: in_cls_def KID_CLASS_def char_le_iff)

text \<open>The outcome of every validator is \<open>Inr ()\<close> or its one problem code.\<close>

lemma validate_reason_iff: "validate_reason v = Inr u \<longleftrightarrow> length v \<le> 100"
  by (simp add: validate_reason_def)

lemma validate_display_name_iff:
  "validate_display_name v r = Inr u \<longleftrightarrow> length v \<le> 100 \<and> (r \<longrightarrow> v \<noteq> [])"
  by (auto simp: validate_display_name_def MAX_DISPLAY_NAME_def)

subsection \<open>Domains\<close>

definition LABEL_EDGE :: "(char \<times> char) list" where
  "LABEL_EDGE = [(CHR ''a'', CHR ''z''), (CHR ''0'', CHR ''9'')]"

definition LABEL_MID :: "(char \<times> char) list" where
  "LABEL_MID = [(CHR ''a'', CHR ''z''), (CHR ''0'', CHR ''9''), (CHR ''-'', CHR ''-'')]"

definition TLD :: "(char \<times> char) list" where
  "TLD = [(CHR ''a'', CHR ''z'')]"

definition LABEL_RE :: re where
  "LABEL_RE = Seq (Cls LABEL_EDGE) (Opt (Seq (Rep 0 61 (Cls LABEL_MID)) (Cls LABEL_EDGE)))"

definition DOMAIN_RE :: re where
  "DOMAIN_RE = Seq (Plus (Seq LABEL_RE (Cls [(CHR ''.'', CHR ''.'')]))) (Rep 2 63 (Cls TLD))"

definition label_ok :: "string \<Rightarrow> bool" where
  "label_ok l \<longleftrightarrow> l \<noteq> [] \<and> length l \<le> 63 \<and> in_cls LABEL_EDGE (hd l) \<and> in_cls LABEL_EDGE (last l)
     \<and> list_all (in_cls LABEL_MID) l"

definition domain_match :: "string \<Rightarrow> bool" where
  "domain_match d \<longleftrightarrow>
     (let ls = split_on CHR ''.'' d
      in 2 \<le> length ls \<and> list_all label_ok (butlast ls) \<and> class_run TLD 2 63 (last ls))"

text \<open>
  \<^verbatim>\<open>domain.parse::<IpAddr>().is_ok()\<close>: the test runs only on strings without a colon, where the
  IPv6 parser always fails, so the IPv4 grammar is what is left: four decimal octets, no leading
  zeros.
\<close>

definition octet_ok :: "string \<Rightarrow> bool" where
  "octet_ok w \<longleftrightarrow> w \<noteq> [] \<and> length w \<le> 3 \<and> list_all (in_cls [(CHR ''0'', CHR ''9'')]) w
     \<and> (length w > 1 \<longrightarrow> hd w \<noteq> CHR ''0'')
     \<and> foldl (\<lambda>n c. 10 * n + (of_char c - 48)) (0::nat) w \<le> 255"

definition parses_as_ip :: "string \<Rightarrow> bool" where
  "parses_as_ip s \<longleftrightarrow> (let ws = split_on CHR ''.'' s in length ws = 4 \<and> list_all octet_ok ws)"

definition validate_domain :: "string \<Rightarrow> unit relay_result" where
  "validate_domain domain =
     (if length domain > MAX_DOMAIN
        \<or> ends_with ''.'' domain
        \<or> contains_str '':'' domain
        \<or> contains_str ''/'' domain
        \<or> contains_str ''@'' domain
        \<or> parses_as_ip domain
        \<or> \<not> domain_match domain
      then err InvalidRequest else Inr ())"

definition validate_domain_field :: "string \<Rightarrow> unit relay_result" where
  "validate_domain_field domain = validate_domain domain"

subsection \<open>The domain test decides the pattern\<close>

lemma edge_mid: "in_cls LABEL_EDGE c \<Longrightarrow> in_cls LABEL_MID c"
  by (auto simp: in_cls_def LABEL_EDGE_def LABEL_MID_def)

lemma tld_mid: "in_cls TLD c \<Longrightarrow> in_cls LABEL_MID c"
  by (auto simp: in_cls_def TLD_def LABEL_MID_def)

lemma mid_no_dot: "in_cls LABEL_MID c \<Longrightarrow> c \<noteq> CHR ''.''"
  by (auto simp: in_cls_def LABEL_MID_def char_le_iff)

lemma tld_no_dot: "in_cls TLD c \<Longrightarrow> c \<noteq> CHR ''.''"
  by (auto simp: in_cls_def TLD_def char_le_iff)

lemma lang_label_iff:
  "l \<in> lang LABEL_RE \<longleftrightarrow> (\<exists>c. l = [c] \<and> in_cls LABEL_EDGE c) \<or>
     (\<exists>c m z. l = c # m @ [z] \<and> in_cls LABEL_EDGE c \<and> class_run LABEL_MID 0 61 m \<and> in_cls LABEL_EDGE z)"
proof -
  have "l \<in> lang LABEL_RE \<longleftrightarrow> (\<exists>x y. l = x @ y \<and> (\<exists>c. x = [c] \<and> in_cls LABEL_EDGE c) \<and>
      (y = [] \<or> (\<exists>m w. y = m @ w \<and> class_run LABEL_MID 0 61 m \<and> (\<exists>z. w = [z] \<and> in_cls LABEL_EDGE z))))"
    unfolding LABEL_RE_def lang_iffs lang_class_run ..
  then show ?thesis by (metis append_Cons append_Nil append_Nil2)
qed

lemma label_ok_lang: "label_ok l \<longleftrightarrow> l \<in> lang LABEL_RE"
proof
  assume ok: "label_ok l"
  then obtain c r where l: "l = c # r" by (auto simp: label_ok_def neq_Nil_conv)
  show "l \<in> lang LABEL_RE"
  proof (cases r rule: rev_cases)
    case Nil
    with ok l show ?thesis by (simp add: lang_label_iff label_ok_def)
  next
    case (snoc m z)
    with ok l have "in_cls LABEL_EDGE c" "in_cls LABEL_EDGE z" "class_run LABEL_MID 0 61 m"
      by (auto simp: label_ok_def class_run_def)
    with snoc l show ?thesis by (auto simp: lang_label_iff)
  qed
next
  assume "l \<in> lang LABEL_RE"
  then show "label_ok l"
    by (auto simp: lang_label_iff label_ok_def class_run_def edge_mid)
qed

lemma join_with_snoc: "join_with d (ls @ [t]) = concat (map (\<lambda>l. l @ [d]) ls) @ t"
  by (induction ls) (auto simp: join_with_Cons)

lemma dotted_labels:
  "set ws \<subseteq> lang (Seq LABEL_RE (Cls [(CHR ''.'', CHR ''.'')]))
   \<longleftrightarrow> (\<exists>ls. ws = map (\<lambda>l. l @ ''.'') ls \<and> list_all label_ok ls)"
proof
  assume "set ws \<subseteq> lang (Seq LABEL_RE (Cls [(CHR ''.'', CHR ''.'')]))"
  then show "\<exists>ls. ws = map (\<lambda>l. l @ ''.'') ls \<and> list_all label_ok ls"
  proof (induction ws)
    case (Cons w ws)
    then obtain ls where "ws = map (\<lambda>l. l @ ''.'') ls" "list_all label_ok ls"
      by (auto simp del: lang.simps)
    moreover from Cons.prems have "w \<in> lang (Seq LABEL_RE (Cls [(CHR ''.'', CHR ''.'')]))"
      by simp
    then obtain l where "w = l @ ''.''" "label_ok l"
      unfolding lang_iffs label_ok_lang by (auto simp: in_cls_def)
    ultimately show ?case by (intro exI [of _ "l # ls"]) simp
  qed simp
next
  assume "\<exists>ls. ws = map (\<lambda>l. l @ ''.'') ls \<and> list_all label_ok ls"
  then show "set ws \<subseteq> lang (Seq LABEL_RE (Cls [(CHR ''.'', CHR ''.'')]))"
    unfolding subset_iff lang_iffs label_ok_lang
    by (auto simp: list_all_iff in_cls_def) (metis order_refl)
qed

lemma lang_domain_iff:
  "d \<in> lang DOMAIN_RE \<longleftrightarrow>
     (\<exists>ls t. ls \<noteq> [] \<and> list_all label_ok ls \<and> class_run TLD 2 63 t \<and> d = join_with CHR ''.'' (ls @ [t]))"
  unfolding DOMAIN_RE_def lang_Seq [of d] lang_Plus lang_class_run dotted_labels join_with_snoc
  by auto

lemma label_no_dot: "label_ok l \<Longrightarrow> CHR ''.'' \<notin> set l"
  by (auto simp: label_ok_def list_all_iff dest: mid_no_dot)

lemma tld_run_no_dot: "class_run TLD m n t \<Longrightarrow> CHR ''.'' \<notin> set t"
  by (auto simp: class_run_def list_all_iff dest: tld_no_dot)

lemma domain_match_lang: "domain_match d \<longleftrightarrow> d \<in> lang DOMAIN_RE"
proof
  assume m: "domain_match d"
  let ?ls = "split_on CHR ''.'' d"
  have "?ls = butlast ?ls @ [last ?ls]" by simp
  moreover have "d = join_with CHR ''.'' ?ls" by simp
  moreover have "butlast ?ls \<noteq> []"
    using m by (auto simp: domain_match_def Let_def butlast_conv_take)
  ultimately show "d \<in> lang DOMAIN_RE"
    using m unfolding lang_domain_iff domain_match_def Let_def by metis
next
  assume "d \<in> lang DOMAIN_RE"
  then obtain ls t where *: "ls \<noteq> []" "list_all label_ok ls" "class_run TLD 2 63 t"
    and d: "d = join_with CHR ''.'' (ls @ [t])"
    by (auto simp: lang_domain_iff)
  have "split_on CHR ''.'' d = ls @ [t]"
    unfolding d using * by (intro split_join) (auto simp: list_all_iff dest: label_no_dot tld_run_no_dot)
  with * show "domain_match d"
    by (cases ls) (auto simp: domain_match_def)
qed

lemma domain_chars:
  assumes "domain_match d" "c \<in> set d"
  shows "in_cls LABEL_MID c \<or> c = CHR ''.''"
proof -
  from assms obtain ls t where *: "list_all label_ok ls" "class_run TLD 2 63 t"
    and d: "d = join_with CHR ''.'' (ls @ [t])"
    by (auto simp: domain_match_lang lang_domain_iff)
  with assms(2) show ?thesis
    using tld_mid
    by (auto simp: join_with_snoc list_all_iff label_ok_def class_run_def split: if_splits)
qed

lemma domain_last_letter:
  assumes "domain_match d" shows "d \<noteq> []" "in_cls TLD (last d)"
proof -
  from assms obtain ls t where "class_run TLD 2 63 t" and "d = join_with CHR ''.'' (ls @ [t])"
    by (auto simp: domain_match_lang lang_domain_iff)
  moreover from this have "t \<noteq> []" by (auto simp: class_run_def)
  ultimately show "d \<noteq> []" "in_cls TLD (last d)"
    by (auto simp: join_with_snoc class_run_def list_all_iff)
qed

lemma domain_not_ip: "domain_match d \<Longrightarrow> \<not> parses_as_ip d"
proof
  assume m: "domain_match d" and ip: "parses_as_ip d"
  let ?w = "last (split_on CHR ''.'' d)"
  have "octet_ok ?w" using ip
    by (auto simp: parses_as_ip_def Let_def list_all_iff)
  moreover have "class_run TLD 2 63 ?w" using m by (simp add: domain_match_def Let_def)
  ultimately show False
    by (cases ?w) (auto simp: octet_ok_def class_run_def in_cls_def TLD_def char_le_iff)
qed

lemma validate_domain_iff:
  "validate_domain d = Inr u \<longleftrightarrow> length d \<le> 253 \<and> domain_match d"
proof
  assume "length d \<le> 253 \<and> domain_match d"
  then have m: "domain_match d" and len: "length d \<le> 253" by auto
  have no: "c \<notin> set d" if "c \<in> {CHR '':'', CHR ''/'', CHR ''@''}" for c
    using domain_chars [OF m, of c] that by (auto simp: in_cls_def LABEL_MID_def char_le_iff)
  have dot: "\<not> ends_with ''.'' d"
    using domain_last_letter [OF m] by (auto simp: ends_with_iff in_cls_def TLD_def char_le_iff)
  show "validate_domain d = Inr u"
    using no m len dot domain_not_ip [OF m] by (simp add: validate_domain_def MAX_DOMAIN_def)
qed (auto simp: validate_domain_def MAX_DOMAIN_def split: if_splits)

lemma validate_domain_cases: "validate_domain d = Inr () \<or> validate_domain d = err InvalidRequest"
  by (simp add: validate_domain_def)

text \<open>
  C34. The domain check is exactly the documented pattern: \<^verbatim>\<open>validate_domain\<close> accepts the strings of
  at most 253 bytes in the language of \<^verbatim>\<open>DOMAIN_RE\<close> and answers \<^verbatim>\<open>invalid_request\<close> to every other
  string; the separate guards (trailing dot, port, path, user information, IP literal) reject
  nothing more, so no accepted domain is an IP literal or carries such a part.
\<close>

theorem validate_domain_exact:
  "validate_domain d
     = (if length d \<le> 253 \<and> d \<in> lang DOMAIN_RE then Inr () else err InvalidRequest)
   \<and> \<not> (d \<in> lang DOMAIN_RE \<and>
        (parses_as_ip d \<or> ends_with ''.'' d \<or> (\<exists>c \<in> {CHR '':'', CHR ''/'', CHR ''@''}. c \<in> set d)))"
proof -
  have "\<not> ends_with ''.'' d" if "domain_match d"
    using domain_last_letter [OF that] by (auto simp: ends_with_iff in_cls_def TLD_def char_le_iff)
  moreover have "c \<notin> set d" if "domain_match d" "c \<in> {CHR '':'', CHR ''/'', CHR ''@''}" for c
    using domain_chars [OF that(1), of c] that(2) by (auto simp: in_cls_def LABEL_MID_def char_le_iff)
  ultimately show ?thesis
    using validate_domain_iff [of d "()"] validate_domain_cases [of d] domain_not_ip [of d]
    unfolding domain_match_lang [symmetric] by auto
qed

text \<open>
  The token validators decide the patterns of the source: each accepts exactly the language of
  its regular expression and answers its one problem code otherwise.
\<close>

theorem token_validators_exact:
  "validate_id s = (if s \<in> lang ID_RE then Inr () else err InvalidRequest)
   \<and> validate_signature_b64 s = (if s \<in> lang SIG_RE then Inr () else err InvalidSignature)
   \<and> validate_site_account_id s = (if s \<in> lang ACCOUNT_RE then Inr () else err InvalidRequest)
   \<and> validate_challenge_token s = (if s \<in> lang CHALLENGE_RE then Inr () else err InvalidRequest)
   \<and> validate_kid s = (if s \<in> lang KID_RE then Inr () else err InvalidRequest)"
  unfolding ID_RE_def SIG_RE_def ACCOUNT_RE_def CHALLENGE_RE_def KID_RE_def lang_class_run
  by (simp add: id_tok.validate_eq sig_tok.validate_eq account_tok.validate_eq
      challenge_tok.validate_eq kid_tok.validate_eq)

end
