(* ===== verification/Crypto.thy ===== *)
theory Crypto
  imports Jcs Validation
begin

text \<open>
  \<^verbatim>\<open>src/crypto/\<close>: base64url, at-rest encryption and keyed hashing, Ed25519, P-256 \<^verbatim>\<open>did:key\<close>
  identifiers and consent signatures, and the pairwise subject.

  The primitives come from third-party crates and are the fields of the record \<open>crates\<close>, an
  argument of every definition that uses them; \<open>chrono_millis_ok\<close> tells the millisecond timestamps
  the calendar crate can represent. A fallible constructor of a crate returns an
  \<open>option\<close>. Keys and points are carried as their byte encodings. What a property needs of a crate
  is a named hypothesis: the contract \<open>base64_engine\<close> (interpreted on an RFC 4648 implementation in
  \<^verbatim>\<open>Base64_Reference\<close>), \<open>aead_ok\<close>, \<open>ed25519_ok\<close> and \<open>hmac_ok\<close>.
\<close>

record crates =
  b64_encode :: "bytes \<Rightarrow> string"
  b64_decode :: "string \<Rightarrow> bytes option"
  hex_decode :: "string \<Rightarrow> bytes option"
  bs58_encode :: "bytes \<Rightarrow> string"
  bs58_decode :: "string \<Rightarrow> bytes option"
  hmac_sha256 :: "bytes \<Rightarrow> bytes \<Rightarrow> bytes option"
  sha256 :: "bytes \<Rightarrow> bytes"
  aes_encrypt :: "bytes \<Rightarrow> bytes \<Rightarrow> bytes \<Rightarrow> bytes option"
  aes_decrypt :: "bytes \<Rightarrow> bytes \<Rightarrow> bytes \<Rightarrow> bytes option"
  ed_key_from_bytes :: "bytes \<Rightarrow> bytes option"
  ed_sig_from_slice :: "bytes \<Rightarrow> bytes option"
  ed_public :: "bytes \<Rightarrow> bytes"
  ed_sign :: "bytes \<Rightarrow> bytes \<Rightarrow> bytes"
  ed_verify :: "bytes \<Rightarrow> bytes \<Rightarrow> bytes \<Rightarrow> bool"
  p256_from_sec1 :: "bytes \<Rightarrow> bytes option"
  p256_compressed :: "bytes \<Rightarrow> bytes"
  p256_sig_from_slice :: "bytes \<Rightarrow> bytes option"
  p256_verify_prehash :: "bytes \<Rightarrow> bytes \<Rightarrow> bytes \<Rightarrow> bool"
  json_str :: "string \<Rightarrow> string option"
  json_to_vec :: "Value \<Rightarrow> bytes option"
  json_parse :: "string \<Rightarrow> jtext option"
  chrono_millis_ok :: "int \<Rightarrow> bool"

subsection \<open>base64url.rs\<close>

definition base64url_encode :: "crates \<Rightarrow> bytes \<Rightarrow> string" where
  "base64url_encode c bs = b64_encode c bs"

definition is_ascii_alphanumeric :: "char \<Rightarrow> bool" where
  "is_ascii_alphanumeric b \<longleftrightarrow>
     (CHR ''A'' \<le> b \<and> b \<le> CHR ''Z'') \<or> (CHR ''a'' \<le> b \<and> b \<le> CHR ''z'') \<or> (CHR ''0'' \<le> b \<and> b \<le> CHR ''9'')"

definition base64url_decode :: "crates \<Rightarrow> string \<Rightarrow> bytes relay_result" where
  "base64url_decode c value =
     (if list_ex (\<lambda>b. b = CHR ''='') value then err InvalidRequest
      else if \<not> list_all (\<lambda>b. is_ascii_alphanumeric b \<or> b = CHR ''-'' \<or> b = CHR ''_'') value
      then err InvalidRequest
      else ok_or (Problem InvalidRequest) (b64_decode c value))"

subsection \<open>at_rest.rs\<close>

definition NONCE_LEN :: nat where "NONCE_LEN = 12"

definition if_32 :: "bytes option \<Rightarrow> bytes option" where
  "if_32 x = (case x of Some bs \<Rightarrow> if length bs = 32 then Some bs else None | None \<Rightarrow> None)"

definition normalize_32 :: "crates \<Rightarrow> bytes \<Rightarrow> bytes relay_result" where
  "normalize_32 c raw =
     (if length raw = 32 then Inr raw
      else if \<not> utf8_valid raw then err InvalidRequest
      else let text = trim raw in
        (case if_32 (hex_decode c text) of
           Some bs \<Rightarrow> Inr bs
         | None \<Rightarrow> (case if_32 (ok (base64url_decode c text)) of
             Some bs \<Rightarrow> Inr bs
           | None \<Rightarrow> err InvalidRequest)))"

definition AtRestKey_from_bytes :: "crates \<Rightarrow> bytes \<Rightarrow> bytes relay_result" where
  "AtRestKey_from_bytes c raw = normalize_32 c raw"

text \<open>The random nonce of \<^verbatim>\<open>encrypt\<close> is drawn by the caller's random source and passed in.\<close>

definition encrypt :: "crates \<Rightarrow> bytes \<Rightarrow> bytes \<Rightarrow> bytes \<Rightarrow> bytes relay_result" where
  "encrypt c key nonce_bytes plaintext =
     (case aes_encrypt c key nonce_bytes plaintext of
        None \<Rightarrow> err InternalError
      | Some ciphertext \<Rightarrow> Inr (nonce_bytes @ ciphertext))"

definition decrypt :: "crates \<Rightarrow> bytes \<Rightarrow> bytes \<Rightarrow> bytes relay_result" where
  "decrypt c key blob =
     (if length blob \<le> NONCE_LEN then err InternalError
      else ok_or (Problem InternalError)
             (aes_decrypt c key (take NONCE_LEN blob) (drop NONCE_LEN blob)))"

definition keyed_hash :: "crates \<Rightarrow> bytes \<Rightarrow> bytes \<Rightarrow> bytes relay_result" where
  "keyed_hash c pepper data = ok_or (Problem InternalError) (hmac_sha256 c pepper data)"

subsection \<open>ed25519.rs\<close>

definition parse_public_key :: "crates \<Rightarrow> string \<Rightarrow> bytes relay_result" where
  "parse_public_key c encoded =
     and_then (base64url_decode c encoded) (\<lambda>raw.
     and_then (if length raw = 32 then Inr raw
               else if length raw = 44 then Inr (drop (length raw - 32) raw)
               else err InvalidSignature) (\<lambda>key_bytes.
     ok_or (Problem InvalidSignature) (ed_key_from_bytes c key_bytes)))"

definition normalize_secret :: "crates \<Rightarrow> bytes \<Rightarrow> bytes relay_result" where
  "normalize_secret c raw =
     (if length raw = 32 then Inr raw
      else if \<not> utf8_valid raw then err InvalidRequest
      else let text = trim raw in
        (case if_32 (hex_decode c text) of
           Some bs \<Rightarrow> Inr bs
         | None \<Rightarrow> (case if_32 (ok (base64url_decode c text)) of
             Some bs \<Rightarrow> Inr bs
           | None \<Rightarrow> err InvalidRequest)))"

definition parse_signing_key :: "crates \<Rightarrow> bytes \<Rightarrow> bytes relay_result" where
  "parse_signing_key c raw = normalize_secret c raw"

definition public_key_raw :: "crates \<Rightarrow> bytes \<Rightarrow> bytes" where
  "public_key_raw c signing_key = ed_public c signing_key"

definition ed25519_sign :: "crates \<Rightarrow> bytes \<Rightarrow> bytes \<Rightarrow> string" where
  "ed25519_sign c signing_key message = base64url_encode c (ed_sign c signing_key message)"

definition ed25519_verify :: "crates \<Rightarrow> string \<Rightarrow> bytes \<Rightarrow> string \<Rightarrow> unit relay_result" where
  "ed25519_verify c public_key message signature =
     and_then (parse_public_key c public_key) (\<lambda>verifying.
     and_then (base64url_decode c signature) (\<lambda>sig_bytes.
     if length sig_bytes \<noteq> 64 then err InvalidSignature
     else and_then (ok_or (Problem InvalidSignature) (ed_sig_from_slice c sig_bytes)) (\<lambda>sg.
     if ed_verify c verifying message sg then Inr () else err InvalidSignature)))"

subsection \<open>did_key.rs\<close>

definition MULTICODEC_P256 :: bytes where "MULTICODEC_P256 = [CHR 0x80, CHR 0x24]"

definition decode_p256_did_key :: "crates \<Rightarrow> string \<Rightarrow> bytes relay_result" where
  "decode_p256_did_key c key_id =
     (if \<not> starts_with ''did:key:z'' key_id then err InvalidSignature
      else case bs58_decode c (drop (length ''did:key:z'') key_id) of
        None \<Rightarrow> err InvalidSignature
      | Some decoded \<Rightarrow>
          if length decoded \<noteq> 35 \<or> decoded ! 0 \<noteq> MULTICODEC_P256 ! 0 \<or> decoded ! 1 \<noteq> MULTICODEC_P256 ! 1
          then err InvalidSignature
          else if decoded ! 2 \<noteq> CHR 0x02 \<and> decoded ! 2 \<noteq> CHR 0x03 then err InvalidSignature
          else ok_or (Problem InvalidSignature) (p256_from_sec1 c (drop 2 decoded)))"

definition encode_p256_did_key :: "crates \<Rightarrow> bytes \<Rightarrow> string" where
  "encode_p256_did_key c public_key =
     ''did:key:z'' @ bs58_encode c (MULTICODEC_P256 @ p256_compressed c public_key)"

subsection \<open>p256_consent.rs\<close>

definition looks_like_der :: "bytes \<Rightarrow> bool" where
  "looks_like_der bs \<longleftrightarrow> (case bs of [] \<Rightarrow> False | b # _ \<Rightarrow> b = CHR 0x30)"

definition verify_consent_signature :: "crates \<Rightarrow> string \<Rightarrow> bytes \<Rightarrow> string \<Rightarrow> unit relay_result" where
  "verify_consent_signature c key_id canonical signature =
     and_then (decode_p256_did_key c key_id) (\<lambda>verifying.
     and_then (base64url_decode c signature) (\<lambda>raw.
     if length raw \<noteq> 64 then err InvalidSignature
     else if looks_like_der raw then err InvalidSignature
     else and_then (ok_or (Problem InvalidSignature) (p256_sig_from_slice c raw)) (\<lambda>sg.
     if p256_verify_prehash c verifying (sha256 c canonical) sg then Inr () else err InvalidSignature)))"

subsection \<open>subject.rs\<close>

text \<open>\<^verbatim>\<open>(len as u32).to_be_bytes()\<close>: the cast truncates to 32 bits.\<close>

definition be_bytes32 :: "nat \<Rightarrow> bytes" where
  "be_bytes32 n = (let w = (of_nat n :: 32 word) in
     map (\<lambda>i. char_of (unat (drop_bit i w) mod 256)) [24, 16, 8, 0])"

definition subject_input :: "string \<Rightarrow> string \<Rightarrow> bytes" where
  "subject_input domain matrix_user_id =
     SUBJECT_CONTEXT @ be_bytes32 (length domain) @ domain
       @ be_bytes32 (length matrix_user_id) @ matrix_user_id"

definition derive_pairwise_sub :: "crates \<Rightarrow> bytes \<Rightarrow> string \<Rightarrow> string \<Rightarrow> string relay_result" where
  "derive_pairwise_sub c subject_secret domain matrix_user_id =
     (if length subject_secret < 32 then err InternalError
      else case hmac_sha256 c subject_secret (subject_input domain matrix_user_id) of
        None \<Rightarrow> err InternalError
      | Some mac \<Rightarrow>
          let sub = base64url_encode c mac in
          if length sub \<noteq> 43 then err InternalError else Inr sub)"

subsection \<open>Contracts of the crates\<close>

text \<open>The URL-safe, unpadded base64 engine: what the relay relies on.\<close>

locale base64_engine =
  fixes enc :: "bytes \<Rightarrow> string"
    and dec :: "string \<Rightarrow> bytes option"
  assumes dec_enc: "dec (enc b) = Some b"
    and enc_dec: "dec s = Some b \<Longrightarrow> enc b = s"
    and enc_alphabet: "list_all (in_cls TOKEN) (enc b)"
    and enc_length: "length (enc b) = (4 * length b + 2) div 3"
begin

lemma enc_inject: "enc a = enc b \<Longrightarrow> a = b"
  using dec_enc by (metis option.inject)

lemma enc_challenge: "length b = 16 \<Longrightarrow> validate_challenge_token (enc b) = Inr ()"
  using enc_alphabet enc_length by (intro challenge_tok.acceptsI) simp_all

lemma enc_signature: "length b = 64 \<Longrightarrow> validate_signature_b64 (enc b) = Inr ()"
  using enc_alphabet enc_length by (intro sig_tok.acceptsI) simp_all

lemma enc_account: "length b = 32 \<Longrightarrow> validate_site_account_id (enc b) = Inr ()"
  using enc_alphabet enc_length by (intro account_tok.acceptsI) simp_all

end

definition aead_ok :: "crates \<Rightarrow> bytes \<Rightarrow> bool" where
  "aead_ok c key \<longleftrightarrow> (\<forall>n p. length n = 12 \<longrightarrow>
     (\<exists>ct. aes_encrypt c key n p = Some ct \<and> ct \<noteq> [] \<and> aes_decrypt c key n ct = Some p))"

definition hmac_ok :: "crates \<Rightarrow> bool" where
  "hmac_ok c \<longleftrightarrow> (\<forall>k m. \<exists>d. hmac_sha256 c k m = Some d \<and> length d = 32)"

definition ed25519_ok :: "crates \<Rightarrow> bytes \<Rightarrow> bool" where
  "ed25519_ok c key \<longleftrightarrow>
     length (ed_public c key) = 32 \<and> ed_key_from_bytes c (ed_public c key) = Some (ed_public c key) \<and>
     (\<forall>m. length (ed_sign c key m) = 64 \<and> ed_sig_from_slice c (ed_sign c key m) = Some (ed_sign c key m)
        \<and> ed_verify c (ed_public c key) m (ed_sign c key m))"

subsection \<open>base64url\<close>

lemma base64url_decode_guard:
  "list_all (in_cls TOKEN) s \<Longrightarrow> base64url_decode c s = ok_or (Problem InvalidRequest) (b64_decode c s)"
proof -
  assume tok: "list_all (in_cls TOKEN) s"
  have "\<not> list_ex (\<lambda>b. b = CHR ''='') s"
    using tok by (auto simp: list_all_iff list_ex_iff in_cls_def TOKEN_def char_le_iff)
  moreover have "list_all (\<lambda>b. is_ascii_alphanumeric b \<or> b = CHR ''-'' \<or> b = CHR ''_'') s"
    using tok unfolding list_all_iff in_cls_def TOKEN_def is_ascii_alphanumeric_def by auto
  ultimately show ?thesis by (simp add: base64url_decode_def)
qed

lemma base64url_decode_token:
  "base64url_decode c s = Inr b \<Longrightarrow> list_all (in_cls TOKEN) s \<and> b64_decode c s = Some b"
  by (auto simp: base64url_decode_def result_simps list_all_iff in_cls_def TOKEN_def
      is_ascii_alphanumeric_def split: if_splits)

lemma base64url_decode_err: "base64url_decode c s = Inl e \<Longrightarrow> e = Problem InvalidRequest"
  by (auto simp: base64url_decode_def result_simps split: if_splits)

lemma base64url_roundtrip:
  assumes "base64_engine (b64_encode c) (b64_decode c)"
  shows "base64url_decode c (base64url_encode c b) = Inr b"
  using base64_engine.enc_alphabet [OF assms] base64_engine.dec_enc [OF assms]
  by (simp add: base64url_encode_def base64url_decode_guard)

subsection \<open>At-rest encryption and keys\<close>

lemma encrypt_decrypt_exists:
  assumes "aead_ok c key" "length nonce = 12"
  obtains blob where "encrypt c key nonce p = Inr blob" "decrypt c key blob = Inr p"
proof -
  from assms obtain ct where "aes_encrypt c key nonce p = Some ct" "ct \<noteq> []" "aes_decrypt c key nonce ct = Some p"
    unfolding aead_ok_def by blast
  with assms(2) have "encrypt c key nonce p = Inr (nonce @ ct)" "decrypt c key (nonce @ ct) = Inr p"
    by (simp_all add: encrypt_def decrypt_def NONCE_LEN_def)
  then show thesis by (rule that)
qed

lemma decrypt_encrypt:
  assumes "aead_ok c key" "length nonce = 12" "encrypt c key nonce p = Inr blob"
  shows "decrypt c key blob = Inr p"
  using encrypt_decrypt_exists [OF assms(1,2), of p] assms(3) by auto

lemma encrypt_total:
  "aead_ok c key \<Longrightarrow> length nonce = 12 \<Longrightarrow> \<exists>blob. encrypt c key nonce p = Inr blob"
  using encrypt_decrypt_exists by blast

lemma if_32_Some [simp]: "if_32 x = Some b \<longleftrightarrow> x = Some b \<and> length b = 32"
  by (auto simp: if_32_def split: option.splits)

lemma normalize_32_length: "normalize_32 c raw = Inr k \<Longrightarrow> length k = 32"
  by (auto simp: normalize_32_def Let_def split: if_splits option.splits)

lemma normalize_secret_length: "normalize_secret c raw = Inr k \<Longrightarrow> length k = 32"
  by (auto simp: normalize_secret_def Let_def split: if_splits option.splits)

subsection \<open>Signatures\<close>

lemma ed25519_verify_sign:
  assumes "base64_engine (b64_encode c) (b64_decode c)" "ed25519_ok c key"
  shows "ed25519_verify c (base64url_encode c (public_key_raw c key)) m (ed25519_sign c key m) = Inr ()"
  using assms(2)
  by (simp add: ed25519_verify_def ed25519_sign_def parse_public_key_def public_key_raw_def
      base64url_roundtrip [OF assms(1)] ed25519_ok_def)

lemma ed25519_verify_InrD:
  assumes "ed25519_verify c pk m s = Inr u"
  obtains vk raw sg where "parse_public_key c pk = Inr vk" "base64url_decode c s = Inr raw"
    "length raw = 64" "ed_sig_from_slice c raw = Some sg" "ed_verify c vk m sg"
  using assms by (auto simp: ed25519_verify_def result_simps split: if_splits)

lemma decode_did_iff:
  "decode_p256_did_key c key_id = Inr pk \<longleftrightarrow>
     (\<exists>body d. key_id = ''did:key:z'' @ body \<and> bs58_decode c body = Some d \<and> length d = 35
        \<and> take 2 d = [CHR 0x80, CHR 0x24] \<and> (d ! 2 = CHR 0x02 \<or> d ! 2 = CHR 0x03)
        \<and> p256_from_sec1 c (drop 2 d) = Some pk)"
proof -
  have take2: "take 2 d = [CHR 0x80, CHR 0x24] \<longleftrightarrow> d ! 0 = CHR 0x80 \<and> d ! 1 = CHR 0x24"
    if "length d = 35" for d :: bytes
    using that by (cases d; cases "tl d") auto
  show ?thesis
    by (auto simp: decode_p256_did_key_def MULTICODEC_P256_def starts_with_iff result_simps take2
        split: if_splits option.splits)
qed

lemma decode_did_err: "decode_p256_did_key c key_id = Inl e \<Longrightarrow> e = Problem InvalidSignature"
  by (auto simp: decode_p256_did_key_def result_simps split: if_splits option.splits)

lemma verify_consent_iff:
  "verify_consent_signature c key_id m s = Inr u \<longleftrightarrow>
     (\<exists>pk raw sg. decode_p256_did_key c key_id = Inr pk \<and> base64url_decode c s = Inr raw
        \<and> length raw = 64 \<and> hd raw \<noteq> CHR 0x30 \<and> p256_sig_from_slice c raw = Some sg
        \<and> p256_verify_prehash c pk (sha256 c m) sg)"
proof -
  have der: "looks_like_der raw \<longleftrightarrow> hd raw = CHR 0x30" if "length raw = 64" for raw
    using that by (cases raw) (auto simp: looks_like_der_def)
  show ?thesis
    by (auto simp: verify_consent_signature_def result_simps der split: if_splits)
qed

subsection \<open>The pairwise subject\<close>

lemma be_bytes32_length [simp]: "length (be_bytes32 n) = 4"
  by (simp add: be_bytes32_def Let_def)

lemma be_bytes32_eq:
  assumes "n < 2 ^ 32"
  shows "be_bytes32 n = map char_of [n div 16777216, n div 65536 mod 256, n div 256 mod 256, n mod 256]"
proof -
  have u: "unat (of_nat n :: 32 word) = n" using assms by (simp add: unat_of_nat)
  have "unat (drop_bit i (of_nat n :: 32 word)) = n div 2 ^ i" for i
    by (simp only: unat_drop_bit_eq u) (simp only: drop_bit_eq_div)
  moreover have "n div 16777216 mod 256 = n div 16777216" using assms by simp
  ultimately show ?thesis by (simp add: be_bytes32_def Let_def u)
qed

lemma div_digits_inject:
  fixes m n b :: nat
  assumes "m div b = n div b" "m mod b = n mod b"
  shows "m = n"
  using assms by (metis div_mult_mod_eq)

lemma be_bytes32_inject:
  assumes eq: "be_bytes32 m = be_bytes32 n" and small: "m < 2 ^ 32" "n < 2 ^ 32"
  shows "m = n"
proof -
  have inj: "a = b" if "char_of a = (char_of b :: char)" "a < 256" "b < 256" for a b :: nat
  proof -
    from that(1) have "of_char (char_of a :: char) = (of_char (char_of b :: char) :: nat)" by simp
    with that(2,3) show ?thesis by (simp only: of_char_of mod_less)
  qed
  have lt: "m div 16777216 < 256" "n div 16777216 < 256" using small by simp_all
  note e = eq [unfolded be_bytes32_eq [OF small(1)] be_bytes32_eq [OF small(2)] list.map list.inject]
  have d: "m div 16777216 = n div 16777216" by (rule inj) (use e lt in blast)+
  have c: "m div 65536 mod 256 = n div 65536 mod 256" by (rule inj) (use e in simp_all)
  have b: "m div 256 mod 256 = n div 256 mod 256" by (rule inj) (use e in simp_all)
  have a: "m mod 256 = n mod 256" by (rule inj) (use e in simp_all)
  have steps: "k div 65536 div 256 = k div 16777216" "k div 256 div 256 = k div 65536" for k :: nat
    by (simp_all flip: div_mult2_eq)
  have cd: "m div 65536 = n div 65536" by (rule div_digits_inject [of _ 256]) (simp_all only: steps c d)
  have "m div 256 = n div 256" by (rule div_digits_inject [of _ 256]) (simp_all only: steps b cd)
  then show ?thesis by (rule div_digits_inject) (rule a)
qed

lemma subject_input_inject:
  assumes "subject_input d u = subject_input d' u'" "length d < 2 ^ 32" "length d' < 2 ^ 32"
  shows "d = d' \<and> u = u'"
proof -
  from assms(1) have "be_bytes32 (length d) @ d @ be_bytes32 (length u) @ u
      = be_bytes32 (length d') @ d' @ be_bytes32 (length u') @ u'"
    by (simp add: subject_input_def)
  then have l: "be_bytes32 (length d) = be_bytes32 (length d')"
    and r: "d @ be_bytes32 (length u) @ u = d' @ be_bytes32 (length u') @ u'"
    by (simp_all add: append_eq_append_conv)
  from be_bytes32_inject [OF l assms(2,3)] r have "d = d'" and "be_bytes32 (length u) @ u = be_bytes32 (length u') @ u'"
    by (simp_all add: append_eq_append_conv)
  then show ?thesis by (simp add: append_eq_append_conv)
qed

lemma derive_sub_total:
  assumes "base64_engine (b64_encode c) (b64_decode c)" "hmac_ok c" "32 \<le> length secret"
  obtains mac where "hmac_sha256 c secret (subject_input d u) = Some mac" "length mac = 32"
    "derive_pairwise_sub c secret d u = Inr (base64url_encode c mac)"
proof -
  from assms(2) obtain mac where m: "hmac_sha256 c secret (subject_input d u) = Some mac" "length mac = 32"
    unfolding hmac_ok_def by blast
  with base64_engine.enc_length [OF assms(1), of mac] assms(3) have
    "derive_pairwise_sub c secret d u = Inr (base64url_encode c mac)"
    by (simp add: derive_pairwise_sub_def base64url_encode_def)
  with m that show thesis by blast
qed

lemma derive_sub_length: "derive_pairwise_sub c secret d u = Inr sub \<Longrightarrow> length sub = 43 \<and> 32 \<le> length secret"
  by (auto simp: derive_pairwise_sub_def Let_def split: if_splits option.splits)

end
