(* ===== verification/Base64_Reference.thy ===== *)
theory Base64_Reference
  imports Crypto
begin

text \<open>
  RFC 4648 base64url without padding, with the canonical-bits check of the engine's default
  configuration: an implementation that meets the contract \<open>base64_engine\<close>, and a concrete value of
  the record \<open>crates\<close> built on it, at which the witnesses evaluate the model.
\<close>

subsection \<open>Groups of six bits\<close>

fun enc6 :: "nat list \<Rightarrow> nat list" where
  "enc6 [] = []"
| "enc6 [a] = [a div 4, (a mod 4) * 16]"
| "enc6 [a, b] = [a div 4, (a mod 4) * 16 + b div 16, (b mod 16) * 4]"
| "enc6 (a # b # c # r) =
     [a div 4, (a mod 4) * 16 + b div 16, (b mod 16) * 4 + c div 64, c mod 64] @ enc6 r"

fun dec6 :: "nat list \<Rightarrow> nat list option" where
  "dec6 [] = Some []"
| "dec6 [w] = None"
| "dec6 [w, x] = (if x mod 16 = 0 then Some [w * 4 + x div 16] else None)"
| "dec6 [w, x, y] =
     (if y mod 4 = 0 then Some [w * 4 + x div 16, (x mod 16) * 16 + y div 4] else None)"
| "dec6 (w # x # y # z # r) =
     map_option ((@) [w * 4 + x div 16, (x mod 16) * 16 + y div 4, (y mod 4) * 64 + z]) (dec6 r)"

lemma enc6_less: "\<forall>a \<in> set bs. a < 256 \<Longrightarrow> x \<in> set (enc6 bs) \<Longrightarrow> x < 64"
  by (induction bs rule: enc6.induct) auto

lemma dec6_enc6: "\<forall>a \<in> set bs. a < 256 \<Longrightarrow> dec6 (enc6 bs) = Some bs"
  by (induction bs rule: enc6.induct) auto

lemma enc6_length: "length (enc6 bs) = (4 * length bs + 2) div 3"
  by (induction bs rule: enc6.induct) auto

lemma dec6_less: "\<forall>a \<in> set s. a < 64 \<Longrightarrow> dec6 s = Some bs \<Longrightarrow> b \<in> set bs \<Longrightarrow> b < 256"
  by (induction s arbitrary: bs rule: dec6.induct) (auto split: if_splits)

lemma enc6_dec6: "\<forall>a \<in> set s. a < 64 \<Longrightarrow> dec6 s = Some bs \<Longrightarrow> enc6 bs = s"
proof (induction s arbitrary: bs rule: dec6.induct)
  case (5 w x y z r)
  then obtain bs' where "dec6 r = Some bs'" "enc6 bs' = r"
    and "bs = [w * 4 + x div 16, (x mod 16) * 16 + y div 4, (y mod 4) * 64 + z] @ bs'"
    by auto
  with 5 show ?case by auto
qed (auto split: if_splits)

subsection \<open>The alphabet\<close>

definition six_char :: "nat \<Rightarrow> char" where
  "six_char n = (if n < 26 then char_of (65 + n) else if n < 52 then char_of (71 + n)
     else if n < 62 then char_of (n - 4) else if n = 62 then CHR ''-'' else CHR ''_'')"

definition char_six :: "char \<Rightarrow> nat option" where
  "char_six c = (let n = of_char c in
     if 65 \<le> n \<and> n \<le> 90 then Some (n - 65) else if 97 \<le> n \<and> n \<le> 122 then Some (n - 71)
     else if 48 \<le> n \<and> n \<le> 57 then Some (n + 4) else if n = 45 then Some 62
     else if n = 95 then Some 63 else None)"

lemma char_six_six_char: "n < 64 \<Longrightarrow> char_six (six_char n) = Some n"
  by (auto simp: char_six_def six_char_def Let_def)

lemma six_char_token: "n < 64 \<Longrightarrow> in_cls TOKEN (six_char n)"
  by (auto simp: six_char_def in_cls_def TOKEN_def char_le_iff)

lemma char_six_Some: "char_six c = Some n \<Longrightarrow> n < 64 \<and> six_char n = c"
proof -
  assume *: "char_six c = Some n"
  have "c = CHR ''-''" if "of_char c = (45::nat)"
    using that of_char_eq_iff [where 'a = nat, of c "CHR ''-''"] by simp
  moreover have "c = CHR ''_''" if "of_char c = (95::nat)"
    using that of_char_eq_iff [where 'a = nat, of c "CHR ''_''"] by simp
  ultimately show ?thesis using *
    by (auto simp: char_six_def six_char_def Let_def split: if_splits)
qed

definition rfc_encode :: "bytes \<Rightarrow> string" where
  "rfc_encode bs = map six_char (enc6 (map of_char bs))"

definition rfc_decode :: "string \<Rightarrow> bytes option" where
  "rfc_decode s = (if list_all (\<lambda>c. char_six c \<noteq> None) s
     then map_option (map char_of) (dec6 (map (the \<circ> char_six) s)) else None)"

lemma map_char_of_nat [simp]: "map (char_of \<circ> (of_char :: char \<Rightarrow> nat)) s = s"
  by (induction s) auto

lemma rfc_decode_encode: "rfc_decode (rfc_encode bs) = Some bs"
proof -
  have b: "\<forall>a \<in> set (map of_char bs). a < (256::nat)" by auto
  then have sixes: "map (the \<circ> char_six) (map six_char (enc6 (map of_char bs))) = enc6 (map of_char bs)"
    using enc6_less [OF b] by (auto simp: char_six_six_char intro: map_idI)
  have "list_all (\<lambda>c. char_six c \<noteq> None) (map six_char (enc6 (map of_char bs)))"
    using enc6_less [OF b] by (auto simp: list_all_iff char_six_six_char)
  then show ?thesis
    unfolding rfc_decode_def rfc_encode_def sixes by (simp add: dec6_enc6 [OF b])
qed

lemma rfc_encode_decode:
  assumes "rfc_decode s = Some b"
  shows "rfc_encode b = s"
proof -
  let ?n = "map (the \<circ> char_six) s"
  from assms have ok: "\<forall>c \<in> set s. char_six c \<noteq> None"
    and "\<exists>ns. dec6 ?n = Some ns \<and> b = map char_of ns"
    by (auto simp: rfc_decode_def list_all_iff split: if_splits)
  then obtain ns where ns: "dec6 ?n = Some ns" "b = map char_of ns" by blast
  have less: "\<forall>a \<in> set ?n. a < 64" using ok char_six_Some by fastforce
  have "map of_char b = ns"
    using dec6_less [OF less ns(1)] ns(2) by (auto simp: comp_def intro: map_idI)
  moreover have "map six_char ?n = s"
    using ok char_six_Some by (auto intro!: map_idI)
  ultimately show ?thesis
    using enc6_dec6 [OF less ns(1)] by (simp add: rfc_encode_def)
qed

interpretation rfc: base64_engine rfc_encode rfc_decode
proof
  fix b s
  show "rfc_decode (rfc_encode b) = Some b" by (rule rfc_decode_encode)
  show "rfc_decode s = Some b \<Longrightarrow> rfc_encode b = s" by (rule rfc_encode_decode)
  show "list_all (in_cls TOKEN) (rfc_encode b)"
    using enc6_less [of "map of_char b"] by (auto simp: rfc_encode_def list_all_iff six_char_token)
  show "length (rfc_encode b) = (4 * length b + 2) div 3"
    by (simp add: rfc_encode_def enc6_length)
qed

subsection \<open>A concrete instance of the crates\<close>

text \<open>
  Simple functions with the documented shapes: a 32-byte digest, a tagged cipher, 64-byte
  signatures checked by recomputation, canonical JSON text. The text parser is set per witness.
\<close>

definition pad32 :: "bytes \<Rightarrow> bytes" where
  "pad32 m = take 32 (rev m @ replicate 32 CHR 0x00)"

definition pad64 :: "bytes \<Rightarrow> bytes" where
  "pad64 m = take 64 (CHR ''s'' # rev m @ replicate 64 CHR 0x00)"

definition demo_crates :: crates where
  "demo_crates = \<lparr>
     b64_encode = rfc_encode, b64_decode = rfc_decode, hex_decode = (\<lambda>_. None),
     bs58_encode = (\<lambda>b. b), bs58_decode = Some,
     hmac_sha256 = (\<lambda>k m. Some (pad32 m)), sha256 = pad32,
     aes_encrypt = (\<lambda>k n p. Some (CHR ''#'' # p)),
     aes_decrypt = (\<lambda>k n ct. case ct of [] \<Rightarrow> None | t # p \<Rightarrow> if t = CHR ''#'' then Some p else None),
     ed_key_from_bytes = Some, ed_sig_from_slice = (\<lambda>b. if length b = 64 then Some b else None),
     ed_public = pad32, ed_sign = (\<lambda>k m. pad64 m), ed_verify = (\<lambda>p m s. s = pad64 m),
     p256_from_sec1 = Some, p256_compressed = (\<lambda>k. k),
     p256_sig_from_slice = (\<lambda>b. if length b = 64 then Some b else None),
     p256_verify_prehash = (\<lambda>p d s. s = pad64 d),
     json_str = quoted, json_to_vec = (\<lambda>v. ok (write_value quoted v)), json_parse = (\<lambda>_. None),
     chrono_millis_ok = in_i64\<rparr>"

lemma pad32_length [simp]: "length (pad32 m) = 32" and pad64_length [simp]: "length (pad64 m) = 64"
  by (simp_all add: pad32_def pad64_def)

lemma demo_base64: "base64_engine (b64_encode demo_crates) (b64_decode demo_crates)"
  by (simp add: demo_crates_def rfc.base64_engine_axioms)

lemma demo_aead: "aead_ok demo_crates key"
  by (simp add: aead_ok_def demo_crates_def)

lemma demo_hmac: "hmac_ok demo_crates"
  by (simp add: hmac_ok_def demo_crates_def)

lemma demo_ed25519: "ed25519_ok demo_crates key"
  by (simp add: ed25519_ok_def demo_crates_def)

lemma demo_literal: "literal_ok (json_str demo_crates)"
  by (simp add: demo_crates_def literal_ok_quoted)

end
