(* ===== verification/Crypto_Properties.thy ===== *)
theory Crypto_Properties
  imports Base64_Reference
begin

text \<open>
  The properties of \<^verbatim>\<open>src/crypto/\<close>, each with a witness at the concrete crates of
  \<^verbatim>\<open>Base64_Reference\<close>.
\<close>

text \<open>
  At-rest encryption round trip: with a sound AEAD, every plaintext encrypts under every 12-byte
  nonce, decrypts back to itself under the same key, and a blob no longer than the nonce is
  refused with \<^verbatim>\<open>internal_error\<close> before the cipher is called.
\<close>

theorem at_rest_roundtrip:
  assumes "aead_ok c key" "length nonce = 12"
  shows "(\<exists>blob. encrypt c key nonce p = Inr blob \<and> decrypt c key blob = Inr p)
    \<and> (length short \<le> 12 \<longrightarrow> decrypt c key short = err InternalError)"
proof
  show "\<exists>blob. encrypt c key nonce p = Inr blob \<and> decrypt c key blob = Inr p"
    using encrypt_decrypt_exists [OF assms, of p] by metis
qed (simp add: decrypt_def NONCE_LEN_def)

theorem at_rest_roundtrip_witness:
  "(\<exists>blob. encrypt demo_crates ''key'' (replicate 12 CHR 0x01) ''hidden'' = Inr blob
      \<and> decrypt demo_crates ''key'' blob = Inr ''hidden'')
   \<and> decrypt demo_crates ''key'' ''short'' = err InternalError"
  using at_rest_roundtrip [OF demo_aead, of "replicate 12 CHR 0x01" "''key''" "''hidden''" "''short''"]
  by simp

text \<open>
  A relay signature verifies: what \<^verbatim>\<open>ed25519::sign\<close> produces under a signing key is accepted by
  \<^verbatim>\<open>ed25519::verify\<close> under the base64url form of that key's public part, which is the form the JWKS
  document publishes, and has exactly the 86 characters the signature pattern asks for.
\<close>

theorem ed25519_sign_verifies:
  assumes "base64_engine (b64_encode c) (b64_decode c)" "ed25519_ok c key"
  shows "ed25519_verify c (base64url_encode c (public_key_raw c key)) m (ed25519_sign c key m) = Inr ()
    \<and> validate_signature_b64 (ed25519_sign c key m) = Inr ()"
  using ed25519_verify_sign [OF assms] base64_engine.enc_signature [OF assms(1)] assms(2)
  by (simp add: ed25519_sign_def base64url_encode_def ed25519_ok_def)

theorem ed25519_sign_verifies_witness:
  "ed25519_verify demo_crates (base64url_encode demo_crates (public_key_raw demo_crates ''seed'')) ''msg''
     (ed25519_sign demo_crates ''seed'' ''msg'') = Inr ()"
  by (rule ed25519_sign_verifies [THEN conjunct1, OF demo_base64 demo_ed25519])

text \<open>
  Consent keys: encoding a P-256 key as \<^verbatim>\<open>did:key\<close> and decoding it returns the key, and decoding
  succeeds only on \<^verbatim>\<open>did:key:z\<close> followed by base58 of 35 bytes: the two P-256 multicodec bytes, a
  compressed-point tag 2 or 3, and a point the curve library accepts. Every other identifier
  (another DID method, codec or length) is \<^verbatim>\<open>invalid_signature\<close>.
\<close>

theorem did_key_exact:
  assumes "bs58_decode c (bs58_encode c (MULTICODEC_P256 @ p256_compressed c key))
             = Some (MULTICODEC_P256 @ p256_compressed c key)"
    and "length (p256_compressed c key) = 33" "hd (p256_compressed c key) \<in> {CHR 0x02, CHR 0x03}"
    and "p256_from_sec1 c (p256_compressed c key) = Some key"
  shows "decode_p256_did_key c (encode_p256_did_key c key) = Inr key
    \<and> (\<forall>key_id. decode_p256_did_key c key_id =
         (case (if starts_with ''did:key:z'' key_id then bs58_decode c (drop 9 key_id) else None) of
            Some d \<Rightarrow> if length d = 35 \<and> take 2 d = [CHR 0x80, CHR 0x24] \<and> d ! 2 \<in> {CHR 0x02, CHR 0x03}
                      then ok_or (Problem InvalidSignature) (p256_from_sec1 c (drop 2 d))
                      else err InvalidSignature
          | None \<Rightarrow> err InvalidSignature))"
proof
  have nth2: "(MULTICODEC_P256 @ p256_compressed c key) ! 2 = hd (p256_compressed c key)"
    using assms(2) by (cases "p256_compressed c key") (auto simp: MULTICODEC_P256_def)
  show "decode_p256_did_key c (encode_p256_did_key c key) = Inr key"
    unfolding decode_did_iff encode_p256_did_key_def
    using assms nth2 by (auto simp: MULTICODEC_P256_def)
  have len9: "length ''did:key:z'' = 9" by simp
  have take2: "take 2 d = [CHR 0x80, CHR 0x24] \<longleftrightarrow> d ! 0 = CHR 0x80 \<and> d ! 1 = CHR 0x24"
    if "length d = 35" for d :: bytes
    using that by (cases d; cases "tl d") auto
  show "\<forall>key_id. decode_p256_did_key c key_id =
         (case (if starts_with ''did:key:z'' key_id then bs58_decode c (drop 9 key_id) else None) of
            Some d \<Rightarrow> if length d = 35 \<and> take 2 d = [CHR 0x80, CHR 0x24] \<and> d ! 2 \<in> {CHR 0x02, CHR 0x03}
                      then ok_or (Problem InvalidSignature) (p256_from_sec1 c (drop 2 d))
                      else err InvalidSignature
          | None \<Rightarrow> err InvalidSignature)"
    unfolding decode_p256_did_key_def MULTICODEC_P256_def len9
    by (auto simp: take2 split: option.splits)
qed

theorem did_key_exact_witness:
  "decode_p256_did_key demo_crates (encode_p256_did_key demo_crates (CHR 0x02 # replicate 32 CHR 0x07))
     = Inr (CHR 0x02 # replicate 32 CHR 0x07)"
  by (rule did_key_exact [THEN conjunct1]) (simp_all add: demo_crates_def)

text \<open>
  C37. Raw consent signatures: for a decodable key and a 64-byte \<^verbatim>\<open>r || s\<close> value that the curve library
  accepts for the digest, the relay accepts the signature exactly when its first byte is not 0x30.
  The \<^verbatim>\<open>looks_like_der\<close> guard therefore refuses every valid raw signature whose \<^verbatim>\<open>r\<close> starts with 0x30.
\<close>

theorem raw_consent_signature_accepted_iff:
  assumes "base64_engine (b64_encode c) (b64_decode c)"
    and "decode_p256_did_key c key_id = Inr pk" "length raw = 64"
    and "p256_sig_from_slice c raw = Some sg" "p256_verify_prehash c pk (sha256 c m) sg"
  shows "verify_consent_signature c key_id m (base64url_encode c raw)
           = (if hd raw = CHR 0x30 then err InvalidSignature else Inr ())"
proof -
  have "looks_like_der raw \<longleftrightarrow> hd raw = CHR 0x30"
    using assms(3) by (cases raw) (auto simp: looks_like_der_def)
  then show ?thesis
    using assms by (simp add: verify_consent_signature_def base64url_roundtrip)
qed

theorem raw_consent_signature_accepted_iff_witness:
  "verify_consent_signature
     (demo_crates\<lparr>p256_verify_prehash := (\<lambda>_ _ _. True)\<rparr>)
     (encode_p256_did_key demo_crates (CHR 0x02 # replicate 32 CHR 0x07)) ''m''
     (base64url_encode demo_crates (CHR 0x30 # replicate 63 CHR 0x01)) = err InvalidSignature"
  using raw_consent_signature_accepted_iff [of "demo_crates\<lparr>p256_verify_prehash := (\<lambda>_ _ _. True)\<rparr>"
      "encode_p256_did_key demo_crates (CHR 0x02 # replicate 32 CHR 0x07)"
      "CHR 0x02 # replicate 32 CHR 0x07" "CHR 0x30 # replicate 63 CHR 0x01" _ "''m''"] demo_base64
  by (simp add: demo_crates_def base64url_encode_def encode_p256_did_key_def decode_p256_did_key_def
      MULTICODEC_P256_def starts_with_def)

text \<open>
  C36. The pairwise subject: with a subject secret of at least 32 bytes a subject is always derived,
  it has 43 characters and is a valid site account identifier; the text fed to the MAC determines
  the domain and the user; and two subjects are equal exactly when the MAC agrees on the two texts,
  so different (domain, user) pairs share a subject only on a collision of HMAC-SHA256.
\<close>

theorem pairwise_subject_sound:
  assumes "base64_engine (b64_encode c) (b64_decode c)" "hmac_ok c" "32 \<le> length secret"
    and "length d < 2 ^ 32" "length d' < 2 ^ 32"
  shows "\<exists>sub sub'. derive_pairwise_sub c secret d u = Inr sub \<and> derive_pairwise_sub c secret d' u' = Inr sub'
      \<and> length sub = 43 \<and> validate_site_account_id sub = Inr ()
      \<and> (subject_input d u = subject_input d' u' \<longleftrightarrow> d = d' \<and> u = u')
      \<and> (sub = sub' \<longleftrightarrow> hmac_sha256 c secret (subject_input d u) = hmac_sha256 c secret (subject_input d' u'))"
proof -
  obtain mac where m: "hmac_sha256 c secret (subject_input d u) = Some mac" "length mac = 32"
    "derive_pairwise_sub c secret d u = Inr (base64url_encode c mac)"
    using derive_sub_total [OF assms(1-3)] by metis
  obtain mac' where m': "hmac_sha256 c secret (subject_input d' u') = Some mac'" "length mac' = 32"
    "derive_pairwise_sub c secret d' u' = Inr (base64url_encode c mac')"
    using derive_sub_total [OF assms(1-3)] by metis
  have "base64url_encode c mac = base64url_encode c mac' \<longleftrightarrow> mac = mac'"
    using base64_engine.enc_inject [OF assms(1)] by (auto simp: base64url_encode_def)
  moreover have "subject_input d u = subject_input d' u' \<longleftrightarrow> d = d' \<and> u = u'"
    using subject_input_inject [OF _ assms(4,5)] by auto
  moreover have "validate_site_account_id (base64url_encode c mac) = Inr ()"
    using base64_engine.enc_account [OF assms(1) m(2)] by (simp add: base64url_encode_def)
  moreover have "length (base64url_encode c mac) = 43" using derive_sub_length [OF m(3)] by simp
  ultimately show ?thesis using m m' by auto
qed

theorem pairwise_subject_sound_witness:
  "\<exists>sub sub'. derive_pairwise_sub demo_crates (replicate 32 CHR 0x05) ''a'' ''u'' = Inr sub \<and> length sub = 43
      \<and> validate_site_account_id sub = Inr ()
      \<and> derive_pairwise_sub demo_crates (replicate 32 CHR 0x05) ''b'' ''u'' = Inr sub' \<and> sub \<noteq> sub'"
proof -
  have "hmac_sha256 demo_crates k (subject_input ''a'' ''u'') \<noteq> hmac_sha256 demo_crates k (subject_input ''b'' ''u'')"
    for k by (simp add: demo_crates_def subject_input_def be_bytes32_eq pad32_def)
  then show ?thesis
    using pairwise_subject_sound [OF demo_base64 demo_hmac, of "replicate 32 CHR 0x05" "''a''" "''b''" "''u''" "''u''"]
    by auto
qed

end
