(* ===== verification/Signed_Document.thy ===== *)
theory Signed_Document
  imports Crypto
begin

text \<open>
  The contract between \<^verbatim>\<open>src/crypto/jcs.rs\<close> and the documents of \<^verbatim>\<open>src/protocol/\<close>: every signed
  document is a flat record of strings, booleans and integers, listed as fields and handed to
  \<open>canonicalize_object\<close>. The locale \<open>signed_document\<close> states what such a list of fields has to
  promise (distinct names, flat values, no signed content lost) and derives, once, that canonical
  bytes always exist and determine the signed content.
\<close>

subsection \<open>Flat values\<close>

fun flat_value :: "Value \<Rightarrow> bool" where
  "flat_value Null \<longleftrightarrow> True"
| "flat_value (Bool _) \<longleftrightarrow> True"
| "flat_value (Number (PosInt i)) \<longleftrightarrow> 0 \<le> i"
| "flat_value (Number (NegInt i)) \<longleftrightarrow> i < 0"
| "flat_value (String _) \<longleftrightarrow> True"
| "flat_value _ \<longleftrightarrow> False"

lemma flat_json_int [simp]: "flat_value (json_int i)"
  by (simp add: json_int_def)

lemma json_int_inject [simp]: "json_int i = json_int j \<longleftrightarrow> i = j"
  by (auto simp: json_int_def)

lemma flat_wf: "flat_value v \<Longrightarrow> wf_value v"
  by (cases v rule: flat_value.cases) simp_all

definition literal_total :: "(string \<Rightarrow> string option) \<Rightarrow> bool" where
  "literal_total js \<longleftrightarrow> (\<forall>s. js s \<noteq> None)"

lemma flat_writes:
  assumes js: "literal_total js" and v: "flat_value v"
  shows "\<exists>t. write_value js v = Inr t"
proof (cases v)
  case (Bool b)
  then show ?thesis by (cases b) simp_all
next
  case (Number n)
  with v show ?thesis by (cases n) simp_all
next
  case (String s)
  obtain t where "js s = Some t" using js by (auto simp: literal_total_def)
  with String show ?thesis by (simp add: write_string_def)
qed (use v in simp_all)

lemma collect_total: "\<forall>x \<in> set xs. \<exists>t. x = Inr t \<Longrightarrow> \<exists>ts. collect xs = Inr ts"
  by (induction xs) (force simp: result_simps)+

lemma write_object_flat:
  assumes js: "literal_total js" and flat: "\<And>k v. (k, v) \<in> set fs \<Longrightarrow> flat_value v"
  shows "\<exists>s. write_value js (Object fs) = Inr s"
proof -
  have "\<exists>t. write_member js e = Inr t" if "e \<in> set (sort_key fst (write_members js fs))" for e
  proof -
    from that obtain k v where e: "e = (k, write_value js v)" and kv: "(k, v) \<in> set fs"
      by (auto simp: write_members_map)
    obtain t where "write_value js v = Inr t" using flat_writes [OF js flat [OF kv]] by blast
    moreover obtain q where "js k = Some q" using js by (auto simp: literal_total_def)
    ultimately show ?thesis by (simp add: e write_member_def write_string_def)
  qed
  then obtain ts where "collect (map (write_member js) (sort_key fst (write_members js fs))) = Inr ts"
    using collect_total [of "map (write_member js) (sort_key fst (write_members js fs))"] by auto
  then show ?thesis by simp
qed

lemma canonicalize_flat_total:
  assumes js: "literal_total js" and names: "distinct (map fst fs)"
    and flat: "\<And>k v. (k, v) \<in> set fs \<Longrightarrow> flat_value v"
  shows "\<exists>s. canonicalize_object js fs = Inr s"
proof -
  have "set (btree_of fs) = set fs" using names by (metis btree_of_mset set_mset_mset)
  then have "\<exists>s. write_value js (Object (btree_of fs)) = Inr s" using flat by (intro write_object_flat [OF js]) auto
  with names show ?thesis by (auto simp: canonicalize_object_eq)
qed

lemma collect_Inl: "collect xs = Inl e \<Longrightarrow> \<exists>x \<in> set xs. x = Inl e"
  by (induction xs) (auto simp: result_simps)

lemma write_value_err: "write_value js v = Inl e \<Longrightarrow> e = Problem InvalidRequest"
proof (induction v arbitrary: e)
  case (Bool b)
  then show ?case by (cases b) simp_all
next
  case (Number n)
  then show ?case by (cases n) (auto split: if_splits)
next
  case (String s)
  then show ?case by (simp add: write_string_def result_simps)
next
  case (Array vs)
  then show ?case by (auto simp: result_simps write_items_map dest!: collect_Inl)
next
  case (Object m)
  then obtain x where "x \<in> set (write_members js m)" "write_member js x = Inl e"
    by (auto simp: result_simps dest!: collect_Inl)
  with Object.IH show ?case
    by (auto simp: write_members_map write_member_def write_string_def result_simps snds.simps)
qed simp

lemma canonicalize_object_err: "canonicalize_object js fs = Inl e \<Longrightarrow> e = Problem InvalidRequest"
  using write_value_err by (simp only: canonicalize_object_eq split: if_splits) auto

lemma map_of_mset_eq:
  assumes "mset fs = mset gs" "distinct (map fst fs)"
  shows "map_of fs = map_of gs"
proof -
  have "distinct (map fst gs)" using assms by (metis mset_eq_imp_distinct_iff mset_map)
  with assms show ?thesis by (metis map_of_inject_set set_mset_mset)
qed

subsection \<open>The contract\<close>

locale signed_document =
  fixes fields :: "'a \<Rightarrow> (string \<times> Value) list"
    and content :: "'a \<Rightarrow> 'b"
  assumes names: "distinct (map fst (fields d))"
    and flat: "(k, v) \<in> set (fields d) \<Longrightarrow> flat_value v"
    and complete: "map_of (fields d) = map_of (fields d') \<Longrightarrow> content d = content d'"
begin

lemma canonical_inject:
  assumes "literal_ok js" "canonicalize_object js (fields d) = Inr s" "canonicalize_object js (fields d') = Inr s"
  shows "content d = content d'"
proof (rule complete)
  have "\<forall>(k, v) \<in> set (fields d) \<union> set (fields d'). wf_value v" by (auto intro: flat_wf flat)
  from canonicalize_object_inj [OF assms(1) this assms(2,3)] names show "map_of (fields d) = map_of (fields d')"
    by (rule map_of_mset_eq)
qed

lemma canonical_exists:
  assumes "literal_total js"
  shows "\<exists>s. canonicalize_object js (fields d) = Inr s"
  using assms names flat by (rule canonicalize_flat_total)

end

end
