(* ===== verification/Matrix_Message.thy ===== *)
theory Matrix_Message
  imports Signed_Document
begin

text \<open>
  \<^verbatim>\<open>src/protocol/matrix.rs\<close>: the five messages of the Matrix channel, their JSON form (the tag
  \<^verbatim>\<open>kind\<close> and the renamed fields, in declaration order), the envelope (prefix, base64url, size
  limits), the checks of outbound and inbound messages, and the bytes a consent signs.
\<close>

subsection \<open>Messages\<close>

text \<open>
  Arguments in declaration order: session id, nonce, \<^verbatim>\<open>sentAt\<close>, then the domain (request); site
  name, domain, requested display name, challenge, \<^verbatim>\<open>expiresAt\<close> (challenge); approved, display
  name, challenge, key id, signature (consent); success, site account id, reason (result); site
  account id, reason (revocation).
\<close>

datatype MatrixMessage =
    Request string string int string
  | Challenge string string int string string string string int
  | Consent string string int bool "string option" string string string
  | Result string string int bool "string option" "string option"
  | Revocation string string int string "string option"

definition json_opt :: "string option \<Rightarrow> Value" where
  "json_opt x = (case x of None \<Rightarrow> Null | Some s \<Rightarrow> String s)"

text \<open>The fields the derived \<^verbatim>\<open>Serialize\<close> writes, after the tag.\<close>

fun message_fields :: "MatrixMessage \<Rightarrow> (string \<times> Value) list" where
  "message_fields (Request s n t d) =
     [(''kind'', String ''request''), (''sessionId'', String s), (''nonce'', String n),
      (''sentAt'', json_int t), (''domain'', String d)]"
| "message_fields (Challenge s n t site d name ch e) =
     [(''kind'', String ''challenge''), (''sessionId'', String s), (''nonce'', String n),
      (''sentAt'', json_int t), (''siteName'', String site), (''domain'', String d),
      (''requestedDisplayName'', String name), (''challenge'', String ch), (''expiresAt'', json_int e)]"
| "message_fields (Consent s n t a name ch k sg) =
     [(''kind'', String ''consent''), (''sessionId'', String s), (''nonce'', String n),
      (''sentAt'', json_int t), (''approved'', Bool a), (''displayName'', json_opt name),
      (''challenge'', String ch), (''keyId'', String k), (''signature'', String sg)]"
| "message_fields (Result s n t succ account r) =
     [(''kind'', String ''result''), (''sessionId'', String s), (''nonce'', String n),
      (''sentAt'', json_int t), (''success'', Bool succ), (''siteAccountId'', json_opt account),
      (''reason'', json_opt r)]"
| "message_fields (Revocation s n t account r) =
     [(''kind'', String ''revocation''), (''sessionId'', String s), (''nonce'', String n),
      (''sentAt'', json_int t), (''siteAccountId'', String account), (''reason'', json_opt r)]"

text \<open>
  The derived \<^verbatim>\<open>Deserialize\<close> of an internally tagged enum: the tag is the entry \<^verbatim>\<open>kind\<close> of an object
  (or the first element of an array), the rest is decoded as the struct of that variant.
\<close>

definition de_request :: "Value \<Rightarrow> MatrixMessage option" where
  "de_request body = do {
     fs \<leftarrow> struct_fields [''sessionId'', ''nonce'', ''sentAt'', ''domain''] body;
     s \<leftarrow> field de_string (fs ! 0); n \<leftarrow> field de_string (fs ! 1);
     t \<leftarrow> field de_i64 (fs ! 2); d \<leftarrow> field de_string (fs ! 3);
     Some (Request s n t d) }"

definition de_challenge :: "Value \<Rightarrow> MatrixMessage option" where
  "de_challenge body = do {
     fs \<leftarrow> struct_fields [''sessionId'', ''nonce'', ''sentAt'', ''siteName'', ''domain'',
       ''requestedDisplayName'', ''challenge'', ''expiresAt''] body;
     s \<leftarrow> field de_string (fs ! 0); n \<leftarrow> field de_string (fs ! 1);
     t \<leftarrow> field de_i64 (fs ! 2); site \<leftarrow> field de_string (fs ! 3);
     d \<leftarrow> field de_string (fs ! 4); name \<leftarrow> field de_string (fs ! 5);
     ch \<leftarrow> field de_string (fs ! 6); e \<leftarrow> field de_i64 (fs ! 7);
     Some (Challenge s n t site d name ch e) }"

definition de_consent :: "Value \<Rightarrow> MatrixMessage option" where
  "de_consent body = do {
     fs \<leftarrow> struct_fields [''sessionId'', ''nonce'', ''sentAt'', ''approved'', ''displayName'',
       ''challenge'', ''keyId'', ''signature''] body;
     s \<leftarrow> field de_string (fs ! 0); n \<leftarrow> field de_string (fs ! 1);
     t \<leftarrow> field de_i64 (fs ! 2); a \<leftarrow> field de_bool (fs ! 3);
     name \<leftarrow> opt_field de_opt_string (fs ! 4); ch \<leftarrow> field de_string (fs ! 5);
     k \<leftarrow> field de_string (fs ! 6); sg \<leftarrow> field de_string (fs ! 7);
     Some (Consent s n t a name ch k sg) }"

definition de_result :: "Value \<Rightarrow> MatrixMessage option" where
  "de_result body = do {
     fs \<leftarrow> struct_fields [''sessionId'', ''nonce'', ''sentAt'', ''success'', ''siteAccountId'', ''reason''] body;
     s \<leftarrow> field de_string (fs ! 0); n \<leftarrow> field de_string (fs ! 1);
     t \<leftarrow> field de_i64 (fs ! 2); succ \<leftarrow> field de_bool (fs ! 3);
     account \<leftarrow> opt_field de_opt_string (fs ! 4); r \<leftarrow> opt_field de_opt_string (fs ! 5);
     Some (Result s n t succ account r) }"

definition de_revocation :: "Value \<Rightarrow> MatrixMessage option" where
  "de_revocation body = do {
     fs \<leftarrow> struct_fields [''sessionId'', ''nonce'', ''sentAt'', ''siteAccountId'', ''reason''] body;
     s \<leftarrow> field de_string (fs ! 0); n \<leftarrow> field de_string (fs ! 1);
     t \<leftarrow> field de_i64 (fs ! 2); account \<leftarrow> field de_string (fs ! 3);
     r \<leftarrow> opt_field de_opt_string (fs ! 4);
     Some (Revocation s n t account r) }"

definition de_variant :: "string \<Rightarrow> Value \<Rightarrow> MatrixMessage option" where
  "de_variant kind body =
     (if kind = ''request'' then de_request body
      else if kind = ''challenge'' then de_challenge body
      else if kind = ''consent'' then de_consent body
      else if kind = ''result'' then de_result body
      else if kind = ''revocation'' then de_revocation body
      else None)"

fun message_from_value :: "Value \<Rightarrow> MatrixMessage option" where
  "message_from_value (Object m) =
     (case map_of m ''kind'' of
        Some (String kind) \<Rightarrow> de_variant kind (Object (filter (\<lambda>(k, _). k \<noteq> ''kind'') m))
      | _ \<Rightarrow> None)"
| "message_from_value (Array (String kind # vs)) = de_variant kind (Array vs)"
| "message_from_value _ = None"

subsection \<open>Checks and envelope\<close>

definition check_opt :: "('a \<Rightarrow> unit relay_result) \<Rightarrow> 'a option \<Rightarrow> unit relay_result" where
  "check_opt f x = (case x of None \<Rightarrow> Inr () | Some v \<Rightarrow> f v)"

fun validate_outbound :: "MatrixMessage \<Rightarrow> unit relay_result" where
  "validate_outbound (Challenge s n _ site d name ch _) =
     and_then (validate_id s) (\<lambda>_.
     and_then (validate_id n) (\<lambda>_.
     and_then (validate_domain_field d) (\<lambda>_.
       if site = [] \<or> length site > MAX_DISPLAY_NAME then err InvalidRequest
       else if length name > MAX_DISPLAY_NAME then err InvalidRequest
       else validate_challenge_token ch)))"
| "validate_outbound (Result s n _ _ account r) =
     and_then (validate_id s) (\<lambda>_.
     and_then (validate_id n) (\<lambda>_.
     and_then (check_opt validate_site_account_id account) (\<lambda>_.
       check_opt validate_reason r)))"
| "validate_outbound (Revocation s n _ account r) =
     and_then (validate_id s) (\<lambda>_.
     and_then (validate_id n) (\<lambda>_.
     and_then (validate_site_account_id account) (\<lambda>_.
       check_opt validate_reason r)))"
| "validate_outbound _ = Inr ()"

fun validate_inbound :: "MatrixMessage \<Rightarrow> unit relay_result" where
  "validate_inbound (Request s n _ d) =
     and_then (validate_id s) (\<lambda>_.
     and_then (validate_id n) (\<lambda>_.
       validate_domain_field d))"
| "validate_inbound (Consent s n _ a name ch k sg) =
     and_then (validate_id s) (\<lambda>_.
     and_then (validate_id n) (\<lambda>_.
     and_then (validate_challenge_token ch) (\<lambda>_.
       if \<not> starts_with ''did:'' k \<or> length k > 512 then err InvalidSignature
       else and_then (validate_signature_b64 sg) (\<lambda>_.
         case (a, name) of
           (True, Some nm) \<Rightarrow> if nm \<noteq> [] \<and> length nm \<le> MAX_DISPLAY_NAME then Inr () else err InvalidRequest
         | (False, None) \<Rightarrow> Inr ()
         | _ \<Rightarrow> err InvalidRequest))))"
| "validate_inbound (Revocation s n _ account r) =
     and_then (validate_id s) (\<lambda>_.
     and_then (validate_id n) (\<lambda>_.
     and_then (validate_site_account_id account) (\<lambda>_.
       check_opt validate_reason r)))"
| "validate_inbound _ = err InvalidRequest"

definition matrix_encode :: "crates \<Rightarrow> MatrixMessage \<Rightarrow> string relay_result" where
  "matrix_encode c message =
     and_then (validate_outbound message) (\<lambda>_.
     and_then (ok_or (Problem InternalError) (json_to_vec c (Object (message_fields message)))) (\<lambda>json.
       if length json > MAX_DECODED_BODY then err InvalidRequest
       else Inr (MATRIX_PREFIX @ base64url_encode c json)))"

definition matrix_decode :: "crates \<Rightarrow> string \<Rightarrow> MatrixMessage relay_result" where
  "matrix_decode c body =
     (if length body > MAX_DECODED_BODY * 2 \<or> \<not> starts_with MATRIX_PREFIX body then err InvalidRequest
      else and_then (base64url_decode c (drop (length MATRIX_PREFIX) body)) (\<lambda>bs.
        if length bs > MAX_DECODED_BODY then err InvalidRequest
        else and_then (from_slice (json_parse c) message_from_value bs) (\<lambda>message.
          and_then (validate_inbound message) (\<lambda>_. Inr message))))"

definition consent_fields :: "bool \<Rightarrow> string \<Rightarrow> string option \<Rightarrow> string \<Rightarrow> string \<Rightarrow> int \<Rightarrow> (string \<times> Value) list" where
  "consent_fields a ch name n s t =
     [(''approved'', Bool a), (''challenge'', String ch), (''nonce'', String n),
      (''sessionId'', String s), (''sentAt'', json_int t)]
     @ (case name of Some nm \<Rightarrow> [(''displayName'', String nm)] | None \<Rightarrow> [])"

definition consent_signed_bytes :: "crates \<Rightarrow> bool \<Rightarrow> string \<Rightarrow> string option \<Rightarrow> string \<Rightarrow> string \<Rightarrow> int \<Rightarrow> bytes relay_result" where
  "consent_signed_bytes c a ch name n s t = canonicalize_object (json_str c) (consent_fields a ch name n s t)"

subsection \<open>Reading back a written message\<close>

lemma map_of_filter_key:
  "map_of (filter (\<lambda>(k, _). k \<noteq> key) m) k = (if k = key then None else map_of m k)"
  by (induction m) auto

lemma btree_of_lookup: "distinct (map fst fs) \<Longrightarrow> map_of (btree_of fs) = map_of fs"
  using map_of_mset_eq btree_of_mset by metis

lemma btree_of_entries: "distinct (map fst fs) \<Longrightarrow> set (btree_of fs) = set fs"
  by (metis btree_of_mset set_mset_mset)

lemma struct_fields_btree:
  assumes "distinct (map fst fs)" "\<forall>k \<in> set (map fst fs). k = ''kind'' \<or> k \<in> set names" "''kind'' \<notin> set names"
  shows "struct_fields names (Object (filter (\<lambda>(k, _). k \<noteq> ''kind'') (btree_of fs)))
           = Some (map (map_of fs) names)"
  using assms
  by (auto simp: struct_fields_def list_all_iff btree_of_entries btree_of_lookup map_of_filter_key)

lemma de_opt_string_json_opt [simp]: "de_opt_string (json_opt x) = Some x"
  by (simp add: json_opt_def split: option.splits)

fun message_i64 :: "MatrixMessage \<Rightarrow> bool" where
  "message_i64 (Request _ _ t _) \<longleftrightarrow> in_i64 t"
| "message_i64 (Challenge _ _ t _ _ _ _ e) \<longleftrightarrow> in_i64 t \<and> in_i64 e"
| "message_i64 (Consent _ _ t _ _ _ _ _) \<longleftrightarrow> in_i64 t"
| "message_i64 (Result _ _ t _ _ _) \<longleftrightarrow> in_i64 t"
| "message_i64 (Revocation _ _ t _ _) \<longleftrightarrow> in_i64 t"

lemma message_fields_distinct: "distinct (map fst (message_fields m))"
  by (cases m) simp_all

lemma message_from_value_fields:
  assumes "message_i64 m"
  shows "message_from_value (Object (btree_of (message_fields m))) = Some m"
  using assms message_fields_distinct [of m]
  by (cases m)
    (simp_all add: btree_of_lookup struct_fields_btree de_variant_def de_request_def de_challenge_def
      de_consent_def de_result_def de_revocation_def)

subsection \<open>The envelope\<close>

text \<open>
  What the \<^verbatim>\<open>serde_json\<close> crate promises for one object: the text it writes is UTF-8 and its parser
  reads the same entries back from it.
\<close>

definition json_text_ok :: "crates \<Rightarrow> (string \<times> Value) list \<Rightarrow> bytes \<Rightarrow> bool" where
  "json_text_ok c fs t \<longleftrightarrow> json_to_vec c (Object fs) = Some t \<and> utf8_valid t
     \<and> (\<exists>tree. json_parse c t = Some tree \<and> strict_ok tree \<and> plain_value tree = Object (btree_of fs))"

lemma outbound_of_inbound: "validate_inbound m = Inr u \<Longrightarrow> validate_outbound m = Inr ()"
  by (cases m) (auto simp: result_simps)

lemma check_opt_eq_Inr [result_simps]: "check_opt f x = Inr u \<longleftrightarrow> (\<forall>v. x = Some v \<longrightarrow> f v = Inr ())"
  and check_opt_eq_Inl [result_simps]: "check_opt f x = Inl e \<longleftrightarrow> (\<exists>v. x = Some v \<and> f v = Inl e)"
  by (auto simp: check_opt_def split: option.splits)

lemmas validator_defs = validate_id_def validate_domain_field_def validate_domain_def validate_challenge_token_def
  validate_signature_b64_def validate_site_account_id_def validate_reason_def

lemma validate_inbound_err: "validate_inbound m = Inl e \<Longrightarrow> e = Problem InvalidRequest \<or> e = Problem InvalidSignature"
  by (cases m) (auto simp: result_simps validator_defs split: if_splits option.splits bool.splits)

lemma validate_inbound_spec:
  "validate_inbound m = Inr () \<Longrightarrow> (case m of
      Request s n t d \<Rightarrow> s \<in> lang ID_RE \<and> n \<in> lang ID_RE \<and> validate_domain d = Inr ()
    | Consent s n t a name ch k sg \<Rightarrow> s \<in> lang ID_RE \<and> n \<in> lang ID_RE \<and> ch \<in> lang CHALLENGE_RE
        \<and> starts_with ''did:'' k \<and> length k \<le> 512 \<and> sg \<in> lang SIG_RE
        \<and> (case name of None \<Rightarrow> \<not> a | Some nm \<Rightarrow> a \<and> nm \<noteq> [] \<and> length nm \<le> 100)
    | Revocation s n t account r \<Rightarrow> s \<in> lang ID_RE \<and> n \<in> lang ID_RE \<and> account \<in> lang ACCOUNT_RE
        \<and> (case r of None \<Rightarrow> True | Some x \<Rightarrow> length x \<le> 100)
    | _ \<Rightarrow> False)"
  by (cases m)
    (auto simp: result_simps ID_RE_def CHALLENGE_RE_def SIG_RE_def ACCOUNT_RE_def validate_domain_field_def
      validate_reason_def MAX_DISPLAY_NAME_def id_tok.accepts_iff_lang [symmetric]
      challenge_tok.accepts_iff_lang [symmetric] sig_tok.accepts_iff_lang [symmetric]
      account_tok.accepts_iff_lang [symmetric] simp del: lang.simps split: if_splits option.splits bool.splits)

lemma prefix_length [simp]: "length MATRIX_PREFIX = 20"
  by (simp add: MATRIX_PREFIX_def)

lemma decode_encode:
  assumes b64: "base64_engine (b64_encode c) (b64_decode c)"
    and i64: "message_i64 m" and t: "json_text_ok c (message_fields m) t" and len: "length t \<le> MAX_DECODED_BODY"
  shows "matrix_decode c (MATRIX_PREFIX @ base64url_encode c t) = and_then (validate_inbound m) (\<lambda>_. Inr m)"
proof -
  have "length (base64url_encode c t) = (4 * length t + 2) div 3"
    using base64_engine.enc_length [OF b64] by (simp add: base64url_encode_def)
  then have "length (MATRIX_PREFIX @ base64url_encode c t) \<le> MAX_DECODED_BODY * 2"
    using len by (simp add: MAX_DECODED_BODY_def)
  moreover have "from_slice (json_parse c) message_from_value t = Inr m"
    using t message_from_value_fields [OF i64] by (auto simp: json_text_ok_def intro: from_sliceI)
  ultimately show ?thesis
    using base64url_roundtrip [OF b64, of t] len by (simp add: matrix_decode_def starts_with_iff)
qed

subsection \<open>The bytes a consent signs\<close>

type_synonym consent_content = "bool \<times> string \<times> string option \<times> string \<times> string \<times> int"

definition consent_doc_fields :: "consent_content \<Rightarrow> (string \<times> Value) list" where
  "consent_doc_fields d = (case d of (a, ch, name, n, s, t) \<Rightarrow> consent_fields a ch name n s t)"

interpretation consent_doc: signed_document consent_doc_fields "\<lambda>d. d"
proof
  fix d d' :: consent_content
  obtain a ch name n s t where d: "d = (a, ch, name, n, s, t)" by (cases d)
  obtain a' ch' name' n' s' t' where d': "d' = (a', ch', name', n', s', t')" by (cases d')
  show "distinct (map fst (consent_doc_fields d))"
    by (cases name) (simp_all add: d consent_doc_fields_def consent_fields_def)
  show "flat_value v" if "(k, v) \<in> set (consent_doc_fields d)" for k v
    using that by (cases name) (auto simp: d consent_doc_fields_def consent_fields_def)
  assume "map_of (consent_doc_fields d) = map_of (consent_doc_fields d')"
  then have eq: "map_of (consent_fields a ch name n s t) k = map_of (consent_fields a' ch' name' n' s' t') k" for k
    by (simp add: d d' consent_doc_fields_def)
  show "d = d'"
    using eq [of "''approved''"] eq [of "''challenge''"] eq [of "''nonce''"] eq [of "''sessionId''"]
      eq [of "''sentAt''"] eq [of "''displayName''"]
    by (auto simp: d d' consent_fields_def split: option.splits)
qed

lemma consent_signed_bytes_doc:
  "consent_signed_bytes c a ch name n s t = canonicalize_object (json_str c) (consent_doc_fields (a, ch, name, n, s, t))"
  by (simp add: consent_signed_bytes_def consent_doc_fields_def)

end
