(* ===== verification/Time_Window.thy ===== *)
theory Time_Window
  imports Relay_Error
begin

text \<open>
  \<^verbatim>\<open>src/protocol/time.rs\<close>: the session window, the acceptance window of a message and the expiry
  of a challenge, on saturating 64-bit arithmetic. The lemmas show that saturation never changes
  a decision: on \<^verbatim>\<open>i64\<close> inputs each function agrees with the unbounded specification.
\<close>

definition validate_window :: "int \<Rightarrow> int \<Rightarrow> unit relay_result" where
  "validate_window iat exp =
     (if exp \<le> iat \<or> saturating_sub exp iat > MAX_TTL_MS then err RequestExpired else Inr ())"

definition sent_at_in_qr_window :: "int \<Rightarrow> int \<Rightarrow> int \<Rightarrow> bool" where
  "sent_at_in_qr_window sent_at iat exp \<longleftrightarrow>
     sent_at \<ge> saturating_sub iat CLOCK_SKEW_MS \<and> sent_at \<le> exp"

definition challenge_expires_at :: "int \<Rightarrow> int \<Rightarrow> int" where
  "challenge_expires_at sent_at registration_exp =
     min (saturating_add sent_at MAX_TTL_MS) registration_exp"

lemmas time_defs = validate_window_def sent_at_in_qr_window_def challenge_expires_at_def

lemma validate_window_cases:
  "validate_window iat exp = Inr () \<or> validate_window iat exp = err RequestExpired"
  by (simp add: validate_window_def)

lemma validate_window_iff:
  "validate_window iat exp = Inr u \<longleftrightarrow> iat < exp \<and> exp - iat \<le> 300000"
  by (auto simp: validate_window_def MAX_TTL_MS_def saturating_sub_def)

lemma sent_at_window_i64:
  assumes "in_i64 sent_at" "in_i64 iat"
  shows "sent_at_in_qr_window sent_at iat exp \<longleftrightarrow> iat - 30000 \<le> sent_at \<and> sent_at \<le> exp"
  using assms
  by (auto simp: sent_at_in_qr_window_def CLOCK_SKEW_MS_def saturating_sub_def in_i64_def)

lemma challenge_expires_at_i64:
  assumes "in_i64 sent_at" "in_i64 exp"
  shows "challenge_expires_at sent_at exp = min (sent_at + 300000) exp"
  using assms
  by (auto simp: challenge_expires_at_def MAX_TTL_MS_def saturating_add_def in_i64_def)

lemma challenge_expires_le: "challenge_expires_at s e \<le> e"
  by (simp add: challenge_expires_at_def)

lemma challenge_expires_in_i64: "in_i64 e \<Longrightarrow> in_i64 (challenge_expires_at s e)"
  by (auto simp: challenge_expires_at_def saturating_add_def in_i64_def)

text \<open>
  C35. Saturation is invisible: on 64-bit inputs the three functions of \<^verbatim>\<open>time.rs\<close> decide exactly
  what the same formulas over the unbounded integers decide. A session lives between 1 and
  300000 ms, a message is accepted from 30000 ms before \<open>iat\<close> up to \<open>exp\<close>, and a challenge
  expires at the earlier of 300000 ms after sending and the session's expiry.
\<close>

theorem time_window_exact:
  assumes "in_i64 iat" "in_i64 exp" "in_i64 sent_at"
  shows "validate_window iat exp
           = (if iat < exp \<and> exp - iat \<le> 300000 then Inr () else err RequestExpired)
     \<and> (sent_at_in_qr_window sent_at iat exp \<longleftrightarrow> iat - 30000 \<le> sent_at \<and> sent_at \<le> exp)
     \<and> challenge_expires_at sent_at exp = min (sent_at + 300000) exp"
  using validate_window_iff [of iat exp "()"] validate_window_cases [of iat exp] assms
  by (auto simp: sent_at_window_i64 challenge_expires_at_i64)

theorem time_window_exact_witness:
  "validate_window 1800000000000 1800000300000 = Inr ()
   \<and> \<not> sent_at_in_qr_window 1800000000 1800000000000 1800000300000
   \<and> challenge_expires_at 1800000001000 1800000300000 = 1800000300000"
proof -
  have h: "in_i64 1800000000000" "in_i64 1800000300000" "in_i64 1800000000" "in_i64 1800000001000"
    by (simp_all add: in_i64_def)
  show ?thesis
    using time_window_exact [OF h(1) h(2) h(3)] time_window_exact [OF h(1) h(2) h(4)] by simp
qed

end
