(* ===== verification/Documents.thy ===== *)
theory Documents
  imports Signed_Document Time_Window
begin

text \<open>
  \<^verbatim>\<open>src/protocol/registration.rs\<close>, \<^verbatim>\<open>assertion.rs\<close>, \<^verbatim>\<open>revocation.rs\<close> and \<^verbatim>\<open>metadata.rs\<close>: the signed
  documents exchanged with the sites, their checks, and the canonical bytes their signatures cover.
\<close>

subsection \<open>registration.rs\<close>

record RegistrationRequest =
  reg_version :: int
  reg_domain :: string
  reg_session_id :: string
  reg_nonce :: string
  reg_iat :: int
  reg_exp :: int
  reg_display_name :: string
  reg_qr_signature :: string
  reg_signature :: string

record RegistrationResponse =
  resp_version :: int
  resp_session_id :: string
  resp_status :: string
  resp_expires_at :: int

definition registration_from_value :: "Value \<Rightarrow> RegistrationRequest option" where
  "registration_from_value v = do {
     fs \<leftarrow> struct_fields [''version'', ''domain'', ''sessionId'', ''nonce'', ''iat'', ''exp'',
       ''requestedDisplayName'', ''qrSignature'', ''registrationSignature''] v;
     ver \<leftarrow> field de_i64 (fs ! 0); d \<leftarrow> field de_string (fs ! 1);
     s \<leftarrow> field de_string (fs ! 2); n \<leftarrow> field de_string (fs ! 3);
     i \<leftarrow> field de_i64 (fs ! 4); e \<leftarrow> field de_i64 (fs ! 5);
     name \<leftarrow> field de_string (fs ! 6); q \<leftarrow> field de_string (fs ! 7); r \<leftarrow> field de_string (fs ! 8);
     Some \<lparr>reg_version = ver, reg_domain = d, reg_session_id = s, reg_nonce = n, reg_iat = i, reg_exp = e,
       reg_display_name = name, reg_qr_signature = q, reg_signature = r\<rparr> }"

definition registration_validate :: "RegistrationRequest \<Rightarrow> unit relay_result" where
  "registration_validate r =
     (if reg_version r \<noteq> PROTOCOL_VERSION then err UnsupportedVersion
      else and_then (validate_domain_field (reg_domain r)) (\<lambda>_.
        and_then (validate_id (reg_session_id r)) (\<lambda>_.
        and_then (validate_id (reg_nonce r)) (\<lambda>_.
        and_then (validate_window (reg_iat r) (reg_exp r)) (\<lambda>_.
        and_then (validate_display_name (reg_display_name r) False) (\<lambda>_.
        and_then (validate_signature_b64 (reg_qr_signature r)) (\<lambda>_.
          validate_signature_b64 (reg_signature r))))))))"

definition qr_fields :: "RegistrationRequest \<Rightarrow> (string \<times> Value) list" where
  "qr_fields r =
     [(''domain'', String (reg_domain r)), (''exp'', json_int (reg_exp r)), (''iat'', json_int (reg_iat r)),
      (''nonce'', String (reg_nonce r)), (''session'', String (reg_session_id r)), (''v'', json_int (reg_version r))]"

definition qr_canonical :: "crates \<Rightarrow> RegistrationRequest \<Rightarrow> bytes relay_result" where
  "qr_canonical c r = canonicalize_object (json_str c) (qr_fields r)"

definition registration_fields :: "RegistrationRequest \<Rightarrow> (string \<times> Value) list" where
  "registration_fields r =
     [(''domain'', String (reg_domain r)), (''exp'', json_int (reg_exp r)), (''iat'', json_int (reg_iat r)),
      (''nonce'', String (reg_nonce r)), (''qrSignature'', String (reg_qr_signature r)),
      (''requestedDisplayName'', String (reg_display_name r)),
      (''sessionId'', String (reg_session_id r)), (''version'', json_int (reg_version r))]"

definition registration_canonical :: "crates \<Rightarrow> RegistrationRequest \<Rightarrow> bytes relay_result" where
  "registration_canonical c r = canonicalize_object (json_str c) (registration_fields r)"

subsection \<open>assertion.rs\<close>

record RelayAssertion =
  as_version :: int
  as_iss :: string
  as_aud :: string
  as_sub :: string
  as_session_id :: string
  as_nonce :: string
  as_jti :: string
  as_iat :: int
  as_nbf :: int
  as_exp :: int
  as_display_name :: string
  as_subject_key_version :: int
  as_kid :: string
  as_signature :: string

definition assertion_fields :: "RelayAssertion \<Rightarrow> (string \<times> Value) list" where
  "assertion_fields a =
     [(''aud'', String (as_aud a)), (''displayName'', String (as_display_name a)), (''exp'', json_int (as_exp a)),
      (''iat'', json_int (as_iat a)), (''iss'', String (as_iss a)), (''jti'', String (as_jti a)),
      (''kid'', String (as_kid a)), (''nbf'', json_int (as_nbf a)), (''nonce'', String (as_nonce a)),
      (''sessionId'', String (as_session_id a)), (''sub'', String (as_sub a)),
      (''subjectKeyVersion'', json_int (as_subject_key_version a)), (''version'', json_int (as_version a))]"

definition assertion_canonical :: "crates \<Rightarrow> RelayAssertion \<Rightarrow> string relay_result" where
  "assertion_canonical c a = canonicalize_object (json_str c) (assertion_fields a)"

definition assertion_sign :: "crates \<Rightarrow> bytes \<Rightarrow> string \<Rightarrow> string \<Rightarrow> string \<Rightarrow> string \<Rightarrow> string \<Rightarrow> string
    \<Rightarrow> int \<Rightarrow> int \<Rightarrow> string \<Rightarrow> int \<Rightarrow> RelayAssertion relay_result" where
  "assertion_sign c signing_key kid aud sub session_id nonce jti iat exp display_name subject_key_version =
     and_then (validate_kid kid) (\<lambda>_.
     and_then (validate_id session_id) (\<lambda>_.
     and_then (validate_id nonce) (\<lambda>_.
     and_then (validate_site_account_id sub) (\<lambda>_.
     and_then (validate_display_name display_name True) (\<lambda>_.
       let assertion = \<lparr>as_version = PROTOCOL_VERSION, as_iss = RELAY_ORIGIN, as_aud = aud, as_sub = sub,
         as_session_id = session_id, as_nonce = nonce, as_jti = jti, as_iat = iat, as_nbf = iat, as_exp = exp,
         as_display_name = display_name, as_subject_key_version = subject_key_version, as_kid = kid,
         as_signature = []\<rparr> in
       and_then (assertion_canonical c assertion) (\<lambda>canonical.
         let signed = assertion\<lparr>as_signature := ed25519_sign c signing_key canonical\<rparr> in
         and_then (validate_signature_b64 (as_signature signed)) (\<lambda>_. Inr signed)))))))"

definition assertion_to_bytes :: "crates \<Rightarrow> RelayAssertion \<Rightarrow> bytes relay_result" where
  "assertion_to_bytes c a = ok_or (Problem InternalError) (json_to_vec c (Object
     [(''version'', json_int (as_version a)), (''iss'', String (as_iss a)), (''aud'', String (as_aud a)),
      (''sub'', String (as_sub a)), (''sessionId'', String (as_session_id a)), (''nonce'', String (as_nonce a)),
      (''jti'', String (as_jti a)), (''iat'', json_int (as_iat a)), (''nbf'', json_int (as_nbf a)),
      (''exp'', json_int (as_exp a)), (''displayName'', String (as_display_name a)),
      (''subjectKeyVersion'', json_int (as_subject_key_version a)), (''kid'', String (as_kid a)),
      (''signature'', String (as_signature a))]))"

subsection \<open>revocation.rs\<close>

record RelayRevocation =
  rv_version :: int
  rv_iss :: string
  rv_aud :: string
  rv_sub :: string
  rv_jti :: string
  rv_iat :: int
  rv_reason :: string
  rv_kid :: string
  rv_signature :: string

definition revocation_fields :: "RelayRevocation \<Rightarrow> (string \<times> Value) list" where
  "revocation_fields r =
     [(''aud'', String (rv_aud r)), (''iat'', json_int (rv_iat r)), (''iss'', String (rv_iss r)),
      (''jti'', String (rv_jti r)), (''kid'', String (rv_kid r)), (''reason'', String (rv_reason r)),
      (''sub'', String (rv_sub r)), (''version'', json_int (rv_version r))]"

definition revocation_canonical :: "crates \<Rightarrow> RelayRevocation \<Rightarrow> string relay_result" where
  "revocation_canonical c r = canonicalize_object (json_str c) (revocation_fields r)"

definition revocation_sign :: "crates \<Rightarrow> bytes \<Rightarrow> string \<Rightarrow> string \<Rightarrow> string \<Rightarrow> string \<Rightarrow> int \<Rightarrow> string
    \<Rightarrow> RelayRevocation relay_result" where
  "revocation_sign c signing_key kid aud sub jti iat reason =
     (let revocation = \<lparr>rv_version = PROTOCOL_VERSION, rv_iss = RELAY_ORIGIN, rv_aud = aud, rv_sub = sub,
        rv_jti = jti, rv_iat = iat, rv_reason = reason, rv_kid = kid, rv_signature = []\<rparr> in
      and_then (revocation_canonical c revocation) (\<lambda>canonical.
        Inr (revocation\<lparr>rv_signature := ed25519_sign c signing_key canonical\<rparr>)))"

definition revocation_to_bytes :: "crates \<Rightarrow> RelayRevocation \<Rightarrow> bytes relay_result" where
  "revocation_to_bytes c r = ok_or (Problem InternalError) (json_to_vec c (Object
     [(''version'', json_int (rv_version r)), (''iss'', String (rv_iss r)), (''aud'', String (rv_aud r)),
      (''sub'', String (rv_sub r)), (''jti'', String (rv_jti r)), (''iat'', json_int (rv_iat r)),
      (''reason'', String (rv_reason r)), (''kid'', String (rv_kid r)), (''signature'', String (rv_signature r))]))"

subsection \<open>metadata.rs\<close>

record SiteMetadata =
  md_version :: int
  md_domain :: string
  md_display_name :: string
  md_public_key :: string
  md_signature :: string

definition metadata_from_value :: "Value \<Rightarrow> SiteMetadata option" where
  "metadata_from_value v = do {
     fs \<leftarrow> struct_fields [''version'', ''domain'', ''displayName'', ''publicKey'', ''signature''] v;
     ver \<leftarrow> field de_i64 (fs ! 0); d \<leftarrow> field de_string (fs ! 1); name \<leftarrow> field de_string (fs ! 2);
     k \<leftarrow> field de_string (fs ! 3); sg \<leftarrow> field de_string (fs ! 4);
     Some \<lparr>md_version = ver, md_domain = d, md_display_name = name, md_public_key = k, md_signature = sg\<rparr> }"

definition metadata_fields :: "SiteMetadata \<Rightarrow> (string \<times> Value) list" where
  "metadata_fields m =
     [(''displayName'', String (md_display_name m)), (''domain'', String (md_domain m)),
      (''publicKey'', String (md_public_key m)), (''version'', json_int (md_version m))]"

definition validate_for_domain :: "crates \<Rightarrow> SiteMetadata \<Rightarrow> string \<Rightarrow> unit relay_result" where
  "validate_for_domain c m expected_domain =
     (if md_version m \<noteq> PROTOCOL_VERSION then err UnsupportedVersion
      else and_then (validate_domain_field (md_domain m)) (\<lambda>_.
        if md_domain m \<noteq> expected_domain then err DomainVerificationFailed
        else if trims_to_empty (md_display_name m) \<or> length (md_display_name m) > MAX_DISPLAY_NAME
        then err DomainVerificationFailed
        else if length (md_public_key m) \<noteq> 43 then err DomainVerificationFailed
        else and_then (canonicalize_object (json_str c) (metadata_fields m)) (\<lambda>canonical.
          map_err (\<lambda>_. Problem DomainVerificationFailed)
            (ed25519_verify c (md_public_key m) canonical (md_signature m)))))"

subsection \<open>What the signatures cover\<close>

text \<open>Each list of fields meets the contract of \<open>signed_document\<close>.\<close>

lemma map_of_eqD: "map_of fs = map_of gs \<Longrightarrow> map_of fs k = map_of gs k"
  by simp

interpretation qr_doc: signed_document qr_fields
  "\<lambda>r. (reg_version r, reg_domain r, reg_session_id r, reg_nonce r, reg_iat r, reg_exp r)"
proof
  fix r r' assume "map_of (qr_fields r) = map_of (qr_fields r')"
  note eq = map_of_eqD [OF this]
  show "(reg_version r, reg_domain r, reg_session_id r, reg_nonce r, reg_iat r, reg_exp r) =
      (reg_version r', reg_domain r', reg_session_id r', reg_nonce r', reg_iat r', reg_exp r')"
    using eq [of "''v''"] eq [of "''domain''"] eq [of "''session''"] eq [of "''nonce''"] eq [of "''iat''"] eq [of "''exp''"]
    by (simp add: qr_fields_def)
qed (auto simp: qr_fields_def)

interpretation registration_doc: signed_document registration_fields
  "\<lambda>r. (reg_version r, reg_domain r, reg_session_id r, reg_nonce r, reg_iat r, reg_exp r,
        reg_display_name r, reg_qr_signature r)"
proof
  fix r r' assume "map_of (registration_fields r) = map_of (registration_fields r')"
  note eq = map_of_eqD [OF this]
  show "(reg_version r, reg_domain r, reg_session_id r, reg_nonce r, reg_iat r, reg_exp r,
        reg_display_name r, reg_qr_signature r) =
      (reg_version r', reg_domain r', reg_session_id r', reg_nonce r', reg_iat r', reg_exp r',
        reg_display_name r', reg_qr_signature r')"
    using eq [of "''version''"] eq [of "''domain''"] eq [of "''sessionId''"] eq [of "''nonce''"] eq [of "''iat''"]
      eq [of "''exp''"] eq [of "''requestedDisplayName''"] eq [of "''qrSignature''"]
    by (simp add: registration_fields_def)
qed (auto simp: registration_fields_def)

interpretation assertion_doc: signed_document assertion_fields
  "\<lambda>a. a\<lparr>as_signature := []\<rparr>"
proof
  fix a a' assume "map_of (assertion_fields a) = map_of (assertion_fields a')"
  note eq = map_of_eqD [OF this]
  show "a\<lparr>as_signature := []\<rparr> = a'\<lparr>as_signature := []\<rparr>"
    using eq [of "''aud''"] eq [of "''displayName''"] eq [of "''exp''"] eq [of "''iat''"] eq [of "''iss''"]
      eq [of "''jti''"] eq [of "''kid''"] eq [of "''nbf''"] eq [of "''nonce''"] eq [of "''sessionId''"]
      eq [of "''sub''"] eq [of "''subjectKeyVersion''"] eq [of "''version''"]
    by (simp add: assertion_fields_def)
qed (auto simp: assertion_fields_def)

interpretation revocation_doc: signed_document revocation_fields
  "\<lambda>r. r\<lparr>rv_signature := []\<rparr>"
proof
  fix r r' assume "map_of (revocation_fields r) = map_of (revocation_fields r')"
  note eq = map_of_eqD [OF this]
  show "r\<lparr>rv_signature := []\<rparr> = r'\<lparr>rv_signature := []\<rparr>"
    using eq [of "''aud''"] eq [of "''iat''"] eq [of "''iss''"] eq [of "''jti''"] eq [of "''kid''"]
      eq [of "''reason''"] eq [of "''sub''"] eq [of "''version''"]
    by (simp add: revocation_fields_def)
qed (auto simp: revocation_fields_def)

interpretation metadata_doc: signed_document metadata_fields
  "\<lambda>m. m\<lparr>md_signature := []\<rparr>"
proof
  fix m m' assume "map_of (metadata_fields m) = map_of (metadata_fields m')"
  note eq = map_of_eqD [OF this]
  show "m\<lparr>md_signature := []\<rparr> = m'\<lparr>md_signature := []\<rparr>"
    using eq [of "''displayName''"] eq [of "''domain''"] eq [of "''publicKey''"] eq [of "''version''"]
    by (simp add: metadata_fields_def)
qed (auto simp: metadata_fields_def)

subsection \<open>Signing\<close>

lemma assertion_fields_signature [simp]: "assertion_fields (a\<lparr>as_signature := x\<rparr>) = assertion_fields a"
  by (simp add: assertion_fields_def)

lemma revocation_fields_signature [simp]: "revocation_fields (r\<lparr>rv_signature := x\<rparr>) = revocation_fields r"
  by (simp add: revocation_fields_def)

definition unsigned_assertion :: "string \<Rightarrow> string \<Rightarrow> string \<Rightarrow> string \<Rightarrow> string \<Rightarrow> string
    \<Rightarrow> int \<Rightarrow> int \<Rightarrow> string \<Rightarrow> int \<Rightarrow> RelayAssertion" where
  "unsigned_assertion kid aud sub s n jti iat exp name v =
     \<lparr>as_version = 1, as_iss = ''https://relay.pseud0.org'', as_aud = aud,
        as_sub = sub, as_session_id = s, as_nonce = n, as_jti = jti, as_iat = iat, as_nbf = iat, as_exp = exp,
        as_display_name = name, as_subject_key_version = v, as_kid = kid, as_signature = []\<rparr>"

lemma assertion_sign_eq:
  "assertion_sign c key kid aud sub s n jti iat exp name v =
     and_then (validate_kid kid) (\<lambda>_. and_then (validate_id s) (\<lambda>_. and_then (validate_id n) (\<lambda>_.
     and_then (validate_site_account_id sub) (\<lambda>_. and_then (validate_display_name name True) (\<lambda>_.
     and_then (assertion_canonical c (unsigned_assertion kid aud sub s n jti iat exp name v)) (\<lambda>b.
     and_then (validate_signature_b64 (ed25519_sign c key b)) (\<lambda>_.
       Inr ((unsigned_assertion kid aud sub s n jti iat exp name v)\<lparr>as_signature := ed25519_sign c key b\<rparr>))))))))"
  by (simp add: assertion_sign_def unsigned_assertion_def Let_def PROTOCOL_VERSION_def RELAY_ORIGIN_def)

lemma assertion_sign_InrE:
  assumes "assertion_sign c key kid aud sub s n jti iat exp name v = Inr a"
  obtains b where "assertion_canonical c a = Inr b"
    "a = (unsigned_assertion kid aud sub s n jti iat exp name v)\<lparr>as_signature := ed25519_sign c key b\<rparr>"
    "validate_site_account_id sub = Inr ()" "validate_display_name name True = Inr ()"
    "validate_id s = Inr ()" "validate_id n = Inr ()" "validate_kid kid = Inr ()"
proof -
  from assms obtain b where b:
    "assertion_canonical c (unsigned_assertion kid aud sub s n jti iat exp name v) = Inr b"
    "a = (unsigned_assertion kid aud sub s n jti iat exp name v)\<lparr>as_signature := ed25519_sign c key b\<rparr>"
    "validate_site_account_id sub = Inr ()" "validate_display_name name True = Inr ()"
    "validate_id s = Inr ()" "validate_id n = Inr ()" "validate_kid kid = Inr ()"
    unfolding assertion_sign_eq result_simps by auto
  then have "assertion_canonical c a = Inr b" by (simp add: assertion_canonical_def)
  with b that show thesis by blast
qed

end
