(* ===== verification/Protocol_Properties.thy ===== *)
theory Protocol_Properties
  imports Matrix_Message Documents Base64_Reference
begin

text \<open>
  The properties of \<^verbatim>\<open>src/protocol/\<close>: what the signatures of the documents commit to, what a relay
  assertion carries, and the Matrix envelope.
\<close>

text \<open>
  C17. Signatures commit to the documents: two consents, two assertions, two revocations, two site
  metadata documents or two registrations with the same canonical bytes agree on every signed
  field (the registration signature covers everything but itself, the QR signature the six QR
  fields). So a signature accepted for one document is no signature of a different one.
\<close>

theorem canonical_documents_commit:
  assumes "literal_ok (json_str c)"
  shows "(consent_signed_bytes c a ch name n s t = Inr b \<and> consent_signed_bytes c a' ch' name' n' s' t' = Inr b
      \<longrightarrow> (a, ch, name, n, s, t) = (a', ch', name', n', s', t'))
    \<and> (assertion_canonical c as = Inr b \<and> assertion_canonical c as' = Inr b
      \<longrightarrow> as\<lparr>as_signature := []\<rparr> = as'\<lparr>as_signature := []\<rparr>)
    \<and> (revocation_canonical c rv = Inr b \<and> revocation_canonical c rv' = Inr b
      \<longrightarrow> rv\<lparr>rv_signature := []\<rparr> = rv'\<lparr>rv_signature := []\<rparr>)
    \<and> (registration_canonical c r = Inr b \<and> registration_canonical c r' = Inr b
      \<longrightarrow> r\<lparr>reg_signature := []\<rparr> = r'\<lparr>reg_signature := []\<rparr>)
    \<and> (qr_canonical c r = Inr b \<and> qr_canonical c r' = Inr b
      \<longrightarrow> (reg_version r, reg_domain r, reg_session_id r, reg_nonce r, reg_iat r, reg_exp r)
        = (reg_version r', reg_domain r', reg_session_id r', reg_nonce r', reg_iat r', reg_exp r'))"
proof (intro conjI impI; elim conjE)
  assume "consent_signed_bytes c a ch name n s t = Inr b" "consent_signed_bytes c a' ch' name' n' s' t' = Inr b"
  then show "(a, ch, name, n, s, t) = (a', ch', name', n', s', t')"
    unfolding consent_signed_bytes_doc by (rule consent_doc.canonical_inject [OF assms])
next
  assume "assertion_canonical c as = Inr b" "assertion_canonical c as' = Inr b"
  then show "as\<lparr>as_signature := []\<rparr> = as'\<lparr>as_signature := []\<rparr>"
    unfolding assertion_canonical_def by (rule assertion_doc.canonical_inject [OF assms])
next
  assume "revocation_canonical c rv = Inr b" "revocation_canonical c rv' = Inr b"
  then show "rv\<lparr>rv_signature := []\<rparr> = rv'\<lparr>rv_signature := []\<rparr>"
    unfolding revocation_canonical_def by (rule revocation_doc.canonical_inject [OF assms])
next
  assume "registration_canonical c r = Inr b" "registration_canonical c r' = Inr b"
  from registration_doc.canonical_inject [OF assms this [unfolded registration_canonical_def]]
  show "r\<lparr>reg_signature := []\<rparr> = r'\<lparr>reg_signature := []\<rparr>" by simp
next
  assume "qr_canonical c r = Inr b" "qr_canonical c r' = Inr b"
  then show "(reg_version r, reg_domain r, reg_session_id r, reg_nonce r, reg_iat r, reg_exp r)
      = (reg_version r', reg_domain r', reg_session_id r', reg_nonce r', reg_iat r', reg_exp r')"
    unfolding qr_canonical_def by (rule qr_doc.canonical_inject [OF assms])
qed

theorem canonical_documents_commit_witness:
  "consent_signed_bytes demo_crates True ''c'' (Some ''Al'') ''n'' ''s'' 5
     \<noteq> consent_signed_bytes demo_crates True ''c'' (Some ''Bo'') ''n'' ''s'' 5"
proof -
  obtain b where "consent_signed_bytes demo_crates True ''c'' (Some ''Al'') ''n'' ''s'' 5 = Inr b"
    using consent_doc.canonical_exists [of quoted "(True, ''c'', Some ''Al'', ''n'', ''s'', 5)"]
    by (auto simp: consent_signed_bytes_doc literal_total_def demo_crates_def quoted_def)
  moreover note canonical_documents_commit [THEN conjunct1, OF demo_literal, of True "''c''" "Some ''Al''"
      "''n''" "''s''" 5 b True "''c''" "Some ''Bo''" "''n''" "''s''" 5]
  ultimately show ?thesis by auto
qed

text \<open>
  C38. What a relay assertion says: when signing succeeds the assertion names the relay as issuer,
  carries exactly the audience, subject, session, nonce, identifier, times and display name it was
  given, is not valid before its issue time, has a well-formed subject and a display name of 1 to
  100 bytes, and its signature verifies under the relay's published key over its canonical bytes.
\<close>

theorem assertion_sign_sound:
  assumes "base64_engine (b64_encode c) (b64_decode c)" "ed25519_ok c key"
    and "assertion_sign c key kid aud sub s n jti iat exp name v = Inr a"
  shows "a\<lparr>as_signature := []\<rparr> = \<lparr>as_version = 1, as_iss = ''https://relay.pseud0.org'', as_aud = aud,
        as_sub = sub, as_session_id = s, as_nonce = n, as_jti = jti, as_iat = iat, as_nbf = iat, as_exp = exp,
        as_display_name = name, as_subject_key_version = v, as_kid = kid, as_signature = []\<rparr>
    \<and> validate_site_account_id sub = Inr () \<and> name \<noteq> [] \<and> length name \<le> 100
    \<and> (\<exists>b. assertion_canonical c a = Inr b
        \<and> ed25519_verify c (base64url_encode c (public_key_raw c key)) b (as_signature a) = Inr ())"
  using assms(3)
proof (rule assertion_sign_InrE)
  fix b assume "assertion_canonical c a = Inr b" and
    "a = (unsigned_assertion kid aud sub s n jti iat exp name v)\<lparr>as_signature := ed25519_sign c key b\<rparr>"
    "validate_site_account_id sub = Inr ()" "validate_display_name name True = Inr ()"
  with ed25519_verify_sign [OF assms(1,2), of b] show ?thesis
    by (simp add: unsigned_assertion_def validate_display_name_def MAX_DISPLAY_NAME_def split: if_splits)
qed

theorem assertion_sign_sound_witness:
  "\<exists>a. assertion_sign demo_crates ''seed'' ''kid'' ''a.org'' (replicate 22 CHR ''s'') (replicate 16 CHR ''i'')
      (replicate 16 CHR ''n'') ''j'' 10 20 ''Al'' 1 = Inr a \<and> as_aud a = ''a.org'' \<and> as_nbf a = 10 \<and> as_exp a = 20"
proof -
  let ?sign = "assertion_sign demo_crates ''seed'' ''kid'' ''a.org'' (replicate 22 CHR ''s'') (replicate 16 CHR ''i'')
      (replicate 16 CHR ''n'') ''j'' 10 20 ''Al'' 1"
  let ?u = "unsigned_assertion ''kid'' ''a.org'' (replicate 22 CHR ''s'') (replicate 16 CHR ''i'')
      (replicate 16 CHR ''n'') ''j'' 10 20 ''Al'' 1"
  obtain b where b: "assertion_canonical demo_crates ?u = Inr b"
    using assertion_doc.canonical_exists [of quoted ?u]
    by (auto simp: assertion_canonical_def literal_total_def demo_crates_def quoted_def)
  have "validate_signature_b64 (ed25519_sign demo_crates ''seed'' b) = Inr ()"
    using base64_engine.enc_signature [OF demo_base64] demo_ed25519 [of "''seed''"]
    by (simp add: ed25519_sign_def base64url_encode_def ed25519_ok_def)
  moreover have "validate_kid ''kid'' = Inr ()" "validate_id (replicate 16 CHR ''i'') = Inr ()"
    "validate_id (replicate 16 CHR ''n'') = Inr ()" "validate_site_account_id (replicate 22 CHR ''s'') = Inr ()"
    "validate_display_name ''Al'' True = Inr ()"
    by code_simp+
  ultimately obtain a where a: "?sign = Inr a"
    using b by (simp add: assertion_sign_eq)
  from assertion_sign_sound [OF demo_base64 demo_ed25519 a, THEN conjunct1]
  have "as_aud (a\<lparr>as_signature := []\<rparr>) = ''a.org''" "as_nbf (a\<lparr>as_signature := []\<rparr>) = 10"
    "as_exp (a\<lparr>as_signature := []\<rparr>) = 20" by simp_all
  with a show ?thesis by simp
qed

text \<open>
  Site metadata is trusted for a domain exactly when it has version 1, names that very domain,
  the domain is valid, the display name is not blank and at most 100 bytes, the public key has 43
  characters, and the signature verifies under that key over the canonical form of the other four
  fields; every refusal is one of the three problem codes of the handler.
\<close>

theorem metadata_accepted_exactly:
  "(validate_for_domain c m d = Inr () \<longleftrightarrow>
      md_version m = 1 \<and> md_domain m = d \<and> validate_domain d = Inr ()
      \<and> \<not> trims_to_empty (md_display_name m) \<and> length (md_display_name m) \<le> 100 \<and> length (md_public_key m) = 43
      \<and> (\<exists>b. canonicalize_object (json_str c) (metadata_fields m) = Inr b
           \<and> ed25519_verify c (md_public_key m) b (md_signature m) = Inr ()))
   \<and> (case validate_for_domain c m d of
        Inl e \<Rightarrow> code e \<in> {UnsupportedVersion, InvalidRequest, DomainVerificationFailed} | Inr _ \<Rightarrow> True)"
proof -
  have dom: "validate_domain x = Inl e \<Longrightarrow> e = Problem InvalidRequest" for x e
    by (simp add: validate_domain_def split: if_splits)
  show ?thesis
    by (auto simp: validate_for_domain_def validate_domain_field_def result_simps PROTOCOL_VERSION_def
        MAX_DISPLAY_NAME_def dest!: dom canonicalize_object_err split: if_splits sum.splits)
qed

text \<open>
  The messages each side may send, written with the languages of the patterns and without the
  validators: what may leave the relay, what it accepts from a room, and the consents refused for
  their key or signature. No challenge and no result is receivable.
\<close>

fun sendable :: "MatrixMessage \<Rightarrow> bool" where
  "sendable (Challenge s n t site d name ch e) \<longleftrightarrow> s \<in> lang ID_RE \<and> n \<in> lang ID_RE \<and> validate_domain d = Inr ()
     \<and> site \<noteq> [] \<and> length site \<le> 100 \<and> length name \<le> 100 \<and> ch \<in> lang CHALLENGE_RE"
| "sendable (Result s n t success account r) \<longleftrightarrow> s \<in> lang ID_RE \<and> n \<in> lang ID_RE
     \<and> pred_option (\<lambda>x. x \<in> lang ACCOUNT_RE) account \<and> pred_option (\<lambda>x. length x \<le> 100) r"
| "sendable (Revocation s n t account r) \<longleftrightarrow> s \<in> lang ID_RE \<and> n \<in> lang ID_RE
     \<and> account \<in> lang ACCOUNT_RE \<and> pred_option (\<lambda>x. length x \<le> 100) r"
| "sendable _ \<longleftrightarrow> True"

fun receivable :: "MatrixMessage \<Rightarrow> bool" where
  "receivable (Request s n t d) \<longleftrightarrow> s \<in> lang ID_RE \<and> n \<in> lang ID_RE \<and> validate_domain d = Inr ()"
| "receivable (Consent s n t a name ch k sg) \<longleftrightarrow> s \<in> lang ID_RE \<and> n \<in> lang ID_RE \<and> ch \<in> lang CHALLENGE_RE
     \<and> starts_with ''did:'' k \<and> length k \<le> 512 \<and> sg \<in> lang SIG_RE
     \<and> (case name of None \<Rightarrow> \<not> a | Some nm \<Rightarrow> a \<and> nm \<noteq> [] \<and> length nm \<le> 100)"
| "receivable (Revocation s n t account r) \<longleftrightarrow> s \<in> lang ID_RE \<and> n \<in> lang ID_RE
     \<and> account \<in> lang ACCOUNT_RE \<and> pred_option (\<lambda>x. length x \<le> 100) r"
| "receivable _ \<longleftrightarrow> False"

fun badly_signed :: "MatrixMessage \<Rightarrow> bool" where
  "badly_signed (Consent s n t a name ch k sg) \<longleftrightarrow> s \<in> lang ID_RE \<and> n \<in> lang ID_RE \<and> ch \<in> lang CHALLENGE_RE
     \<and> \<not> (starts_with ''did:'' k \<and> length k \<le> 512 \<and> sg \<in> lang SIG_RE)"
| "badly_signed _ \<longleftrightarrow> False"

lemmas token_langs = ID_RE_def CHALLENGE_RE_def SIG_RE_def ACCOUNT_RE_def
  id_tok.accepts_iff_lang [symmetric] challenge_tok.accepts_iff_lang [symmetric]
  sig_tok.accepts_iff_lang [symmetric] account_tok.accepts_iff_lang [symmetric]

lemma validate_outbound_exact: "validate_outbound m = (if sendable m then Inr () else err InvalidRequest)"
  by (cases m) (auto simp: validator_defs token_langs MAX_DISPLAY_NAME_def check_opt_def
      simp del: lang.simps split: option.splits)

lemma validate_inbound_exact:
  "validate_inbound m =
     (if receivable m then Inr () else if badly_signed m then err InvalidSignature else err InvalidRequest)"
  by (cases m) (auto simp: validator_defs token_langs MAX_DISPLAY_NAME_def check_opt_def
      simp del: lang.simps split: option.splits bool.splits)

lemma sendable_iff: "sendable m \<longleftrightarrow> validate_outbound m = Inr ()"
  and receivable_iff: "receivable m \<longleftrightarrow> validate_inbound m = Inr ()"
  by (simp_all add: validate_outbound_exact validate_inbound_exact)

lemma demo_json_text:
  assumes "is_ok (write_value quoted (Object fs))" "utf8_valid (projr (write_value quoted (Object fs)))"
    and "strict_ok tree" "plain_value tree = Object (btree_of fs)"
  shows "json_text_ok (demo_crates\<lparr>json_parse := (\<lambda>_. Some tree)\<rparr>) fs (projr (write_value quoted (Object fs)))"
  using assms by (auto simp: json_text_ok_def demo_crates_def is_ok_iff ok_def simp del: write_value.simps)

text \<open>
  C39. The Matrix envelope, for messages whose JSON text fits the size limit. The relay writes a
  message exactly when it is sendable, and everything receivable is sendable. What it has written it
  reads back unchanged when it is receivable, that is a request, consent or revocation with
  well-formed fields. A consent with well-formed tokens and a malformed key identifier or signature
  is refused with \<^verbatim>\<open>invalid_signature\<close>, and everything else with \<^verbatim>\<open>invalid_request\<close>: in
  particular every challenge and every result, which only the relay sends.
\<close>

theorem matrix_roundtrip:
  assumes "base64_engine (b64_encode c) (b64_decode c)" "message_i64 m"
    and "json_text_ok c (message_fields m) t" "length t \<le> 32768"
  shows "(if sendable m then \<exists>body. matrix_encode c m = Inr body \<and> matrix_decode c body =
           (if receivable m then Inr m else if badly_signed m then err InvalidSignature else err InvalidRequest)
        else matrix_encode c m = err InvalidRequest)
    \<and> (receivable m \<longrightarrow> (\<exists>body. matrix_encode c m = Inr body \<and> matrix_decode c body = Inr m))
    \<and> (case m of
         Challenge s n sent site d name ch e \<Rightarrow> \<forall>body. matrix_encode c m = Inr body \<longrightarrow> matrix_decode c body = err InvalidRequest
       | Result s n sent success account r \<Rightarrow> \<forall>body. matrix_encode c m = Inr body \<longrightarrow> matrix_decode c body = err InvalidRequest
       | _ \<Rightarrow> True)"
proof -
  have len: "length t \<le> MAX_DECODED_BODY" using assms(4) by (simp add: MAX_DECODED_BODY_def)
  have enc: "matrix_encode c m =
      (if sendable m then Inr (MATRIX_PREFIX @ base64url_encode c t) else err InvalidRequest)"
    using assms(3) len by (simp add: matrix_encode_def json_text_ok_def validate_outbound_exact)
  have dec: "matrix_decode c (MATRIX_PREFIX @ base64url_encode c t) =
      (if receivable m then Inr m else if badly_signed m then err InvalidSignature else err InvalidRequest)"
    by (simp add: decode_encode [OF assms(1-3) len] validate_inbound_exact)
  have "receivable m \<Longrightarrow> sendable m" by (cases m) auto
  then show ?thesis using enc dec by (cases m) auto
qed

theorem matrix_roundtrip_witness:
  "(\<exists>body. matrix_encode (demo_crates\<lparr>json_parse := (\<lambda>_. Some (TMap
        [(''kind'', TStr ''request''), (''sessionId'', TStr ''session_123456789''), (''nonce'', TStr ''nonce_12345678901''),
         (''sentAt'', TU64 7), (''domain'', TStr ''a.org'')]))\<rparr>)
      (Request ''session_123456789'' ''nonce_12345678901'' 7 ''a.org'') = Inr body
    \<and> matrix_decode (demo_crates\<lparr>json_parse := (\<lambda>_. Some (TMap
        [(''kind'', TStr ''request''), (''sessionId'', TStr ''session_123456789''), (''nonce'', TStr ''nonce_12345678901''),
         (''sentAt'', TU64 7), (''domain'', TStr ''a.org'')]))\<rparr>) body
      = Inr (Request ''session_123456789'' ''nonce_12345678901'' 7 ''a.org''))
   \<and> (\<exists>body. matrix_encode (demo_crates\<lparr>json_parse := (\<lambda>_. Some (TMap
        [(''kind'', TStr ''result''), (''sessionId'', TStr ''session_123456789''), (''nonce'', TStr ''nonce_12345678901''),
         (''sentAt'', TU64 7), (''success'', TBool True), (''siteAccountId'', TNull), (''reason'', TNull)]))\<rparr>)
      (Result ''session_123456789'' ''nonce_12345678901'' 7 True None None) = Inr body
    \<and> matrix_decode (demo_crates\<lparr>json_parse := (\<lambda>_. Some (TMap
        [(''kind'', TStr ''result''), (''sessionId'', TStr ''session_123456789''), (''nonce'', TStr ''nonce_12345678901''),
         (''sentAt'', TU64 7), (''success'', TBool True), (''siteAccountId'', TNull), (''reason'', TNull)]))\<rparr>) body
      = err InvalidRequest)"
proof
  let ?m = "Request ''session_123456789'' ''nonce_12345678901'' 7 ''a.org''"
  let ?tree = "TMap [(''kind'', TStr ''request''), (''sessionId'', TStr ''session_123456789''),
    (''nonce'', TStr ''nonce_12345678901''), (''sentAt'', TU64 7), (''domain'', TStr ''a.org'')]"
  let ?c = "demo_crates\<lparr>json_parse := (\<lambda>_. Some ?tree)\<rparr>"
  let ?t = "projr (write_value quoted (Object (message_fields ?m)))"
  have b64: "base64_engine (b64_encode ?c) (b64_decode ?c)" using demo_base64 by simp
  have "is_ok (write_value quoted (Object (message_fields ?m)))" "utf8_valid ?t" "strict_ok ?tree" by code_simp+
  moreover have "plain_value ?tree = Object (btree_of (message_fields ?m))" by (simp add: btree_of_def json_int_def)
  ultimately have written: "json_text_ok ?c (message_fields ?m) ?t" by (rule demo_json_text)
  have len: "length ?t \<le> 32768" and i64: "message_i64 ?m" by code_simp+
  have "validate_inbound ?m = Inr ()" by code_simp
  then have "receivable ?m" by (simp only: receivable_iff)
  with matrix_roundtrip [OF b64 i64 written len] show "\<exists>body. matrix_encode ?c ?m = Inr body \<and> matrix_decode ?c body = Inr ?m"
    by blast
next
  let ?m = "Result ''session_123456789'' ''nonce_12345678901'' 7 True None None"
  let ?tree = "TMap [(''kind'', TStr ''result''), (''sessionId'', TStr ''session_123456789''),
    (''nonce'', TStr ''nonce_12345678901''), (''sentAt'', TU64 7), (''success'', TBool True), (''siteAccountId'', TNull), (''reason'', TNull)]"
  let ?c = "demo_crates\<lparr>json_parse := (\<lambda>_. Some ?tree)\<rparr>"
  let ?t = "projr (write_value quoted (Object (message_fields ?m)))"
  have b64: "base64_engine (b64_encode ?c) (b64_decode ?c)" using demo_base64 by simp
  have "is_ok (write_value quoted (Object (message_fields ?m)))" "utf8_valid ?t" "strict_ok ?tree" by code_simp+
  moreover have "plain_value ?tree = Object (btree_of (message_fields ?m))" by (simp add: btree_of_def json_int_def json_opt_def)
  ultimately have written: "json_text_ok ?c (message_fields ?m) ?t" by (rule demo_json_text)
  have len: "length ?t \<le> 32768" and i64: "message_i64 ?m" by code_simp+
  have "validate_outbound ?m = Inr ()" by code_simp
  then have "sendable ?m" by (simp only: sendable_iff)
  with matrix_roundtrip [OF b64 i64 written len] show "\<exists>body. matrix_encode ?c ?m = Inr body \<and> matrix_decode ?c body = err InvalidRequest"
    by (simp del: sendable.simps message_fields.simps)
qed

text \<open>
  C40. What a room can make the relay read: a decoded body carries the protocol prefix and at most
  65536 bytes, and is a request, a consent or a revocation whose identifiers match the identifier
  pattern; a consent names a \<^verbatim>\<open>did:\<close> key of at most 512 bytes, has an 86-character signature, and has a
  display name of 1 to 100 bytes exactly when it approves. Every other body is refused with
  \<^verbatim>\<open>invalid_request\<close> or \<^verbatim>\<open>invalid_signature\<close>.
\<close>

theorem matrix_decode_sound:
  "case matrix_decode c body of
     Inl e \<Rightarrow> code e = InvalidRequest \<or> code e = InvalidSignature
   | Inr m \<Rightarrow> starts_with ''pseud0-web-login-v1:'' body \<and> length body \<le> 65536 \<and>
       (case m of
          Request s n t d \<Rightarrow> s \<in> lang ID_RE \<and> n \<in> lang ID_RE \<and> validate_domain d = Inr ()
        | Consent s n t a name ch k sg \<Rightarrow> s \<in> lang ID_RE \<and> n \<in> lang ID_RE \<and> ch \<in> lang CHALLENGE_RE
            \<and> starts_with ''did:'' k \<and> length k \<le> 512 \<and> sg \<in> lang SIG_RE
            \<and> (case name of None \<Rightarrow> \<not> a | Some nm \<Rightarrow> a \<and> nm \<noteq> [] \<and> length nm \<le> 100)
        | Revocation s n t account r \<Rightarrow> s \<in> lang ID_RE \<and> n \<in> lang ID_RE \<and> account \<in> lang ACCOUNT_RE
            \<and> (case r of None \<Rightarrow> True | Some x \<Rightarrow> length x \<le> 100)
        | _ \<Rightarrow> False)"
proof (cases "matrix_decode c body")
  case (Inl e)
  then have "code e = InvalidRequest \<or> code e = InvalidSignature"
    by (auto simp: matrix_decode_def result_simps dest!: base64url_decode_err from_slice_Inl validate_inbound_err
        split: if_splits)
  with Inl show ?thesis by simp
next
  case (Inr m)
  then have "validate_inbound m = Inr ()" "starts_with MATRIX_PREFIX body" "length body \<le> MAX_DECODED_BODY * 2"
    by (auto simp: matrix_decode_def result_simps split: if_splits)
  with validate_inbound_spec [of m] Inr show ?thesis
    by (cases m) (simp_all add: MATRIX_PREFIX_def MAX_DECODED_BODY_def)
qed

end
