(* ===== verification/Store.thy ===== *)
theory Store
  imports Crypto
begin

text \<open>
  \<^verbatim>\<open>src/db/\<close> over the schema of \<^verbatim>\<open>migrations/0001_init.sql\<close>: one record per row type, one list of
  rows per table, one function per SQL statement. A statement takes the database its transaction
  sees and returns its result with the database after it. Unique constraints, \<^verbatim>\<open>ON CONFLICT\<close>,
  \<^verbatim>\<open>COALESCE\<close> and the failure of \<^verbatim>\<open>query_opt\<close> on several rows are written out. Sequences count up
  from 1 and are consumed by conflicting inserts too; \<^verbatim>\<open>NOW()\<close> is an argument in milliseconds.
\<close>

record SessionRow =
  s_id :: int
  s_domain :: string
  s_session_id :: string
  s_nonce_hash :: bytes
  s_nonce_ciphertext :: bytes
  s_iat :: int
  s_exp :: int
  s_requested_display_name :: string
  s_site_display_name :: string
  s_site_public_key :: string
  s_qr_signature :: string
  s_registration_signature :: string
  s_registration_hash :: bytes
  s_state :: string
  s_version :: int
  s_request_event_id :: "string option"
  s_request_room_ciphertext :: "bytes option"
  s_request_sender_ciphertext :: "bytes option"
  s_challenge_hash :: "bytes option"
  s_challenge_expires_at :: "int option"
  s_consent_event_id :: "string option"
  s_display_name_ciphertext :: "bytes option"
  s_assertion_jti :: "string option"
  s_assertion_ciphertext :: "bytes option"
  s_expires_at :: int

record NewSession =
  n_domain :: string
  n_session_id :: string
  n_nonce_hash :: bytes
  n_nonce_ciphertext :: bytes
  n_iat :: int
  n_exp :: int
  n_requested_display_name :: string
  n_site_display_name :: string
  n_site_public_key :: string
  n_qr_signature :: string
  n_registration_signature :: string
  n_registration_hash :: bytes

record GrantRow =
  g_id :: int
  g_domain :: string
  g_subject_hash :: bytes
  g_subject_ciphertext :: bytes
  g_matrix_user_ciphertext :: bytes
  g_session_id :: string
  g_nonce_hash :: bytes
  g_subject_key_version :: int
  g_revoked_at :: "int option"

record DeliveryJob =
  j_id :: int
  j_kind :: string
  j_domain :: string
  j_jti :: string
  j_payload_ciphertext :: bytes
  j_idempotency_key :: string
  j_session_id :: string
  j_nonce_hash :: bytes
  j_attempts :: int
  j_next_retry_at :: "int option"
  j_status :: string

record database =
  sessions :: "SessionRow list"
  replay_request_event_ids :: "(string \<times> int) list"
  replay_challenge_hashes :: "(bytes \<times> int) list"
  replay_consent_event_ids :: "(string \<times> int) list"
  replay_assertion_jtis :: "(string \<times> int) list"
  replay_revocation_jtis :: "(string \<times> int) list"
  grants :: "GrantRow list"
  delivery_jobs :: "DeliveryJob list"
  session_seq :: int
  grant_seq :: int
  job_seq :: int

type_synonym 'a stmt = "database \<Rightarrow> 'a relay_result \<times> database"

definition empty_database :: database where
  "empty_database = \<lparr>sessions = [], replay_request_event_ids = [], replay_challenge_hashes = [],
     replay_consent_event_ids = [], replay_assertion_jtis = [], replay_revocation_jtis = [],
     grants = [], delivery_jobs = [], session_seq = 1, grant_seq = 1, job_seq = 1\<rparr>"

definition coalesce :: "'a option \<Rightarrow> 'a option \<Rightarrow> 'a option" where
  "coalesce x y = (case x of Some v \<Rightarrow> Some v | None \<Rightarrow> y)"

text \<open>\<^verbatim>\<open>query_opt\<close>: an error when more than one row comes back.\<close>

definition query_opt :: "'a list \<Rightarrow> 'a option relay_result" where
  "query_opt rows = (case rows of [] \<Rightarrow> Inr None | [r] \<Rightarrow> Inr (Some r) | _ \<Rightarrow> err InternalError)"

subsection \<open>sessions.rs\<close>

definition is_terminal :: "SessionRow \<Rightarrow> bool" where
  "is_terminal r \<longleftrightarrow> s_state r \<in> {''REFUSED'', ''ASSERTION_DELIVERED'', ''EXPIRED'', ''CANCELLED'', ''REVOKED''}"

definition millis_to_utc :: "crates \<Rightarrow> int \<Rightarrow> int relay_result" where
  "millis_to_utc c ms = (if chrono_millis_ok c ms then Inr ms else err InvalidRequest)"

datatype InsertOutcome = Created | Identical

definition get_by_session :: "string \<Rightarrow> string \<Rightarrow> SessionRow option stmt" where
  "get_by_session domain session_id db =
     (query_opt (filter (\<lambda>r. s_domain r = domain \<and> s_session_id r = session_id) (sessions db)), db)"

definition get_by_session_and_nonce :: "string \<Rightarrow> bytes \<Rightarrow> SessionRow option stmt" where
  "get_by_session_and_nonce session_id nonce_hash db =
     (query_opt (filter (\<lambda>r. s_session_id r = session_id \<and> s_nonce_hash r = nonce_hash) (sessions db)), db)"

definition get_matching :: "string \<Rightarrow> string \<Rightarrow> bytes \<Rightarrow> SessionRow option stmt" where
  "get_matching domain session_id nonce_hash db =
     (query_opt (filter (\<lambda>r. s_domain r = domain \<and> s_session_id r = session_id \<and> s_nonce_hash r = nonce_hash)
        (sessions db)), db)"

definition new_row :: "int \<Rightarrow> int \<Rightarrow> NewSession \<Rightarrow> SessionRow" where
  "new_row i expires_at n =
     \<lparr>s_id = i, s_domain = n_domain n, s_session_id = n_session_id n, s_nonce_hash = n_nonce_hash n,
      s_nonce_ciphertext = n_nonce_ciphertext n, s_iat = n_iat n, s_exp = n_exp n,
      s_requested_display_name = n_requested_display_name n, s_site_display_name = n_site_display_name n,
      s_site_public_key = n_site_public_key n, s_qr_signature = n_qr_signature n,
      s_registration_signature = n_registration_signature n, s_registration_hash = n_registration_hash n,
      s_state = ''SITE_REGISTERED'', s_version = 0, s_request_event_id = None, s_request_room_ciphertext = None,
      s_request_sender_ciphertext = None, s_challenge_hash = None, s_challenge_expires_at = None,
      s_consent_event_id = None, s_display_name_ciphertext = None, s_assertion_jti = None,
      s_assertion_ciphertext = None, s_expires_at = expires_at\<rparr>"

definition insert_registered :: "crates \<Rightarrow> NewSession \<Rightarrow> InsertOutcome stmt" where
  "insert_registered c n db =
     (case millis_to_utc c (wrapping_add (n_exp n) REPLAY_GRACE_MS) of
        Inl e \<Rightarrow> (Inl e, db)
      | Inr expires_at \<Rightarrow>
          let db1 = db\<lparr>session_seq := session_seq db + 1\<rparr> in
          if list_ex (\<lambda>r. s_domain r = n_domain n \<and> (s_session_id r = n_session_id n \<or> s_nonce_hash r = n_nonce_hash n))
               (sessions db)
          then (case get_by_session (n_domain n) (n_session_id n) db1 of
              (Inl e, db2) \<Rightarrow> (Inl e, db2)
            | (Inr (Some existing), db2) \<Rightarrow>
                (if s_registration_hash existing = n_registration_hash n \<and> s_nonce_hash existing = n_nonce_hash n
                    \<and> s_qr_signature existing = n_qr_signature n
                    \<and> s_registration_signature existing = n_registration_signature n
                 then Inr Identical else err SessionConflict, db2)
            | (Inr None, db2) \<Rightarrow> (err SessionConflict, db2))
          else (Inr Created, db1\<lparr>sessions := sessions db @ [new_row (session_seq db) expires_at n]\<rparr>))"

record session_update =
  u_request_event_id :: "string option"
  u_request_room_ciphertext :: "bytes option"
  u_request_sender_ciphertext :: "bytes option"
  u_challenge_hash :: "bytes option"
  u_challenge_expires_at :: "int option"
  u_consent_event_id :: "string option"
  u_display_name_ciphertext :: "bytes option"
  u_assertion_jti :: "string option"
  u_assertion_ciphertext :: "bytes option"

definition no_update :: session_update where
  "no_update = \<lparr>u_request_event_id = None, u_request_room_ciphertext = None, u_request_sender_ciphertext = None,
     u_challenge_hash = None, u_challenge_expires_at = None, u_consent_event_id = None,
     u_display_name_ciphertext = None, u_assertion_jti = None, u_assertion_ciphertext = None\<rparr>"

definition apply_update :: "string \<Rightarrow> session_update \<Rightarrow> SessionRow \<Rightarrow> SessionRow" where
  "apply_update state u r = r\<lparr>s_state := state, s_version := s_version r + 1,
     s_request_event_id := coalesce (u_request_event_id u) (s_request_event_id r),
     s_request_room_ciphertext := coalesce (u_request_room_ciphertext u) (s_request_room_ciphertext r),
     s_request_sender_ciphertext := coalesce (u_request_sender_ciphertext u) (s_request_sender_ciphertext r),
     s_challenge_hash := coalesce (u_challenge_hash u) (s_challenge_hash r),
     s_challenge_expires_at := coalesce (u_challenge_expires_at u) (s_challenge_expires_at r),
     s_consent_event_id := coalesce (u_consent_event_id u) (s_consent_event_id r),
     s_display_name_ciphertext := coalesce (u_display_name_ciphertext u) (s_display_name_ciphertext r),
     s_assertion_jti := coalesce (u_assertion_jti u) (s_assertion_jti r),
     s_assertion_ciphertext := coalesce (u_assertion_ciphertext u) (s_assertion_ciphertext r)\<rparr>"

text \<open>\<^verbatim>\<open>version + 1\<close> is computed as \<^verbatim>\<open>INTEGER\<close>: the statement fails when it overflows.\<close>

definition cas_update :: "int \<Rightarrow> int \<Rightarrow> string \<Rightarrow> session_update \<Rightarrow> bool stmt" where
  "cas_update i expected_version state u db =
     (let hit = (\<lambda>r. s_id r = i \<and> s_version r = expected_version) in
      if list_ex (\<lambda>r. hit r \<and> s_version r = i32_max) (sessions db) then (err InternalError, db)
      else (Inr (length (filter hit (sessions db)) = 1),
            db\<lparr>sessions := map (\<lambda>r. if hit r then apply_update state u r else r) (sessions db)\<rparr>))"

subsection \<open>replay.rs\<close>

text \<open>\<open>insert_text\<close> followed by \<open>map_unique\<close>: insert a key, the given problem if it is there.\<close>

definition insert_key :: "(string \<times> int) list \<Rightarrow> string \<Rightarrow> int \<Rightarrow> ProblemCode \<Rightarrow> unit relay_result \<times> (string \<times> int) list" where
  "insert_key table value expires_at conflict =
     (if value \<in> fst ` set table then (err conflict, table) else (Inr (), table @ [(value, expires_at)]))"

definition reserve_request_event :: "string \<Rightarrow> int \<Rightarrow> unit stmt" where
  "reserve_request_event event_id expires_at db =
     (case insert_key (replay_request_event_ids db) event_id expires_at ChallengeReplayed of
        (r, t) \<Rightarrow> (r, db\<lparr>replay_request_event_ids := t\<rparr>))"

definition reserve_challenge_hash :: "bytes \<Rightarrow> int \<Rightarrow> unit stmt" where
  "reserve_challenge_hash hash expires_at db =
     (case insert_key (replay_challenge_hashes db) hash expires_at ChallengeReplayed of
        (r, t) \<Rightarrow> (r, db\<lparr>replay_challenge_hashes := t\<rparr>))"

definition reserve_consent_event :: "string \<Rightarrow> int \<Rightarrow> unit stmt" where
  "reserve_consent_event event_id expires_at db =
     (case insert_key (replay_consent_event_ids db) event_id expires_at ConsentReplayed of
        (r, t) \<Rightarrow> (r, db\<lparr>replay_consent_event_ids := t\<rparr>))"

definition reserve_assertion_jti :: "string \<Rightarrow> int \<Rightarrow> unit stmt" where
  "reserve_assertion_jti jti expires_at db =
     (case insert_key (replay_assertion_jtis db) jti expires_at AssertionReplayed of
        (r, t) \<Rightarrow> (r, db\<lparr>replay_assertion_jtis := t\<rparr>))"

definition reserve_revocation_jti :: "string \<Rightarrow> int \<Rightarrow> unit stmt" where
  "reserve_revocation_jti jti expires_at db =
     (case insert_key (replay_revocation_jtis db) jti expires_at AssertionReplayed of
        (r, t) \<Rightarrow> (r, db\<lparr>replay_revocation_jtis := t\<rparr>))"

subsection \<open>grants.rs\<close>

definition upsert_grant :: "string \<Rightarrow> bytes \<Rightarrow> bytes \<Rightarrow> bytes \<Rightarrow> string \<Rightarrow> bytes \<Rightarrow> int \<Rightarrow> GrantRow stmt" where
  "upsert_grant domain subject_hash subject_ciphertext matrix_user_ciphertext session_id nonce_hash subject_key_version db =
     (let db1 = db\<lparr>grant_seq := grant_seq db + 1\<rparr>;
          hit = (\<lambda>g. g_domain g = domain \<and> g_subject_hash g = subject_hash);
          upd = (\<lambda>g. g\<lparr>g_session_id := session_id, g_nonce_hash := nonce_hash, g_revoked_at := None\<rparr>);
          fresh = \<lparr>g_id = grant_seq db, g_domain = domain, g_subject_hash = subject_hash,
            g_subject_ciphertext = subject_ciphertext, g_matrix_user_ciphertext = matrix_user_ciphertext,
            g_session_id = session_id, g_nonce_hash = nonce_hash, g_subject_key_version = subject_key_version,
            g_revoked_at = None\<rparr> in
      case find hit (grants db) of
        Some g \<Rightarrow> (Inr (upd g), db1\<lparr>grants := map (\<lambda>g. if hit g then upd g else g) (grants db)\<rparr>)
      | None \<Rightarrow> (Inr fresh, db1\<lparr>grants := grants db @ [fresh]\<rparr>))"

definition find_active_grant :: "string \<Rightarrow> bytes \<Rightarrow> GrantRow option stmt" where
  "find_active_grant domain subject_hash db =
     (query_opt (filter (\<lambda>g. g_domain g = domain \<and> g_subject_hash g = subject_hash) (grants db)), db)"

definition mark_revoked :: "int \<Rightarrow> int \<Rightarrow> unit stmt" where
  "mark_revoked now i db =
     (Inr (), db\<lparr>grants := map (\<lambda>g. if g_id g = i \<and> g_revoked_at g = None then g\<lparr>g_revoked_at := Some now\<rparr> else g) (grants db)\<rparr>)"

subsection \<open>delivery.rs\<close>

definition enqueue :: "int \<Rightarrow> string \<Rightarrow> string \<Rightarrow> string \<Rightarrow> bytes \<Rightarrow> string \<Rightarrow> bytes \<Rightarrow> unit stmt" where
  "enqueue now kind domain jti payload_ciphertext session_id nonce_hash db =
     (let db1 = db\<lparr>job_seq := job_seq db + 1\<rparr> in
      if list_ex (\<lambda>j. j_jti j = jti) (delivery_jobs db) then (Inr (), db1)
      else (Inr (), db1\<lparr>delivery_jobs := delivery_jobs db @
        [\<lparr>j_id = job_seq db, j_kind = kind, j_domain = domain, j_jti = jti, j_payload_ciphertext = payload_ciphertext,
          j_idempotency_key = jti, j_session_id = session_id, j_nonce_hash = nonce_hash, j_attempts = 0,
          j_next_retry_at = Some now, j_status = ''pending''\<rparr>]\<rparr>))"

definition job_due :: "int \<Rightarrow> DeliveryJob \<Rightarrow> bool" where
  "job_due now j \<longleftrightarrow> j_status j = ''pending'' \<and> (case j_next_retry_at j of None \<Rightarrow> True | Some t \<Rightarrow> t \<le> now)"

definition claim_due :: "int \<Rightarrow> nat \<Rightarrow> DeliveryJob list stmt" where
  "claim_due now limit db =
     (let ids = take limit (sort (map j_id (filter (job_due now) (delivery_jobs db))));
          claim = (\<lambda>j. j\<lparr>j_attempts := j_attempts j + 1, j_next_retry_at := Some (now + 5000)\<rparr>) in
      if list_ex (\<lambda>j. j_id j \<in> set ids \<and> j_attempts j = i32_max) (delivery_jobs db) then (err InternalError, db)
      else (Inr (map claim (filter (\<lambda>j. j_id j \<in> set ids) (delivery_jobs db))),
            db\<lparr>delivery_jobs := map (\<lambda>j. if j_id j \<in> set ids then claim j else j) (delivery_jobs db)\<rparr>))"

definition set_job_status :: "string \<Rightarrow> int \<Rightarrow> unit stmt" where
  "set_job_status st i db =
     (Inr (), db\<lparr>delivery_jobs := map (\<lambda>j. if j_id j = i then j\<lparr>j_status := st\<rparr> else j) (delivery_jobs db)\<rparr>)"

definition mark_delivered :: "int \<Rightarrow> unit stmt" where
  "mark_delivered = set_job_status ''delivered''"

definition mark_failed :: "int \<Rightarrow> unit stmt" where
  "mark_failed = set_job_status ''failed''"

end
