(* ===== verification/Store_Laws.thy ===== *)
theory Store_Laws
  imports Store
begin

text \<open>
  The laws of the statements of \<^verbatim>\<open>src/db/\<close>. \<open>schema_ok\<close> is the invariant the schema declares (primary
  keys, unique constraints, sequences ahead of every id); the contract \<open>schema_statement\<close> says a
  statement keeps it and is interpreted on every statement. The contract \<open>replay_table\<close> is what the
  login service relies on for replay protection, interpreted on the five \<^verbatim>\<open>reserve_*\<close> functions.
\<close>

subsection \<open>The schema invariant\<close>

definition unique_ids :: "('r \<Rightarrow> int) \<Rightarrow> int \<Rightarrow> 'r list \<Rightarrow> bool" where
  "unique_ids key n rows \<longleftrightarrow> distinct (map key rows) \<and> (\<forall>r \<in> set rows. key r < n)"

definition schema_ok :: "database \<Rightarrow> bool" where
  "schema_ok db \<longleftrightarrow>
     unique_ids s_id (session_seq db) (sessions db)
     \<and> distinct (map (\<lambda>r. (s_domain r, s_session_id r)) (sessions db))
     \<and> distinct (map (\<lambda>r. (s_domain r, s_nonce_hash r)) (sessions db))
     \<and> distinct (map fst (replay_request_event_ids db)) \<and> distinct (map fst (replay_challenge_hashes db))
     \<and> distinct (map fst (replay_consent_event_ids db)) \<and> distinct (map fst (replay_assertion_jtis db))
     \<and> distinct (map fst (replay_revocation_jtis db))
     \<and> unique_ids g_id (grant_seq db) (grants db)
     \<and> distinct (map (\<lambda>g. (g_domain g, g_subject_hash g)) (grants db))
     \<and> unique_ids j_id (job_seq db) (delivery_jobs db) \<and> distinct (map j_jti (delivery_jobs db))"

lemma schema_ok_empty: "schema_ok empty_database"
  by (simp add: schema_ok_def empty_database_def unique_ids_def)

lemma unique_ids_map:
  "(\<And>r. r \<in> set rows \<Longrightarrow> key (f r) = key r) \<Longrightarrow> unique_ids key n (map f rows) = unique_ids key n rows"
  by (auto simp: unique_ids_def comp_def cong: map_cong)

lemma unique_ids_snoc: "unique_ids key n rows \<Longrightarrow> key r = n \<Longrightarrow> unique_ids key (n + 1) (rows @ [r])"
  by (force simp: unique_ids_def)

lemma unique_ids_mono: "unique_ids key n rows \<Longrightarrow> unique_ids key (n + 1) rows"
  by (force simp: unique_ids_def)

lemma distinct_map_same:
  "(\<And>r. r \<in> set rows \<Longrightarrow> key (f r) = key r) \<Longrightarrow> distinct (map key (map f rows)) = distinct (map key rows)"
  by (auto simp: comp_def cong: map_cong)

locale schema_statement =
  fixes f :: "'a stmt"
  assumes keeps: "schema_ok db \<Longrightarrow> schema_ok (snd (f db))"

subsection \<open>Replay tables\<close>

locale replay_table =
  fixes reserve :: "string \<Rightarrow> int \<Rightarrow> unit stmt"
    and keys :: "database \<Rightarrow> string set"
    and conflict :: ProblemCode
  assumes reserve_result: "fst (reserve k t db) = (if k \<in> keys db then err conflict else Inr ())"
    and reserve_keys: "keys (snd (reserve k t db)) = insert k (keys db)"
    and reserve_keeps: "schema_ok db \<Longrightarrow> schema_ok (snd (reserve k t db))"
begin

fun reserve_all :: "(string \<times> int) list \<Rightarrow> database \<Rightarrow> bool \<times> database" where
  "reserve_all [] db = (True, db)"
| "reserve_all ((k, t) # ks) db =
     (let (r, db1) = reserve k t db; (ok, db2) = reserve_all ks db1 in (r = Inr () \<and> ok, db2))"

lemma reserve_all_iff: "fst (reserve_all ks db) \<longleftrightarrow> distinct (map fst ks) \<and> set (map fst ks) \<inter> keys db = {}"
proof (induction ks arbitrary: db)
  case (Cons e ks)
  obtain k t where e: "e = (k, t)" by (cases e)
  show ?case
    using Cons.IH [of "snd (reserve k t db)"] reserve_result [of k t db] reserve_keys [of k t db]
    by (auto simp: e case_prod_unfold Let_def)
qed simp

lemma second_use_refused: "fst (reserve k t' (snd (reserve k t db))) = err conflict"
  by (simp add: reserve_result reserve_keys)

lemma refused_unless_new: "fst (reserve k t db) = Inr () \<longleftrightarrow> k \<notin> keys db"
  by (simp add: reserve_result)

end

sublocale replay_table \<subseteq> schema_statement "reserve k t" for k t
  by unfold_locales (rule reserve_keeps)

lemma insert_key_result:
  "fst (insert_key table k t e) = (if k \<in> fst ` set table then err e else Inr ())"
  "fst ` set (snd (insert_key table k t e)) = insert k (fst ` set table)"
  "distinct (map fst table) \<Longrightarrow> distinct (map fst (snd (insert_key table k t e)))"
  by (auto simp: insert_key_def)

lemmas reserve_defs = reserve_request_event_def reserve_challenge_hash_def reserve_consent_event_def
  reserve_assertion_jti_def reserve_revocation_jti_def

interpretation request_events: replay_table reserve_request_event
  "\<lambda>db. fst ` set (replay_request_event_ids db)" ChallengeReplayed
  by unfold_locales (simp_all add: reserve_defs insert_key_result schema_ok_def case_prod_unfold)

interpretation challenge_hashes: replay_table reserve_challenge_hash
  "\<lambda>db. fst ` set (replay_challenge_hashes db)" ChallengeReplayed
  by unfold_locales (simp_all add: reserve_defs insert_key_result schema_ok_def case_prod_unfold)

interpretation consent_events: replay_table reserve_consent_event
  "\<lambda>db. fst ` set (replay_consent_event_ids db)" ConsentReplayed
  by unfold_locales (simp_all add: reserve_defs insert_key_result schema_ok_def case_prod_unfold)

interpretation assertion_jtis: replay_table reserve_assertion_jti
  "\<lambda>db. fst ` set (replay_assertion_jtis db)" AssertionReplayed
  by unfold_locales (simp_all add: reserve_defs insert_key_result schema_ok_def case_prod_unfold)

interpretation revocation_jtis: replay_table reserve_revocation_jti
  "\<lambda>db. fst ` set (replay_revocation_jtis db)" AssertionReplayed
  by unfold_locales (simp_all add: reserve_defs insert_key_result schema_ok_def case_prod_unfold)

subsection \<open>The other statements keep the schema\<close>

lemma lookup_snd [simp]: "snd (get_by_session d s db) = db" "snd (get_by_session_and_nonce s n db) = db"
  "snd (get_matching d s n db) = db" "snd (find_active_grant d h db) = db"
  by (simp_all add: get_by_session_def get_by_session_and_nonce_def get_matching_def find_active_grant_def)

lemma apply_update_keys [simp]:
  "s_id (apply_update st u r) = s_id r" "s_domain (apply_update st u r) = s_domain r"
  "s_session_id (apply_update st u r) = s_session_id r" "s_nonce_hash (apply_update st u r) = s_nonce_hash r"
  by (simp_all add: apply_update_def)

interpretation cas_stmt: schema_statement "cas_update i v st u" for i v st u
  by unfold_locales
    (auto simp: cas_update_def Let_def schema_ok_def unique_ids_map distinct_map_same simp del: map_map)

interpretation revoke_stmt: schema_statement "mark_revoked now i" for now i
  by unfold_locales
    (auto simp: mark_revoked_def schema_ok_def unique_ids_map distinct_map_same simp del: map_map)

interpretation claim_stmt: schema_statement "claim_due now limit" for now limit
  by unfold_locales
    (auto simp: claim_due_def Let_def schema_ok_def unique_ids_map distinct_map_same simp del: map_map)

interpretation status_stmt: schema_statement "set_job_status st i" for st i
  by unfold_locales
    (auto simp: set_job_status_def schema_ok_def unique_ids_map distinct_map_same simp del: map_map)

interpretation enqueue_stmt: schema_statement "enqueue now kind d jti p s n" for now kind d jti p s n
  by unfold_locales
    (auto simp: enqueue_def Let_def schema_ok_def list_ex_iff intro: unique_ids_mono intro!: unique_ids_snoc)

interpretation upsert_stmt: schema_statement "upsert_grant d h sc uc s n v" for d h sc uc s n v
proof
  fix db assume ok: "schema_ok db"
  show "schema_ok (snd (upsert_grant d h sc uc s n v db))"
  proof (cases "find (\<lambda>g. g_domain g = d \<and> g_subject_hash g = h) (grants db)")
    case None
    then have "\<forall>g \<in> set (grants db). \<not> (g_domain g = d \<and> g_subject_hash g = h)" by (simp add: find_None_iff)
    with None ok show ?thesis
      by (auto simp: upsert_grant_def Let_def schema_ok_def intro!: unique_ids_snoc)
  next
    case (Some g)
    with ok show ?thesis
      by (auto simp: upsert_grant_def Let_def schema_ok_def unique_ids_map distinct_map_same intro: unique_ids_mono
          simp del: map_map)
  qed
qed

interpretation insert_stmt: schema_statement "insert_registered c n" for c n
proof
  fix db assume ok: "schema_ok db"
  show "schema_ok (snd (insert_registered c n db))"
  proof (cases "millis_to_utc c (wrapping_add (n_exp n) REPLAY_GRACE_MS)")
    case (Inr t)
    with ok show ?thesis
      by (auto simp: insert_registered_def Let_def schema_ok_def list_ex_iff new_row_def get_by_session_def
          split: sum.splits option.splits intro: unique_ids_mono intro!: unique_ids_snoc)
  qed (simp add: insert_registered_def ok)
qed

subsection \<open>Lookups\<close>

lemma query_opt_Some: "query_opt rows = Inr (Some r) \<longleftrightarrow> rows = [r]"
  and query_opt_None: "query_opt rows = Inr None \<longleftrightarrow> rows = []"
  and query_opt_err: "query_opt rows = Inl e \<longleftrightarrow> e = Problem InternalError \<and> 2 \<le> length rows"
  by (cases rows; cases "tl rows"; auto simp: query_opt_def)+

lemma filter_unique:
  assumes "distinct (map key rows)" "\<And>r. P r \<Longrightarrow> key r = k"
  shows "length (filter P rows) \<le> 1"
  using assms(1)
proof (induction rows)
  case (Cons r rows)
  show ?case
  proof (cases "P r")
    case True
    with Cons.prems assms(2) have "\<forall>r' \<in> set rows. \<not> P r'" by (metis distinct.simps(2) image_eqI list.set_map list.simps(9))
    then show ?thesis by (simp add: filter_False)
  qed (use Cons in simp)
qed simp

lemma filter_unique_singleton:
  assumes "length (filter P rows) \<le> 1" "r \<in> set rows" "P r"
  shows "filter P rows = [r]"
proof -
  have "r \<in> set (filter P rows)" using assms by simp
  with assms(1) show ?thesis by (cases "filter P rows") auto
qed

lemma get_matching_memD:
  "fst (get_matching d s n db) = Inr (Some r) \<Longrightarrow>
     r \<in> set (sessions db) \<and> s_domain r = d \<and> s_session_id r = s \<and> s_nonce_hash r = n"
  by (auto simp: get_matching_def query_opt_Some dest!: arg_cong [where f = set])

lemma get_by_session_and_nonce_memD:
  "fst (get_by_session_and_nonce s n db) = Inr (Some r) \<Longrightarrow>
     r \<in> set (sessions db) \<and> s_session_id r = s \<and> s_nonce_hash r = n"
  by (auto simp: get_by_session_and_nonce_def query_opt_Some dest!: arg_cong [where f = set])

lemma find_active_grant_memD:
  "fst (find_active_grant d h db) = Inr (Some g) \<Longrightarrow> g \<in> set (grants db) \<and> g_domain g = d \<and> g_subject_hash g = h"
  by (auto simp: find_active_grant_def query_opt_Some dest!: arg_cong [where f = set])

lemma get_matching_unique:
  assumes "schema_ok db" "r \<in> set (sessions db)"
  shows "fst (get_matching (s_domain r) (s_session_id r) (s_nonce_hash r) db) = Inr (Some r)"
proof -
  have "length (filter (\<lambda>x. s_domain x = s_domain r \<and> s_session_id x = s_session_id r \<and> s_nonce_hash x = s_nonce_hash r)
      (sessions db)) \<le> 1"
    by (rule filter_unique [of "\<lambda>x. (s_domain x, s_session_id x)" _ _ "(s_domain r, s_session_id r)"])
      (use assms in \<open>auto simp: schema_ok_def\<close>)
  from filter_unique_singleton [OF this assms(2)] show ?thesis by (simp add: get_matching_def query_opt_Some)
qed

lemma get_by_session_unique:
  assumes "schema_ok db" "r \<in> set (sessions db)"
  shows "fst (get_by_session (s_domain r) (s_session_id r) db) = Inr (Some r)"
proof -
  have "length (filter (\<lambda>x. s_domain x = s_domain r \<and> s_session_id x = s_session_id r) (sessions db)) \<le> 1"
    by (rule filter_unique [of "\<lambda>x. (s_domain x, s_session_id x)" _ _ "(s_domain r, s_session_id r)"])
      (use assms in \<open>auto simp: schema_ok_def\<close>)
  from filter_unique_singleton [OF this assms(2)] show ?thesis by (simp add: get_by_session_def query_opt_Some)
qed

lemma find_active_grant_unique:
  assumes "schema_ok db" "g \<in> set (grants db)"
  shows "fst (find_active_grant (g_domain g) (g_subject_hash g) db) = Inr (Some g)"
proof -
  have "length (filter (\<lambda>x. g_domain x = g_domain g \<and> g_subject_hash x = g_subject_hash g) (grants db)) \<le> 1"
    by (rule filter_unique [of "\<lambda>x. (g_domain x, g_subject_hash x)" _ _ "(g_domain g, g_subject_hash g)"])
      (use assms in \<open>auto simp: schema_ok_def\<close>)
  from filter_unique_singleton [OF this assms(2)] show ?thesis by (simp add: find_active_grant_def query_opt_Some)
qed

lemma cas_update_once:
  assumes "schema_ok db" "r \<in> set (sessions db)" "s_version r \<noteq> i32_max"
  shows "fst (cas_update (s_id r) (s_version r) st u db) = Inr True"
    and "sessions (snd (cas_update (s_id r) (s_version r) st u db))
           = map (\<lambda>x. if x = r then apply_update st u r else x) (sessions db)"
proof -
  have same: "s_id x = s_id r \<and> s_version x = s_version r \<longleftrightarrow> x = r" if "x \<in> set (sessions db)" for x
    using assms(1,2) that by (auto simp: schema_ok_def unique_ids_def distinct_map inj_on_def)
  have "length (filter (\<lambda>x. s_id x = s_id r \<and> s_version x = s_version r) (sessions db)) \<le> 1"
    by (rule filter_unique [of s_id _ _ "s_id r"]) (use assms(1) in \<open>auto simp: schema_ok_def unique_ids_def\<close>)
  from filter_unique_singleton [OF this assms(2)]
  have one: "filter (\<lambda>x. s_id x = s_id r \<and> s_version x = s_version r) (sessions db) = [r]" by simp
  have no: "\<not> list_ex (\<lambda>x. (s_id x = s_id r \<and> s_version x = s_version r) \<and> s_version x = i32_max) (sessions db)"
    using assms(3) by (auto simp: list_ex_iff)
  show "fst (cas_update (s_id r) (s_version r) st u db) = Inr True"
    using no by (simp add: cas_update_def Let_def one)
  show "sessions (snd (cas_update (s_id r) (s_version r) st u db))
      = map (\<lambda>x. if x = r then apply_update st u r else x) (sessions db)"
    using no same by (auto simp: cas_update_def Let_def)
qed

lemma cas_update_InrD:
  assumes "schema_ok db" "r \<in> set (sessions db)" "fst (cas_update (s_id r) (s_version r) st u db) = Inr b"
  shows "b" and "sessions (snd (cas_update (s_id r) (s_version r) st u db))
           = map (\<lambda>x. if x = r then apply_update st u r else x) (sessions db)"
proof -
  have "s_version r \<noteq> i32_max"
    using assms(2,3) by (auto simp: cas_update_def Let_def list_ex_iff split: if_splits)
  from cas_update_once [OF assms(1,2) this, of st u] assms(3)
  show "b" and "sessions (snd (cas_update (s_id r) (s_version r) st u db))
      = map (\<lambda>x. if x = r then apply_update st u r else x) (sessions db)" by simp_all
qed

subsection \<open>Claiming jobs\<close>

definition claimed :: "int \<Rightarrow> DeliveryJob \<Rightarrow> DeliveryJob" where
  "claimed now j = j\<lparr>j_attempts := j_attempts j + 1, j_next_retry_at := Some (now + 5000)\<rparr>"

lemma claim_due_InrE:
  assumes ok: "schema_ok db" and run: "claim_due now limit db = (Inr jobs, db')"
  obtains ids where "jobs = map (claimed now) (filter (\<lambda>j. j_id j \<in> ids) (delivery_jobs db))"
    "db' = db\<lparr>delivery_jobs := map (\<lambda>j. if j_id j \<in> ids then claimed now j else j) (delivery_jobs db)\<rparr>"
    "\<And>j. j \<in> set (delivery_jobs db) \<Longrightarrow> j_id j \<in> ids \<Longrightarrow> job_due now j" "length jobs \<le> limit"
    "0 < limit \<Longrightarrow> list_ex (job_due now) (delivery_jobs db) \<Longrightarrow> jobs \<noteq> []"
proof -
  let ?due = "map j_id (filter (job_due now) (delivery_jobs db))"
  define ids where "ids = take limit (sort ?due)"
  let ?jobs = "filter (\<lambda>j. j_id j \<in> set ids) (delivery_jobs db)"
  have eqs: "jobs = map (claimed now) ?jobs"
    "db' = db\<lparr>delivery_jobs := map (\<lambda>j. if j_id j \<in> set ids then claimed now j else j) (delivery_jobs db)\<rparr>"
    using run by (auto simp: claim_due_def Let_def ids_def claimed_def split: if_splits)
  have inj: "distinct (map j_id (delivery_jobs db))" using ok by (simp add: schema_ok_def unique_ids_def)
  have due: "job_due now j" if "j \<in> set (delivery_jobs db)" "j_id j \<in> set ids" for j
  proof -
    from that have "j_id j \<in> set (sort ?due)" using set_take_subset [of limit] unfolding ids_def by fastforce
    then obtain j' where "j' \<in> set (delivery_jobs db)" "job_due now j'" "j_id j' = j_id j" by auto
    with that inj show ?thesis by (auto simp: distinct_map inj_on_def)
  qed
  have "length ?jobs = card (j_id ` set ?jobs)"
    using inj distinct_card [of "map j_id ?jobs"] by (simp add: distinct_map_filter)
  also have "\<dots> \<le> card (set ids)" by (intro card_mono) auto
  also have "\<dots> \<le> limit" using card_length [of ids] by (simp add: ids_def)
  finally have len: "length jobs \<le> limit" by (simp add: eqs)
  have "?jobs \<noteq> []" if "0 < limit" "list_ex (job_due now) (delivery_jobs db)"
  proof -
    from that have "set (sort ?due) \<noteq> {}" by (auto simp: list_ex_iff)
    with that(1) have "ids \<noteq> []" by (auto simp: ids_def simp del: set_sort)
    then have "hd ids \<in> set (sort ?due)" unfolding ids_def by (metis hd_in_set in_set_takeD)
    then obtain j where "j \<in> set (delivery_jobs db)" "j_id j = hd ids" by auto
    with \<open>ids \<noteq> []\<close> show ?thesis by (auto simp: filter_empty_conv intro!: bexI [of _ j])
  qed
  then show thesis by (intro that [of "set ids"]) (use eqs due len in auto)
qed

lemma claim_due_total:
  assumes "\<forall>j \<in> set (delivery_jobs db). j_attempts j < i32_max"
  obtains jobs db' where "claim_due now limit db = (Inr jobs, db')"
proof -
  have "\<not> list_ex (\<lambda>j. j_id j \<in> ids \<and> j_attempts j = i32_max) (delivery_jobs db)" for ids
    using assms by (auto simp: list_ex_iff)
  then show thesis using that by (simp add: claim_due_def Let_def)
qed

subsection \<open>What each statement leaves alone\<close>

named_theorems frame \<open>tables a statement does not touch\<close>

lemma reserve_frames [frame]:
  "sessions (snd (reserve_request_event k t db)) = sessions db" "sessions (snd (reserve_challenge_hash k t db)) = sessions db"
  "sessions (snd (reserve_consent_event k t db)) = sessions db" "sessions (snd (reserve_assertion_jti k t db)) = sessions db"
  "sessions (snd (reserve_revocation_jti k t db)) = sessions db"
  "grants (snd (reserve_request_event k t db)) = grants db" "grants (snd (reserve_challenge_hash k t db)) = grants db"
  "grants (snd (reserve_consent_event k t db)) = grants db" "grants (snd (reserve_assertion_jti k t db)) = grants db"
  "grants (snd (reserve_revocation_jti k t db)) = grants db"
  "delivery_jobs (snd (reserve_request_event k t db)) = delivery_jobs db"
  "delivery_jobs (snd (reserve_challenge_hash k t db)) = delivery_jobs db"
  "delivery_jobs (snd (reserve_consent_event k t db)) = delivery_jobs db"
  "delivery_jobs (snd (reserve_assertion_jti k t db)) = delivery_jobs db"
  "delivery_jobs (snd (reserve_revocation_jti k t db)) = delivery_jobs db"
  by (simp_all add: reserve_defs insert_key_def)

lemma cas_frames [frame]:
  "grants (snd (cas_update i v st u db)) = grants db" "delivery_jobs (snd (cas_update i v st u db)) = delivery_jobs db"
  by (simp_all add: cas_update_def Let_def)

lemma grant_frames [frame]:
  "sessions (snd (upsert_grant d h sc uc s n v db)) = sessions db"
  "delivery_jobs (snd (upsert_grant d h sc uc s n v db)) = delivery_jobs db"
  "sessions (snd (mark_revoked now i db)) = sessions db" "delivery_jobs (snd (mark_revoked now i db)) = delivery_jobs db"
  by (simp_all add: upsert_grant_def mark_revoked_def Let_def split: option.splits)

lemma job_frames [frame]:
  "sessions (snd (enqueue now kind d jti p s n db)) = sessions db" "grants (snd (enqueue now kind d jti p s n db)) = grants db"
  "sessions (snd (claim_due now limit db)) = sessions db" "grants (snd (claim_due now limit db)) = grants db"
  "sessions (snd (set_job_status st i db)) = sessions db" "grants (snd (set_job_status st i db)) = grants db"
  by (simp_all add: enqueue_def claim_due_def set_job_status_def Let_def)

text \<open>The keys of the replay tables, which every statement only ever adds to.\<close>

definition replay_keys :: "database \<Rightarrow> string set \<times> string set \<times> string set \<times> string set \<times> string set" where
  "replay_keys db = (fst ` set (replay_request_event_ids db), fst ` set (replay_challenge_hashes db),
     fst ` set (replay_consent_event_ids db), fst ` set (replay_assertion_jtis db), fst ` set (replay_revocation_jtis db))"

definition keys_le :: "database \<Rightarrow> database \<Rightarrow> bool" where
  "keys_le db db' \<longleftrightarrow> (case (replay_keys db, replay_keys db') of ((a, b, c, d, e), (a', b', c', d', e')) \<Rightarrow>
     a \<subseteq> a' \<and> b \<subseteq> b' \<and> c \<subseteq> c' \<and> d \<subseteq> d' \<and> e \<subseteq> e')"

lemma keys_le_refl [simp]: "keys_le db db"
  and keys_le_trans [trans]: "keys_le db1 db2 \<Longrightarrow> keys_le db2 db3 \<Longrightarrow> keys_le db1 db3"
  by (auto simp: keys_le_def split: prod.splits)

lemma keys_grow:
  "keys_le db (snd (reserve_request_event k t db))" "keys_le db (snd (reserve_challenge_hash k t db))"
  "keys_le db (snd (reserve_consent_event k t db))" "keys_le db (snd (reserve_assertion_jti k t db))"
  "keys_le db (snd (reserve_revocation_jti k t db))" "keys_le db (snd (cas_update i v st u db))"
  "keys_le db (snd (upsert_grant d h sc uc s n kv db))" "keys_le db (snd (mark_revoked now i db))"
  "keys_le db (snd (enqueue now kind d jti p s n db))" "keys_le db (snd (claim_due now limit db))"
  "keys_le db (snd (set_job_status st i db))" "keys_le db (snd (insert_registered c ns db))"
  by (auto simp: keys_le_def replay_keys_def reserve_defs insert_key_def cas_update_def upsert_grant_def mark_revoked_def
      enqueue_def claim_due_def set_job_status_def insert_registered_def get_by_session_def Let_def
      split: option.splits sum.splits)

end
