(* ===== verification/Store_Properties.thy ===== *)
theory Store_Properties
  imports Store_Laws Base64_Reference
begin

text \<open>
  The properties of \<^verbatim>\<open>src/db/\<close>: the schema invariant, single use of replay keys, idempotent
  registration, optimistic locking and the claiming of delivery jobs.
\<close>

text \<open>
  The declared schema is an invariant: every statement of the store, whatever its arguments and
  whether it succeeds, keeps all primary keys and unique constraints of the eight tables and keeps
  the sequences ahead of every id.
\<close>

theorem statements_keep_schema:
  assumes "schema_ok db"
  shows "schema_ok (snd (insert_registered c n db)) \<and> schema_ok (snd (cas_update i v st u db))
    \<and> schema_ok (snd (reserve_request_event k t db)) \<and> schema_ok (snd (reserve_challenge_hash k t db))
    \<and> schema_ok (snd (reserve_consent_event k t db)) \<and> schema_ok (snd (reserve_assertion_jti k t db))
    \<and> schema_ok (snd (reserve_revocation_jti k t db)) \<and> schema_ok (snd (upsert_grant d h sc uc s nh kv db))
    \<and> schema_ok (snd (mark_revoked now i db)) \<and> schema_ok (snd (enqueue now kind d jti p s nh db))
    \<and> schema_ok (snd (claim_due now limit db)) \<and> schema_ok (snd (mark_delivered i db))
    \<and> schema_ok (snd (mark_failed i db))"
  unfolding mark_delivered_def mark_failed_def
  using assms by (intro conjI insert_stmt.keeps cas_stmt.keeps request_events.keeps challenge_hashes.keeps
      consent_events.keeps assertion_jtis.keeps revocation_jtis.keeps upsert_stmt.keeps revoke_stmt.keeps
      enqueue_stmt.keeps claim_stmt.keeps status_stmt.keeps)

theorem statements_keep_schema_witness:
  "schema_ok (snd (enqueue 0 ''assertion'' ''a.org'' ''j'' [] ''s'' [] empty_database))"
  using statements_keep_schema [OF schema_ok_empty] by blast

text \<open>
  Replay keys work once: reserving a request event, a challenge hash, a consent event, an
  assertion id or a revocation id succeeds exactly when that key is not yet in its table, and a
  second reservation of the same key in any later transaction is refused with the problem code of
  that table.
\<close>

theorem replay_keys_used_once:
  "(fst (reserve_request_event k t db) = Inr () \<longleftrightarrow> k \<notin> fst ` set (replay_request_event_ids db))
   \<and> fst (reserve_request_event k t' (snd (reserve_request_event k t db))) = err ChallengeReplayed
   \<and> (fst (reserve_challenge_hash k t db) = Inr () \<longleftrightarrow> k \<notin> fst ` set (replay_challenge_hashes db))
   \<and> fst (reserve_challenge_hash k t' (snd (reserve_challenge_hash k t db))) = err ChallengeReplayed
   \<and> (fst (reserve_consent_event k t db) = Inr () \<longleftrightarrow> k \<notin> fst ` set (replay_consent_event_ids db))
   \<and> fst (reserve_consent_event k t' (snd (reserve_consent_event k t db))) = err ConsentReplayed
   \<and> (fst (reserve_assertion_jti k t db) = Inr () \<longleftrightarrow> k \<notin> fst ` set (replay_assertion_jtis db))
   \<and> fst (reserve_assertion_jti k t' (snd (reserve_assertion_jti k t db))) = err AssertionReplayed
   \<and> (fst (reserve_revocation_jti k t db) = Inr () \<longleftrightarrow> k \<notin> fst ` set (replay_revocation_jtis db))
   \<and> fst (reserve_revocation_jti k t' (snd (reserve_revocation_jti k t db))) = err AssertionReplayed"
  by (simp only: request_events.refused_unless_new request_events.second_use_refused
      challenge_hashes.refused_unless_new challenge_hashes.second_use_refused
      consent_events.refused_unless_new consent_events.second_use_refused
      assertion_jtis.refused_unless_new assertion_jtis.second_use_refused
      revocation_jtis.refused_unless_new revocation_jtis.second_use_refused simp_thms)

text \<open>
  Registration is idempotent and never overwrites: with a representable expiry, a session whose
  (domain, session id) and (domain, nonce) are both new is created in state \<^verbatim>\<open>SITE_REGISTERED\<close> and can
  be looked up; otherwise no row changes, and the outcome is \<^verbatim>\<open>Identical\<close> exactly when the stored
  session has the same registration hash, nonce hash and both signatures, else \<^verbatim>\<open>session_conflict\<close>.
\<close>

theorem insert_registered_exact:
  assumes "schema_ok db" "chrono_millis_ok c (wrapping_add (n_exp n) 30000)"
  shows "(case insert_registered c n db of (r, db') \<Rightarrow>
     (if \<exists>x \<in> set (sessions db). s_domain x = n_domain n \<and> (s_session_id x = n_session_id n \<or> s_nonce_hash x = n_nonce_hash n)
      then sessions db' = sessions db \<and>
        r = (if \<exists>x \<in> set (sessions db). s_domain x = n_domain n \<and> s_session_id x = n_session_id n
               \<and> s_registration_hash x = n_registration_hash n \<and> s_nonce_hash x = n_nonce_hash n
               \<and> s_qr_signature x = n_qr_signature n \<and> s_registration_signature x = n_registration_signature n
             then Inr Identical else err SessionConflict)
      else r = Inr Created \<and> sessions db' = sessions db @ [new_row (session_seq db) (wrapping_add (n_exp n) 30000) n]
        \<and> fst (get_matching (n_domain n) (n_session_id n) (n_nonce_hash n) db')
            = Inr (Some (new_row (session_seq db) (wrapping_add (n_exp n) 30000) n))))"
proof -
  let ?row = "new_row (session_seq db) (wrapping_add (n_exp n) 30000) n"
  let ?hit = "\<lambda>x. s_domain x = n_domain n \<and> (s_session_id x = n_session_id n \<or> s_nonce_hash x = n_nonce_hash n)"
  let ?same = "\<lambda>x. s_domain x = n_domain n \<and> s_session_id x = n_session_id n"
  let ?eq = "\<lambda>x. s_registration_hash x = n_registration_hash n \<and> s_nonce_hash x = n_nonce_hash n
    \<and> s_qr_signature x = n_qr_signature n \<and> s_registration_signature x = n_registration_signature n"
  have utc: "millis_to_utc c (wrapping_add (n_exp n) REPLAY_GRACE_MS) = Inr (wrapping_add (n_exp n) 30000)"
    using assms(2) by (simp add: millis_to_utc_def REPLAY_GRACE_MS_def)
  have keep: "schema_ok (snd (insert_registered c n db))" using assms(1) by (rule insert_stmt.keeps)
  show ?thesis
  proof (cases "\<exists>x \<in> set (sessions db). ?hit x")
    case False
    then have ins: "insert_registered c n db = (Inr Created, db\<lparr>session_seq := session_seq db + 1, sessions := sessions db @ [?row]\<rparr>)"
      by (auto simp: insert_registered_def utc Let_def list_ex_iff)
    with keep get_matching_unique [of "snd (insert_registered c n db)" ?row] False show ?thesis
      by (simp add: new_row_def)
  next
    case True
    have lookup: "get_by_session (n_domain n) (n_session_id n) (db\<lparr>session_seq := session_seq db + 1\<rparr>)
        = (fst (get_by_session (n_domain n) (n_session_id n) db), db\<lparr>session_seq := session_seq db + 1\<rparr>)"
      by (simp add: get_by_session_def)
    show ?thesis
    proof (cases "\<exists>x \<in> set (sessions db). ?same x")
      case True
      then obtain x where x: "x \<in> set (sessions db)" "?same x" by blast
      have only: "y = x" if "y \<in> set (sessions db)" "?same y" for y
        using assms(1) x that by (auto simp: schema_ok_def distinct_map inj_on_def)
      have "fst (get_by_session (n_domain n) (n_session_id n) db) = Inr (Some x)"
        using get_by_session_unique [OF assms(1) x(1)] x(2) by simp
      then have ins: "insert_registered c n db =
          (if ?eq x then Inr Identical else err SessionConflict, db\<lparr>session_seq := session_seq db + 1\<rparr>)"
        using \<open>\<exists>x \<in> set (sessions db). ?hit x\<close> by (simp add: insert_registered_def utc Let_def list_ex_iff lookup)
      have "(\<exists>y \<in> set (sessions db). ?same y \<and> ?eq y) \<longleftrightarrow> ?eq x" using x only by blast
      with \<open>\<exists>x \<in> set (sessions db). ?hit x\<close> show ?thesis unfolding ins by simp
    next
      case False
      then have "fst (get_by_session (n_domain n) (n_session_id n) db) = Inr None"
        by (simp add: get_by_session_def query_opt_None filter_empty_conv)
      with True False show ?thesis
        by (auto simp: insert_registered_def utc Let_def list_ex_iff lookup)
    qed
  qed
qed

theorem insert_registered_exact_witness:
  "\<exists>row. insert_registered demo_crates \<lparr>n_domain = ''a.org'', n_session_id = ''s'', n_nonce_hash = ''h'', n_nonce_ciphertext = [],
       n_iat = 1, n_exp = 2, n_requested_display_name = [], n_site_display_name = ''A'', n_site_public_key = [],
       n_qr_signature = [], n_registration_signature = [], n_registration_hash = []\<rparr> empty_database
     = (Inr Created, empty_database\<lparr>session_seq := 2, sessions := [row]\<rparr>) \<and> s_state row = ''SITE_REGISTERED''"
  (is "\<exists>row. insert_registered _ ?n _ = _ \<and> _")
proof -
  have "chrono_millis_ok demo_crates (wrapping_add (n_exp ?n) 30000)"
    by (simp add: demo_crates_def in_i64_def wrapping_add_def)
  from insert_registered_exact [OF schema_ok_empty this]
  have "fst (insert_registered demo_crates ?n empty_database) = Inr Created"
    by (auto simp: empty_database_def split: prod.splits)
  then show ?thesis
    by (auto simp: insert_registered_def empty_database_def Let_def new_row_def millis_to_utc_def split: if_splits)
qed

text \<open>
  Optimistic locking: an update under the row's current version is applied once, raises the
  version by one and touches no other row; a second update under the version first read reports
  no row and changes nothing, so of two handlers that read the same version one loses.
\<close>

theorem cas_update_once_per_version:
  assumes "schema_ok db" "r \<in> set (sessions db)" "s_version r < i32_max"
  shows "case cas_update (s_id r) (s_version r) st u db of (ok1, db1) \<Rightarrow>
     ok1 = Inr True \<and> sessions db1 = map (\<lambda>x. if x = r then apply_update st u r else x) (sessions db)
     \<and> s_version (apply_update st u r) = s_version r + 1
     \<and> cas_update (s_id r) (s_version r) st' u' db1 = (Inr False, db1)"
proof -
  obtain ok1 db1 where c: "cas_update (s_id r) (s_version r) st u db = (ok1, db1)" by fastforce
  have 1: "ok1 = Inr True" "sessions db1 = map (\<lambda>x. if x = r then apply_update st u r else x) (sessions db)"
    using cas_update_once [OF assms(1,2), of st u] assms(3) by (simp_all add: c)
  have v: "s_version (apply_update st u r) = s_version r + 1" by (simp add: apply_update_def)
  have "\<not> (s_id x = s_id r \<and> s_version x = s_version r)" if "x \<in> set (sessions db1)" for x
    using that assms(1,2) v by (auto simp: 1 schema_ok_def unique_ids_def distinct_map inj_on_def split: if_splits)
  note miss = this
  have "map (\<lambda>x. if s_id x = s_id r \<and> s_version x = s_version r then apply_update st' u' x else x) (sessions db1)
      = sessions db1" by (rule map_idI) (use miss in auto)
  with miss have "cas_update (s_id r) (s_version r) st' u' db1 = (Inr False, db1)"
    by (auto simp: cas_update_def Let_def list_ex_iff filter_False)
  with 1 v show ?thesis by (simp add: c)
qed

definition demo_stored :: SessionRow where
  "demo_stored = new_row 1 30002 \<lparr>n_domain = ''a.org'', n_session_id = ''s'', n_nonce_hash = ''h'', n_nonce_ciphertext = [],
     n_iat = 1, n_exp = 2, n_requested_display_name = [], n_site_display_name = ''A'', n_site_public_key = [],
     n_qr_signature = [], n_registration_signature = [], n_registration_hash = []\<rparr>"

theorem cas_update_once_per_version_witness:
  "\<exists>db1. cas_update 1 0 ''REFUSED'' no_update (empty_database\<lparr>session_seq := 2, sessions := [demo_stored]\<rparr>) = (Inr True, db1)
     \<and> cas_update 1 0 ''REVOKED'' no_update db1 = (Inr False, db1)"
proof -
  let ?db = "empty_database\<lparr>session_seq := 2, sessions := [demo_stored]\<rparr>"
  have ok: "schema_ok ?db" "demo_stored \<in> set (sessions ?db)" "s_version demo_stored < i32_max"
    "s_id demo_stored = 1" "s_version demo_stored = 0"
    by (simp_all add: schema_ok_def unique_ids_def empty_database_def demo_stored_def new_row_def)
  from cas_update_once_per_version [OF ok(1-3), of "''REFUSED''" no_update "''REVOKED''" no_update] ok(4,5)
  show ?thesis by (auto split: prod.splits)
qed

text \<open>
  Claiming delivery jobs: a claim returns at most the requested number of jobs, each one pending
  and due when it was claimed, with its attempt counted and its payload, identifier and target
  unchanged; no claimed job is due again within five seconds, so an overlapping tick does not pick
  it up.
\<close>

theorem claim_due_sound:
  assumes "schema_ok db" "\<forall>j \<in> set (delivery_jobs db). j_attempts j < i32_max"
  shows "\<exists>jobs. fst (claim_due now limit db) = Inr jobs \<and> length jobs \<le> limit
    \<and> (\<forall>j \<in> set jobs. \<exists>j0 \<in> set (delivery_jobs db). job_due now j0
         \<and> j = j0\<lparr>j_attempts := j_attempts j0 + 1, j_next_retry_at := Some (now + 5000)\<rparr>
         \<and> j \<in> set (delivery_jobs (snd (claim_due now limit db))) \<and> (\<forall>t < now + 5000. \<not> job_due t j))"
proof -
  obtain jobs db' where run: "claim_due now limit db = (Inr jobs, db')"
    by (rule claim_due_total [OF assms(2)])
  from assms(1) run show ?thesis
  proof (rule claim_due_InrE)
    fix ids
    assume *: "jobs = map (claimed now) (filter (\<lambda>j. j_id j \<in> ids) (delivery_jobs db))"
      "db' = db\<lparr>delivery_jobs := map (\<lambda>j. if j_id j \<in> ids then claimed now j else j) (delivery_jobs db)\<rparr>"
      "\<And>j. j \<in> set (delivery_jobs db) \<Longrightarrow> j_id j \<in> ids \<Longrightarrow> job_due now j" "length jobs \<le> limit"
    have "\<not> job_due t (claimed now j)" if "t < now + 5000" for t j using that by (simp add: job_due_def claimed_def)
    with * run show ?thesis by (auto simp: claimed_def [symmetric])
  qed
qed

theorem claim_due_sound_witness:
  "\<exists>jobs. fst (claim_due 10 5 (snd (enqueue 0 ''assertion'' ''a.org'' ''j'' [] ''s'' [] empty_database))) = Inr jobs \<and> length jobs \<le> 5"
proof -
  let ?db = "snd (enqueue 0 ''assertion'' ''a.org'' ''j'' [] ''s'' [] empty_database)"
  have "schema_ok ?db" by (rule enqueue_stmt.keeps [OF schema_ok_empty])
  moreover have "\<forall>j \<in> set (delivery_jobs ?db). j_attempts j < i32_max"
    by (simp add: enqueue_def empty_database_def Let_def)
  ultimately show ?thesis using claim_due_sound [of ?db 10 5] by blast
qed

end
