(* ===== verification/Ssrf.thy ===== *)
theory Ssrf
  imports Validation "HOL-Library.Word"
begin

text \<open>
  \<^verbatim>\<open>src/outbound/ssrf.rs\<close>: which addresses the relay refuses to connect to. Addresses keep the
  octets and segments of the source as 8- and 16-bit words; the specification reads an address as
  a number and states the refused set as CIDR blocks.
\<close>

unbundle bit_operations_syntax

datatype Ipv4Addr = Ipv4Addr "8 word" "8 word" "8 word" "8 word"
datatype Ipv6Addr = Ipv6Addr "16 word" "16 word" "16 word" "16 word" "16 word" "16 word" "16 word" "16 word"
datatype IpAddr = V4 Ipv4Addr | V6 Ipv6Addr

subsection \<open>The predicates of the standard library\<close>

fun v4_unspecified :: "Ipv4Addr \<Rightarrow> bool" where
  "v4_unspecified (Ipv4Addr a b c d) \<longleftrightarrow> a = 0 \<and> b = 0 \<and> c = 0 \<and> d = 0"

fun v4_loopback :: "Ipv4Addr \<Rightarrow> bool" where
  "v4_loopback (Ipv4Addr a b c d) \<longleftrightarrow> a = 127"

fun v4_private :: "Ipv4Addr \<Rightarrow> bool" where
  "v4_private (Ipv4Addr a b c d) \<longleftrightarrow> a = 10 \<or> (a = 172 \<and> 16 \<le> b \<and> b \<le> 31) \<or> (a = 192 \<and> b = 168)"

fun v4_link_local :: "Ipv4Addr \<Rightarrow> bool" where
  "v4_link_local (Ipv4Addr a b c d) \<longleftrightarrow> a = 169 \<and> b = 254"

fun v4_broadcast :: "Ipv4Addr \<Rightarrow> bool" where
  "v4_broadcast (Ipv4Addr a b c d) \<longleftrightarrow> a = 255 \<and> b = 255 \<and> c = 255 \<and> d = 255"

fun v4_multicast :: "Ipv4Addr \<Rightarrow> bool" where
  "v4_multicast (Ipv4Addr a b c d) \<longleftrightarrow> 224 \<le> a \<and> a \<le> 239"

fun v4_documentation :: "Ipv4Addr \<Rightarrow> bool" where
  "v4_documentation (Ipv4Addr a b c d) \<longleftrightarrow>
     (a = 192 \<and> b = 0 \<and> c = 2) \<or> (a = 198 \<and> b = 51 \<and> c = 100) \<or> (a = 203 \<and> b = 0 \<and> c = 113)"

fun to_ipv4_mapped :: "Ipv6Addr \<Rightarrow> Ipv4Addr option" where
  "to_ipv4_mapped (Ipv6Addr s0 s1 s2 s3 s4 s5 s6 s7) =
     (if s0 = 0 \<and> s1 = 0 \<and> s2 = 0 \<and> s3 = 0 \<and> s4 = 0 \<and> s5 = 0xffff
      then Some (Ipv4Addr (ucast (drop_bit 8 s6)) (ucast s6) (ucast (drop_bit 8 s7)) (ucast s7))
      else None)"

subsection \<open>ssrf.rs\<close>

fun is_blocked_v4 :: "Ipv4Addr \<Rightarrow> bool" where
  "is_blocked_v4 (Ipv4Addr a b c d) \<longleftrightarrow> (let ip = Ipv4Addr a b c d in
     v4_unspecified ip \<or> v4_loopback ip \<or> v4_private ip \<or> v4_link_local ip \<or> v4_broadcast ip
     \<or> v4_multicast ip \<or> v4_documentation ip
     \<or> (a = 100 \<and> 64 \<le> b \<and> b \<le> 127)
     \<or> (a = 192 \<and> b = 0 \<and> c = 0)
     \<or> (a = 198 \<and> 18 \<le> b \<and> b \<le> 19)
     \<or> (a = 169 \<and> b = 254)
     \<or> ip = Ipv4Addr 169 254 169 254
     \<or> ip = Ipv4Addr 0 0 0 0)"

fun is_blocked_v6 :: "Ipv6Addr \<Rightarrow> bool" where
  "is_blocked_v6 (Ipv6Addr s0 s1 s2 s3 s4 s5 s6 s7) \<longleftrightarrow> (let ip = Ipv6Addr s0 s1 s2 s3 s4 s5 s6 s7 in
     case to_ipv4_mapped ip of
       Some v4 \<Rightarrow> is_blocked_v4 v4
     | None \<Rightarrow>
         ip = Ipv6Addr 0 0 0 0 0 0 0 0
         \<or> ip = Ipv6Addr 0 0 0 0 0 0 0 1
         \<or> s0 AND 0xff00 = 0xff00
         \<or> s0 AND 0xfe00 = 0xfc00
         \<or> s0 AND 0xffc0 = 0xfe80
         \<or> s0 = 0x2001 \<and> s1 = 0xdb8
         \<or> ip = Ipv6Addr 0xfd00 0 0 0 0 0 0 0)"

fun is_blocked_ip :: "IpAddr \<Rightarrow> bool" where
  "is_blocked_ip (V4 v4) = is_blocked_v4 v4"
| "is_blocked_ip (V6 v6) = is_blocked_v6 v6"

definition site_url :: "string \<Rightarrow> string \<Rightarrow> (string \<times> string) relay_result" where
  "site_url domain path =
     and_then (validate_domain domain) (\<lambda>_.
       if \<not> starts_with ''/'' path \<or> contains_str ''://'' path \<or> contains_str ''@'' path \<or> contains_str ''#'' path
       then err DomainVerificationFailed
       else Inr (domain, path))"

definition pick_public_address :: "IpAddr list \<Rightarrow> IpAddr relay_result" where
  "pick_public_address resolved = ok_or (Problem DomainVerificationFailed) (find (\<lambda>ip. \<not> is_blocked_ip ip) resolved)"

definition pinned_socket :: "IpAddr \<Rightarrow> IpAddr \<times> nat" where
  "pinned_socket ip = (ip, 443)"

subsection \<open>The refused addresses as CIDR blocks\<close>

definition in_block :: "nat \<Rightarrow> nat \<Rightarrow> nat \<times> nat \<Rightarrow> bool" where
  "in_block w n blk = (case blk of (base, len) \<Rightarrow> n div 2 ^ (w - len) = base div 2 ^ (w - len))"

fun v4_number :: "Ipv4Addr \<Rightarrow> nat" where
  "v4_number (Ipv4Addr a b c d) = unat a * 2 ^ 24 + unat b * 2 ^ 16 + unat c * 2 ^ 8 + unat d"

fun v6_number :: "Ipv6Addr \<Rightarrow> nat" where
  "v6_number (Ipv6Addr s0 s1 s2 s3 s4 s5 s6 s7) =
     unat s0 * 2 ^ 112 + unat s1 * 2 ^ 96 + unat s2 * 2 ^ 80 + unat s3 * 2 ^ 64
     + unat s4 * 2 ^ 48 + unat s5 * 2 ^ 32 + unat s6 * 2 ^ 16 + unat s7"

definition v4_blocks :: "(nat \<times> nat) list" where
  "v4_blocks = map (\<lambda>(ip, len). (v4_number ip, len))
     [(Ipv4Addr 0 0 0 0, 32), (Ipv4Addr 10 0 0 0, 8), (Ipv4Addr 100 64 0 0, 10), (Ipv4Addr 127 0 0 0, 8),
      (Ipv4Addr 169 254 0 0, 16), (Ipv4Addr 172 16 0 0, 12), (Ipv4Addr 192 0 0 0, 24), (Ipv4Addr 192 0 2 0, 24),
      (Ipv4Addr 192 168 0 0, 16), (Ipv4Addr 198 18 0 0, 15), (Ipv4Addr 198 51 100 0, 24),
      (Ipv4Addr 203 0 113 0, 24), (Ipv4Addr 224 0 0 0, 4), (Ipv4Addr 255 255 255 255, 32)]"

text \<open>The prefix of an address of four octets, for each prefix length of the list.\<close>

lemma v4_prefix:
  fixes a b c d :: nat
  assumes "a < 256" "b < 256" "c < 256" "d < 256"
  defines "n \<equiv> a * 2 ^ 24 + b * 2 ^ 16 + c * 2 ^ 8 + d"
  shows "n div 2 ^ (32 - 4) = a div 16"
    and "n div 2 ^ (32 - 8) = a"
    and "n div 2 ^ (32 - 10) = a * 4 + b div 64"
    and "n div 2 ^ (32 - 12) = a * 16 + b div 16"
    and "n div 2 ^ (32 - 15) = a * 128 + b div 2"
    and "n div 2 ^ (32 - 16) = a * 256 + b"
    and "n div 2 ^ (32 - 24) = a * 65536 + b * 256 + c"
    and "n div 2 ^ (32 - 32) = n"
  using assms(1-4) unfolding n_def by simp_all

lemma digit_eq: "x < k \<Longrightarrow> y < k \<Longrightarrow> a * k + x = b * k + y \<longleftrightarrow> a = b \<and> x = (y::nat)"
  by (metis div_mult_self3 mod_mult_self3 add.commute div_less mod_less add.right_neutral less_nat_zero_code)

lemma octet_bounds: "unat (a :: 8 word) < 256" and segment_bounds: "unat (s :: 16 word) < 65536"
  using unsigned_less [of a, where 'a = nat] unsigned_less [of s, where 'a = nat] by simp_all

lemma in_block_prefix:
  fixes a b c d A B C D :: nat
  assumes "a < 256" "b < 256" "c < 256" "d < 256" "A < 256" "B < 256" "C < 256" "D < 256"
  defines "n \<equiv> a * 2 ^ 24 + b * 2 ^ 16 + c * 2 ^ 8 + d" and "m \<equiv> A * 2 ^ 24 + B * 2 ^ 16 + C * 2 ^ 8 + D"
  shows "in_block 32 n (m, 4) \<longleftrightarrow> a div 16 = A div 16"
    and "in_block 32 n (m, 8) \<longleftrightarrow> a = A"
    and "in_block 32 n (m, 10) \<longleftrightarrow> a = A \<and> b div 64 = B div 64"
    and "in_block 32 n (m, 12) \<longleftrightarrow> a = A \<and> b div 16 = B div 16"
    and "in_block 32 n (m, 15) \<longleftrightarrow> a = A \<and> b div 2 = B div 2"
    and "in_block 32 n (m, 16) \<longleftrightarrow> a = A \<and> b = B"
    and "in_block 32 n (m, 24) \<longleftrightarrow> a = A \<and> b = B \<and> c = C"
    and "in_block 32 n (m, 32) \<longleftrightarrow> a = A \<and> b = B \<and> c = C \<and> d = D"
proof -
  note p = v4_prefix [OF assms(1-4), folded n_def] v4_prefix [OF assms(5-8), folded m_def]
  show "in_block 32 n (m, 4) \<longleftrightarrow> a div 16 = A div 16" "in_block 32 n (m, 8) \<longleftrightarrow> a = A"
    unfolding in_block_def prod.case p by simp_all
  show "in_block 32 n (m, 10) \<longleftrightarrow> a = A \<and> b div 64 = B div 64" "in_block 32 n (m, 12) \<longleftrightarrow> a = A \<and> b div 16 = B div 16"
    "in_block 32 n (m, 15) \<longleftrightarrow> a = A \<and> b div 2 = B div 2" "in_block 32 n (m, 16) \<longleftrightarrow> a = A \<and> b = B"
    unfolding in_block_def prod.case p
    by (rule digit_eq; use assms(1-8) in \<open>simp add: div_less_iff_less_mult\<close>)+
  have 24: "x * 65536 + y * 256 + z = X * 65536 + Y * 256 + Z \<longleftrightarrow> x = X \<and> y = Y \<and> z = Z"
    if "y < 256" "z < 256" "Y < 256" "Z < 256" for x y z X Y Z :: nat
  proof -
    have "x * 65536 + y * 256 + z = (x * 256 + y) * 256 + z" "X * 65536 + Y * 256 + Z = (X * 256 + Y) * 256 + Z"
      by simp_all
    then show ?thesis
      using that by (simp only: digit_eq conj_assoc)
  qed
  then show "in_block 32 n (m, 24) \<longleftrightarrow> a = A \<and> b = B \<and> c = C"
    unfolding in_block_def prod.case p using assms(1-8) by blast
  show "in_block 32 n (m, 32) \<longleftrightarrow> a = A \<and> b = B \<and> c = C \<and> d = D"
  proof -
    have "n = (a * 65536 + b * 256 + c) * 256 + d" "m = (A * 65536 + B * 256 + C) * 256 + D"
      by (simp_all add: n_def m_def)
    then show ?thesis
      unfolding in_block_def prod.case p using assms(1-8) by (simp only: digit_eq 24 conj_assoc)
  qed
qed

lemma v4_block_iffs:
  fixes a b c d A B C D :: "8 word"
  shows "in_block 32 (v4_number (Ipv4Addr a b c d)) (v4_number (Ipv4Addr A B C D), 4) \<longleftrightarrow> unat a div 16 = unat A div 16"
    and "in_block 32 (v4_number (Ipv4Addr a b c d)) (v4_number (Ipv4Addr A B C D), 8) \<longleftrightarrow> a = A"
    and "in_block 32 (v4_number (Ipv4Addr a b c d)) (v4_number (Ipv4Addr A B C D), 10) \<longleftrightarrow> a = A \<and> unat b div 64 = unat B div 64"
    and "in_block 32 (v4_number (Ipv4Addr a b c d)) (v4_number (Ipv4Addr A B C D), 12) \<longleftrightarrow> a = A \<and> unat b div 16 = unat B div 16"
    and "in_block 32 (v4_number (Ipv4Addr a b c d)) (v4_number (Ipv4Addr A B C D), 15) \<longleftrightarrow> a = A \<and> unat b div 2 = unat B div 2"
    and "in_block 32 (v4_number (Ipv4Addr a b c d)) (v4_number (Ipv4Addr A B C D), 16) \<longleftrightarrow> a = A \<and> b = B"
    and "in_block 32 (v4_number (Ipv4Addr a b c d)) (v4_number (Ipv4Addr A B C D), 24) \<longleftrightarrow> a = A \<and> b = B \<and> c = C"
    and "in_block 32 (v4_number (Ipv4Addr a b c d)) (v4_number (Ipv4Addr A B C D), 32) \<longleftrightarrow> a = A \<and> b = B \<and> c = C \<and> d = D"
  unfolding v4_number.simps word_unat_eq_iff
  by (rule in_block_prefix; rule octet_bounds)+

lemma range_div: "0 < k \<Longrightarrow> n div k = q \<longleftrightarrow> q * k \<le> n \<and> n < (q + 1) * (k::nat)"
  by (metis Suc_eq_plus1 div_less_iff_less_mult less_eq_div_iff_mult_less_eq less_Suc_eq_le order_antisym_conv order_refl)

lemma octet_ranges:
  fixes b :: "8 word"
  shows "64 \<le> b \<and> b \<le> 127 \<longleftrightarrow> unat b div 64 = unat (64 :: 8 word) div 64"
    and "16 \<le> b \<and> b \<le> 31 \<longleftrightarrow> unat b div 16 = unat (16 :: 8 word) div 16"
    and "18 \<le> b \<and> b \<le> 19 \<longleftrightarrow> unat b div 2 = unat (18 :: 8 word) div 2"
    and "224 \<le> b \<and> b \<le> 239 \<longleftrightarrow> unat b div 16 = unat (224 :: 8 word) div 16"
  by (auto simp: word_le_nat_alt range_div)

lemma is_blocked_v4_blocks: "is_blocked_v4 ip \<longleftrightarrow> list_ex (in_block 32 (v4_number ip)) v4_blocks"
proof (cases ip)
  case (Ipv4Addr a b c d)
  show ?thesis
    unfolding Ipv4Addr v4_blocks_def list.map prod.case list_ex_Nil_iff list_ex_Cons_iff v4_block_iffs is_blocked_v4.simps Let_def
      v4_unspecified.simps v4_loopback.simps v4_private.simps v4_link_local.simps v4_broadcast.simps
      v4_multicast.simps v4_documentation.simps Ipv4Addr.inject octet_ranges
    by (rule iffI; elim disjE conjE; simp)
qed

subsection \<open>IPv6\<close>

definition v6_blocks :: "(nat \<times> nat) list" where
  "v6_blocks = map (\<lambda>(ip, len). (v6_number ip, len))
     [(Ipv6Addr 0 0 0 0 0 0 0 0, 128), (Ipv6Addr 0 0 0 0 0 0 0 1, 128), (Ipv6Addr 0xff00 0 0 0 0 0 0 0, 8),
      (Ipv6Addr 0xfc00 0 0 0 0 0 0 0, 7), (Ipv6Addr 0xfe80 0 0 0 0 0 0 0, 10), (Ipv6Addr 0x2001 0xdb8 0 0 0 0 0 0, 32)]"

lemma masked_eq:
  fixes s v :: "16 word"
  shows "s AND NOT (mask n) = v AND NOT (mask n) \<longleftrightarrow> unat s div 2 ^ n = unat v div 2 ^ n"
proof -
  have cut: "drop_bit n (x AND NOT (mask n)) = drop_bit n x" for x :: "16 word"
    by (rule bit_eqI) (auto simp: bit_simps dest: bit_imp_le_length)
  have keep: "x AND NOT (mask n) = push_bit n (drop_bit n x)" for x :: "16 word"
    by (rule bit_eqI) (auto simp: bit_simps)
  have "unat x div 2 ^ n = unat (drop_bit n x)" for x :: "16 word"
    by (simp only: unat_drop_bit_eq) (simp only: drop_bit_eq_div)
  then show ?thesis by (metis cut keep unsigned_word_eqI)
qed

lemma segment_masks:
  fixes s :: "16 word"
  shows "s AND 0xff00 = 0xff00 \<longleftrightarrow> unat s div 2 ^ 8 = unat (0xff00 :: 16 word) div 2 ^ 8"
    and "s AND 0xfe00 = 0xfc00 \<longleftrightarrow> unat s div 2 ^ 9 = unat (0xfc00 :: 16 word) div 2 ^ 9"
    and "s AND 0xffc0 = 0xfe80 \<longleftrightarrow> unat s div 2 ^ 6 = unat (0xfe80 :: 16 word) div 2 ^ 6"
proof -
  have "NOT (mask 8) = (0xff00 :: 16 word)" "NOT (mask 9) = (0xfe00 :: 16 word)" "NOT (mask 6) = (0xffc0 :: 16 word)"
    by (simp_all add: mask_eq_exp_minus_1)
  then show "s AND 0xff00 = 0xff00 \<longleftrightarrow> unat s div 2 ^ 8 = unat (0xff00 :: 16 word) div 2 ^ 8"
    "s AND 0xfe00 = 0xfc00 \<longleftrightarrow> unat s div 2 ^ 9 = unat (0xfc00 :: 16 word) div 2 ^ 9"
    "s AND 0xffc0 = 0xfe80 \<longleftrightarrow> unat s div 2 ^ 6 = unat (0xfe80 :: 16 word) div 2 ^ 6"
    using masked_eq [of s 8 "0xff00"] masked_eq [of s 9 "0xfc00"] masked_eq [of s 6 "0xfe80"] by simp_all
qed

lemma v6_prefix:
  fixes s0 s1 s2 s3 s4 s5 s6 s7 :: nat
  assumes "s1 < 65536" "s2 < 65536" "s3 < 65536" "s4 < 65536" "s5 < 65536" "s6 < 65536" "s7 < 65536"
  defines "n \<equiv> s0 * 2 ^ 112 + s1 * 2 ^ 96 + s2 * 2 ^ 80 + s3 * 2 ^ 64 + s4 * 2 ^ 48 + s5 * 2 ^ 32 + s6 * 2 ^ 16 + s7"
    and "h \<equiv> ((((s0 * 65536 + s1) * 65536 + s2) * 65536 + s3) * 65536 + s4) * 65536 + s5"
  shows "n div 2 ^ 112 = s0" and "n div 2 ^ 96 = s0 * 65536 + s1"
    and "n div 2 ^ 32 = h" and "n mod 2 ^ 32 = s6 * 65536 + s7" and "n = (h * 65536 + s6) * 65536 + s7"
proof -
  show "n div 2 ^ 112 = s0" "n div 2 ^ 96 = s0 * 65536 + s1" "n div 2 ^ 32 = h"
    using assms(1-7) unfolding n_def h_def by simp_all
  show "n = (h * 65536 + s6) * 65536 + s7" unfolding n_def h_def by simp
  then have "n = (s6 * 65536 + s7) + h * 2 ^ 32" by simp
  then show "n mod 2 ^ 32 = s6 * 65536 + s7" using assms(6,7) by (simp only: mod_mult_self1) simp
qed

lemma v6_block_iffs:
  fixes s0 s1 s2 s3 s4 s5 s6 s7 t0 t1 t2 t3 t4 t5 t6 t7 :: "16 word"
  defines "n \<equiv> v6_number (Ipv6Addr s0 s1 s2 s3 s4 s5 s6 s7)" and "m \<equiv> v6_number (Ipv6Addr t0 t1 t2 t3 t4 t5 t6 t7)"
  shows "in_block 128 n (m, 7) \<longleftrightarrow> unat s0 div 2 ^ 9 = unat t0 div 2 ^ 9"
    and "in_block 128 n (m, 8) \<longleftrightarrow> unat s0 div 2 ^ 8 = unat t0 div 2 ^ 8"
    and "in_block 128 n (m, 10) \<longleftrightarrow> unat s0 div 2 ^ 6 = unat t0 div 2 ^ 6"
    and "in_block 128 n (m, 32) \<longleftrightarrow> s0 = t0 \<and> s1 = t1"
    and "in_block 128 n (m, 128) \<longleftrightarrow> Ipv6Addr s0 s1 s2 s3 s4 s5 s6 s7 = Ipv6Addr t0 t1 t2 t3 t4 t5 t6 t7"
proof -
  note b = segment_bounds
  note p = v6_prefix [where ?s0.0 = "unat s0" and ?s1.0 = "unat s1" and ?s2.0 = "unat s2" and ?s3.0 = "unat s3" and ?s4.0 = "unat s4" and ?s5.0 = "unat s5" and ?s6.0 = "unat s6" and ?s7.0 = "unat s7", OF b b b b b b b, folded v6_number.simps, folded n_def]
    and q = v6_prefix [where ?s0.0 = "unat t0" and ?s1.0 = "unat t1" and ?s2.0 = "unat t2" and ?s3.0 = "unat t3" and ?s4.0 = "unat t4" and ?s5.0 = "unat t5" and ?s6.0 = "unat t6" and ?s7.0 = "unat t7", OF b b b b b b b, folded v6_number.simps, folded m_def]
  have top: "in_block 128 n (m, 16 - k) \<longleftrightarrow> unat s0 div 2 ^ k = unat t0 div 2 ^ k" if "k \<le> 16" for k :: nat
  proof -
    have e: "128 - (16 - k) = 112 + k" using that by simp
    have "x div 2 ^ (112 + k) = x div 2 ^ 112 div 2 ^ k" for x :: nat
      by (simp only: power_add div_mult2_eq)
    then show ?thesis unfolding in_block_def prod.case e by (simp only: p(1) q(1))
  qed
  show "in_block 128 n (m, 7) \<longleftrightarrow> unat s0 div 2 ^ 9 = unat t0 div 2 ^ 9" using top [of 9] by simp
  show "in_block 128 n (m, 8) \<longleftrightarrow> unat s0 div 2 ^ 8 = unat t0 div 2 ^ 8" using top [of 8] by simp
  show "in_block 128 n (m, 10) \<longleftrightarrow> unat s0 div 2 ^ 6 = unat t0 div 2 ^ 6" using top [of 6] by simp
  show "in_block 128 n (m, 32) \<longleftrightarrow> s0 = t0 \<and> s1 = t1"
    using p(2) q(2) unfolding in_block_def prod.case by (simp add: digit_eq [OF b b] word_unat_eq_iff)
  show "in_block 128 n (m, 128) \<longleftrightarrow> Ipv6Addr s0 s1 s2 s3 s4 s5 s6 s7 = Ipv6Addr t0 t1 t2 t3 t4 t5 t6 t7"
    unfolding in_block_def prod.case
    by (subst p(5), subst q(5)) (simp only: diff_self_eq_0 power_0 div_by_1 digit_eq [OF b b] Ipv6Addr.inject word_unat_eq_iff conj_assoc)
qed

lemma mapped_number:
  "v4_number (Ipv4Addr (ucast (drop_bit 8 s6)) (ucast s6) (ucast (drop_bit 8 s7)) (ucast s7)) = unat s6 * 65536 + unat s7"
  for s6 s7 :: "16 word"
proof -
  have hi: "unat (ucast (drop_bit 8 s) :: 8 word) = unat s div 256" for s :: "16 word"
  proof -
    have "unat (ucast (drop_bit 8 s) :: 8 word) = unat s div 256 mod 256"
      by (simp only: unsigned_ucast_eq unat_drop_bit_eq) (simp add: take_bit_eq_mod drop_bit_eq_div)
    also have "\<dots> = unat s div 256"
      using segment_bounds [of s] by (simp add: div_less_iff_less_mult)
    finally show ?thesis .
  qed
  have lo: "unat (ucast s :: 8 word) = unat s mod 256" for s :: "16 word"
    by (simp only: unsigned_ucast_eq) (simp add: take_bit_eq_mod)
  have join: "x div 256 * 256 + x mod 256 = x" for x :: nat by (rule div_mult_mod_eq)
  have "a * 16777216 + b * 65536 = (a * 256 + b) * 65536" for a b :: nat by simp
  from this [of "x div 256" "x mod 256" for x]
  have s6: "x div 256 * 16777216 + x mod 256 * 65536 = x * 65536" for x :: nat unfolding join .
  show ?thesis
    unfolding v4_number.simps hi unfolding lo using s6 [of "unat s6"] join [of "unat s7"] by simp
qed

lemma is_blocked_v6_blocks:
  "is_blocked_v6 ip \<longleftrightarrow>
     (if v6_number ip div 2 ^ 32 = 0xffff then list_ex (in_block 32 (v6_number ip mod 2 ^ 32)) v4_blocks
      else list_ex (in_block 128 (v6_number ip)) v6_blocks)"
proof (cases ip)
  case (Ipv6Addr s0 s1 s2 s3 s4 s5 s6 s7)
  note b = segment_bounds
  note p = v6_prefix [where ?s0.0 = "unat s0" and ?s1.0 = "unat s1" and ?s2.0 = "unat s2" and ?s3.0 = "unat s3"
      and ?s4.0 = "unat s4" and ?s5.0 = "unat s5" and ?s6.0 = "unat s6" and ?s7.0 = "unat s7",
      OF b b b b b b b, folded v6_number.simps]
  have z: "0 < (65536 :: nat)" "0xffff < (65536 :: nat)" by simp_all
  have "((((unat s0 * 65536 + unat s1) * 65536 + unat s2) * 65536 + unat s3) * 65536 + unat s4) * 65536 + unat s5
      = ((((0 * 65536 + 0) * 65536 + 0) * 65536 + 0) * 65536 + 0) * 65536 + 0xffff
      \<longleftrightarrow> unat s0 = 0 \<and> unat s1 = 0 \<and> unat s2 = 0 \<and> unat s3 = 0 \<and> unat s4 = 0 \<and> unat s5 = 0xffff"
    by (simp only: digit_eq b z conj_assoc)
  then have mapped: "v6_number ip div 2 ^ 32 = 0xffff \<longleftrightarrow>
      s0 = 0 \<and> s1 = 0 \<and> s2 = 0 \<and> s3 = 0 \<and> s4 = 0 \<and> s5 = 0xffff"
    unfolding Ipv6Addr p(3) word_unat_eq_iff by simp
  show ?thesis
  proof (cases "v6_number ip div 2 ^ 32 = 0xffff")
    case True
    with mapped show ?thesis
      unfolding Ipv6Addr p(4) is_blocked_v6.simps Let_def to_ipv4_mapped.simps
      by (simp add: is_blocked_v4_blocks mapped_number del: v4_number.simps v6_number.simps)
  next
    case False
    with mapped have none: "to_ipv4_mapped (Ipv6Addr s0 s1 s2 s3 s4 s5 s6 s7) = None"
      by (auto simp: Ipv6Addr)
    have "unat s0 div 2 ^ 9 = unat (0xfc00 :: 16 word) div 2 ^ 9"
      if "Ipv6Addr s0 s1 s2 s3 s4 s5 s6 s7 = Ipv6Addr 0xfd00 0 0 0 0 0 0 0"
      using that by simp
    then show ?thesis
      unfolding if_not_P [OF False] unfolding Ipv6Addr v6_blocks_def list.map prod.case list_ex_Nil_iff
        list_ex_Cons_iff v6_block_iffs is_blocked_v6.simps Let_def none option.case segment_masks
      by blast
  qed
qed

text \<open>
  C28. The refused addresses, exactly: an IPv4 address is refused when it lies in one of fourteen
  CIDR blocks (this host, private use, shared address space, loopback, link local, protocol
  assignments, documentation, benchmarking, multicast, broadcast); an IPv4-mapped IPv6 address
  when its IPv4 part is; any other IPv6 address when it is \<^verbatim>\<open>::\<close>, \<^verbatim>\<open>::1\<close>, multicast, unique local,
  link local or documentation. Nothing else is refused.
\<close>

theorem blocked_addresses_exact:
  "is_blocked_ip ip = (case ip of
      V4 a \<Rightarrow> list_ex (in_block 32 (v4_number a)) v4_blocks
    | V6 a \<Rightarrow> if v6_number a div 2 ^ 32 = 0xffff then list_ex (in_block 32 (v6_number a mod 2 ^ 32)) v4_blocks
              else list_ex (in_block 128 (v6_number a)) v6_blocks)"
  by (cases ip) (simp_all only: is_blocked_ip.simps IpAddr.case is_blocked_v4_blocks is_blocked_v6_blocks)

end
