(* ===== verification/Site_Client.thy ===== *)
theory Site_Client
  imports Ssrf Documents
begin

text \<open>
  \<^verbatim>\<open>src/outbound/site_client.rs\<close>: one HTTPS request to a site, the response reader and the
  metadata fetch. The network is a parameter: a resolver, and for every request an \<open>exchange\<close> that
  says how every awaited operation turns out, in the order of the code. An operation fails by an error, by
  its own timeout or by the total timeout, which can end the request at any of them; the code answers all
  of these alike. A write that fails has sent some of its bytes, a number the exchange gives; for a read
  \<^const>\<open>None\<close> is the failure, and the end of the list of reads is the end of the stream.
\<close>

record SiteResponse =
  sr_status :: nat
  sr_body :: bytes

record exchange =
  ex_connect :: bool
  ex_server_name :: bool
  ex_tls :: bool
  ex_write_head :: "nat option"
  ex_write_body :: "nat option"
  ex_flush :: bool
  ex_first :: "bytes option"
  ex_reads :: "bytes option list"

datatype net_event = Connect IpAddr nat | Send bytes

subsection \<open>Reading a response\<close>

definition CRLF :: string where "CRLF = [CHR 0x0D, CHR 0x0A]"

fun split_once :: "string \<Rightarrow> string \<Rightarrow> (string \<times> string) option" where
  "split_once p [] = (if p = [] then Some ([], []) else None)"
| "split_once p (c # s) =
     (if starts_with p (c # s) then Some ([], drop (length p) (c # s))
      else map_option (\<lambda>(a, b). (c # a, b)) (split_once p s))"

fun split_crlf :: "string \<Rightarrow> string list" where
  "split_crlf [] = [[]]"
| "split_crlf (c # s) =
     (if starts_with CRLF (c # s) then [] # split_crlf (drop 1 s)
      else case split_crlf s of [] \<Rightarrow> [[c]] | l # ls \<Rightarrow> (c # l) # ls)"

text \<open>The first word of a text and what follows it, words being separated by Unicode white space.\<close>

fun take_word :: "string \<Rightarrow> string \<times> string" where
  "take_word [] = ([], [])"
| "take_word (c # s) = (if 0 < ws_len (c # s) then ([], c # s) else (case take_word s of (w, r) \<Rightarrow> (c # w, r)))"

definition next_word :: "string \<Rightarrow> (string \<times> string) option" where
  "next_word s = (case take_word (trim_start s) of (w, r) \<Rightarrow> if w = [] then None else Some (w, r))"

definition second_word :: "string \<Rightarrow> string option" where
  "second_word s = do { (_, r) \<leftarrow> next_word s; (w, _) \<leftarrow> next_word r; Some w }"

definition parse_u16 :: "string \<Rightarrow> nat option" where
  "parse_u16 s =
     (let ds = (case s of [] \<Rightarrow> [] | c # r \<Rightarrow> if c = CHR ''+'' then r else s) in
      if ds \<noteq> [] \<and> list_all (byte_in 48 57) ds \<and> digits_value ds \<le> 65535 then Some (digits_value ds) else None)"

definition ascii_lower :: "char \<Rightarrow> char" where
  "ascii_lower c = (if byte_in 65 90 c then char_of (of_char c + (32::nat)) else c)"

definition parse_http_response :: "bytes \<Rightarrow> nat \<Rightarrow> SiteResponse relay_result" where
  "parse_http_response raw max_body =
     (if \<not> utf8_valid raw then err DomainVerificationFailed
      else and_then (ok_or (Problem DomainVerificationFailed) (split_once (CRLF @ CRLF) raw)) (\<lambda>(header, body).
        let lines = split_crlf header in
        and_then (ok_or (Problem DomainVerificationFailed) (Option.bind (second_word (hd lines)) parse_u16)) (\<lambda>status.
          let redirected = list_ex (\<lambda>line. starts_with ''location:'' (map ascii_lower line)) (tl lines) in
          if redirected \<or> (300 \<le> status \<and> status < 400) then err DomainVerificationFailed
          else if length body > max_body then err DomainVerificationFailed
          else Inr \<lparr>sr_status = status, sr_body = body\<rparr>)))"

fun read_loop :: "nat \<Rightarrow> bytes \<Rightarrow> bytes option list \<Rightarrow> bytes relay_result" where
  "read_loop max_body buf [] = (if length buf > max_body + 1024 then err DomainVerificationFailed else Inr buf)"
| "read_loop max_body buf (r # rs) =
     (if length buf > max_body + 1024 then err DomainVerificationFailed
      else case r of
        None \<Rightarrow> err DomainVerificationFailed
      | Some chunk \<Rightarrow> if chunk = [] then Inr buf else read_loop max_body (buf @ chunk) rs)"

subsection \<open>One request\<close>

definition request_head :: "string \<Rightarrow> string \<Rightarrow> string \<Rightarrow> (string \<times> string) list \<Rightarrow> bytes \<Rightarrow> string" where
  "request_head verb path host extra_headers body =
     verb @ '' '' @ path @ '' HTTP/1.1'' @ CRLF @ ''Host: '' @ host @ CRLF @ ''Accept: application/json'' @ CRLF
     @ ''Connection: close'' @ CRLF
     @ (if body \<noteq> [] then ''Content-Type: application/json'' @ CRLF @ ''Content-Length: '' @ nat_digits (length body) @ CRLF
        else [])
     @ concat (map (\<lambda>(name, value). name @ '': '' @ value @ CRLF) extra_headers)
     @ CRLF"

definition site_request :: "(string \<Rightarrow> IpAddr list relay_result) \<Rightarrow> exchange \<Rightarrow> string \<Rightarrow> string \<Rightarrow> string
    \<Rightarrow> (string \<times> string) list \<Rightarrow> bytes \<Rightarrow> nat \<Rightarrow> SiteResponse relay_result \<times> net_event list" where
  "site_request resolve ex domain path verb extra_headers body max_body =
     (case and_then (site_url domain path) (\<lambda>(host, path).
        and_then (resolve host) (\<lambda>ips.
        and_then (pick_public_address ips) (\<lambda>ip.
          if is_blocked_ip ip then err DomainVerificationFailed else Inr (host, path, ip)))) of
       Inl e \<Rightarrow> (Inl e, [])
     | Inr (host, path, ip) \<Rightarrow>
         let connect = Connect (fst (pinned_socket ip)) (snd (pinned_socket ip));
             head = request_head verb path host extra_headers body in
         if \<not> ex_connect ex \<or> \<not> ex_server_name ex \<or> \<not> ex_tls ex then (err DomainVerificationFailed, [connect])
         else (case ex_write_head ex of
           Some k \<Rightarrow> (err DomainVerificationFailed, [connect, Send (take k head)])
         | None \<Rightarrow> (case if body = [] then None else ex_write_body ex of
             Some k \<Rightarrow> (err DomainVerificationFailed, [connect, Send head, Send (take k body)])
           | None \<Rightarrow>
               (if \<not> ex_flush ex then err DomainVerificationFailed
                else and_then (ok_or (Problem DomainVerificationFailed) (ex_first ex)) (\<lambda>first.
                  and_then (read_loop max_body first (ex_reads ex)) (\<lambda>buf.
                    parse_http_response buf max_body)),
                connect # Send head # (if body = [] then [] else [Send body])))))"

definition fetch_metadata :: "crates \<Rightarrow> (string \<Rightarrow> IpAddr list relay_result) \<Rightarrow> exchange \<Rightarrow> string
    \<Rightarrow> SiteMetadata relay_result \<times> net_event list" where
  "fetch_metadata c resolve ex domain =
     (case site_request resolve ex domain METADATA_PATH ''GET'' [] [] MAX_METADATA_BYTES of
       (Inl e, evs) \<Rightarrow> (Inl e, evs)
     | (Inr response, evs) \<Rightarrow>
         (if sr_status response \<noteq> 200 then err DomainVerificationFailed
          else and_then (map_err (\<lambda>_. Problem DomainVerificationFailed)
              (from_slice (json_parse c) metadata_from_value (sr_body response))) (\<lambda>metadata.
            and_then (validate_for_domain c metadata domain) (\<lambda>_. Inr metadata)), evs))"

definition post_json :: "(string \<Rightarrow> IpAddr list relay_result) \<Rightarrow> exchange \<Rightarrow> string \<Rightarrow> string \<Rightarrow> bytes
    \<Rightarrow> string option \<Rightarrow> SiteResponse relay_result \<times> net_event list" where
  "post_json resolve ex domain path body idempotency_key =
     site_request resolve ex domain path ''POST''
       (case idempotency_key of None \<Rightarrow> [] | Some key \<Rightarrow> [(''Idempotency-Key'', key)]) body MAX_SITE_RESPONSE_BYTES"

subsection \<open>Header lines\<close>

abbreviation plain_line :: "string \<Rightarrow> bool" where
  "plain_line l \<equiv> l \<noteq> [] \<and> CHR 0x0D \<notin> set l"

definition header_block :: "string \<Rightarrow> string list \<Rightarrow> string" where
  "header_block l ls = l @ concat (map (\<lambda>x. CRLF @ x) ls)"

lemma split_once_skip:
  "CHR 0x0D \<notin> set l \<Longrightarrow> split_once (CHR 0x0D # p) (l @ r) = map_option (\<lambda>(a, b). (l @ a, b)) (split_once (CHR 0x0D # p) r)"
proof (induction l)
  case Nil
  show ?case by (simp add: case_prod_unfold option.map_ident)
next
  case (Cons c l)
  then show ?case
    by (auto simp: starts_with_def option.map_comp comp_def case_prod_unfold)
qed

lemma split_once_lines:
  assumes "list_all plain_line ls"
  shows "split_once (CRLF @ CRLF) (concat (map (\<lambda>x. CRLF @ x) ls) @ CRLF @ CRLF @ body)
     = Some (concat (map (\<lambda>x. CRLF @ x) ls), body)"
  using assms
proof (induction ls)
  case Nil
  show ?case by (simp add: CRLF_def starts_with_def)
next
  case (Cons l ls)
  then obtain c l' where l: "l = c # l'" "c \<noteq> CHR 0x0D" "CHR 0x0D \<notin> set l" by (cases l) auto
  have "split_once (CRLF @ CRLF) (l @ r) = map_option (\<lambda>(a, b). (l @ a, b)) (split_once (CRLF @ CRLF) r)" for r
    using split_once_skip [OF l(3)] by (simp add: CRLF_def)
  with Cons l show ?case by (simp add: CRLF_def starts_with_def)
qed

lemma split_crlf_nonempty: "split_crlf s \<noteq> []"
  by (cases s) (auto split: list.splits)

lemma split_crlf_line:
  "CHR 0x0D \<notin> set l \<Longrightarrow> split_crlf (l @ r) = (l @ hd (split_crlf r)) # tl (split_crlf r)"
proof (induction l)
  case Nil
  show ?case using split_crlf_nonempty by simp
next
  case (Cons c l)
  then show ?case by (auto simp: CRLF_def starts_with_def)
qed

lemma split_crlf_lines:
  "list_all plain_line ls \<Longrightarrow> split_crlf (concat (map (\<lambda>x. CRLF @ x) ls)) = [] # ls"
proof (induction ls)
  case (Cons l ls)
  then show ?case
    using split_crlf_line [of l "concat (map (\<lambda>x. CRLF @ x) ls)"] by (simp add: CRLF_def starts_with_def)
qed simp

lemma split_crlf_header:
  assumes "CHR 0x0D \<notin> set l" "list_all plain_line ls"
  shows "split_crlf (header_block l ls) = l # ls"
  unfolding header_block_def split_crlf_line [OF assms(1)] split_crlf_lines [OF assms(2)] by simp

lemma split_once_header:
  assumes "CHR 0x0D \<notin> set l" "list_all plain_line ls"
  shows "split_once (CRLF @ CRLF) (header_block l ls @ CRLF @ CRLF @ body) = Some (header_block l ls, body)"
proof -
  have "split_once (CRLF @ CRLF) (l @ r) = map_option (\<lambda>(a, b). (l @ a, b)) (split_once (CRLF @ CRLF) r)" for r
    using split_once_skip [OF assms(1)] by (simp add: CRLF_def)
  with split_once_lines [OF assms(2)] show ?thesis by (simp add: header_block_def)
qed

subsection \<open>Properties\<close>

lemma pick_public_Inr: "pick_public_address ips = Inr ip \<Longrightarrow> ip \<in> set ips \<and> \<not> is_blocked_ip ip"
  by (auto simp: pick_public_address_def result_simps find_Some_iff)

lemma parse_http_Inr:
  assumes "parse_http_response raw m = Inr r"
  shows "length (sr_body r) \<le> m \<and> \<not> (300 \<le> sr_status r \<and> sr_status r < 400)"
  using assms by (auto simp: parse_http_response_def result_simps Let_def split: if_splits prod.splits)

lemma site_request_events:
  "case site_request resolve ex domain path verb headers body max_body of (r, evs) \<Rightarrow>
     (case evs of [] \<Rightarrow> True
      | e # rest \<Rightarrow> validate_domain domain = Inr () \<and> set rest \<subseteq> range Send \<and>
          (\<exists>ips ip. resolve domain = Inr ips \<and> ip \<in> set ips \<and> \<not> is_blocked_ip ip \<and> e = Connect ip 443))
     \<and> (case r of Inl _ \<Rightarrow> True
        | Inr response \<Rightarrow> evs \<noteq> [] \<and> length (sr_body response) \<le> max_body
            \<and> \<not> (300 \<le> sr_status response \<and> sr_status response < 400))"
  (is "case ?req of (r, evs) \<Rightarrow> ?P r evs")
proof (cases "and_then (site_url domain path) (\<lambda>(host, path). and_then (resolve host) (\<lambda>ips.
      and_then (pick_public_address ips) (\<lambda>ip. if is_blocked_ip ip then err DomainVerificationFailed else Inr (host, path, ip))))")
  case (Inl e)
  then show ?thesis unfolding site_request_def by simp
next
  case (Inr target)
  then obtain ips ip where t: "target = (domain, path, ip)" "validate_domain domain = Inr ()"
    "resolve domain = Inr ips" "ip \<in> set ips" "\<not> is_blocked_ip ip"
    by (auto simp: result_simps site_url_def split: if_splits dest: pick_public_Inr)
  from Inr t show ?thesis
    unfolding site_request_def Inr
    by (auto simp: pinned_socket_def Let_def result_simps split: sum.splits option.splits dest: parse_http_Inr)
qed

text \<open>
  C29. Outbound requests stay public: for every domain, resolver and network, a request opens at most
  one connection, to port 443 of an address the resolver gave for that domain and which is not a
  refused address, and only for a valid domain; everything else it does is send bytes on that
  connection. A response it returns came over that connection, fits the limit and is no redirect.
\<close>

theorem site_request_safe:
  "case site_request resolve ex domain path verb headers body max_body of (r, evs) \<Rightarrow>
     (case evs of [] \<Rightarrow> True
      | e # rest \<Rightarrow> validate_domain domain = Inr () \<and> set rest \<subseteq> range Send \<and>
          (\<exists>ips ip. resolve domain = Inr ips \<and> ip \<in> set ips \<and> \<not> is_blocked_ip ip \<and> e = Connect ip 443))
     \<and> (case r of Inl _ \<Rightarrow> True
        | Inr response \<Rightarrow> evs \<noteq> [] \<and> length (sr_body response) \<le> max_body
            \<and> \<not> (300 \<le> sr_status response \<and> sr_status response < 400))"
  by (rule site_request_events)

text \<open>
  What a site's answer is read as: a response with a numeric status, header lines and a body is
  read back as exactly that status and body; it is refused when it is a redirect, when any header
  is \<^verbatim>\<open>Location\<close> in any letter case, or when the body is longer than the limit.
\<close>

theorem parse_http_response_exact:
  assumes "CHR 0x0D \<notin> set status_line" "second_word status_line = Some w" "parse_u16 w = Some st"
    and "list_all plain_line lines" "utf8_valid (header_block status_line lines @ CRLF @ CRLF @ body)"
  shows "parse_http_response (header_block status_line lines @ CRLF @ CRLF @ body) max_body =
    (if (300 \<le> st \<and> st < 400) \<or> list_ex (\<lambda>l. starts_with ''location:'' (map ascii_lower l)) lines
        \<or> max_body < length body
     then err DomainVerificationFailed else Inr \<lparr>sr_status = st, sr_body = body\<rparr>)"
  using assms
  by (simp add: parse_http_response_def split_once_header split_crlf_header Let_def del: append.assoc split_crlf.simps)

theorem parse_http_response_exact_witness:
  "parse_http_response (header_block ''H 202'' [''S:x''] @ CRLF @ CRLF @ ''{}'') 16384
     = Inr \<lparr>sr_status = 202, sr_body = ''{}''\<rparr>
   \<and> parse_http_response (header_block ''H 202'' [''LOCATION: /x''] @ CRLF @ CRLF @ ''{}'') 16384
     = err DomainVerificationFailed"
proof -
  have sl: "CHR 0x0D \<notin> set ''H 202''" "second_word ''H 202'' = Some ''202''" "parse_u16 ''202'' = Some 202"
    by (simp_all add: second_word_def next_word_def trim_start.simps byte_in_def parse_u16_def digits_value_def)
  have 1: "list_all plain_line [''S:x'']" "utf8_valid (header_block ''H 202'' [''S:x''] @ CRLF @ CRLF @ ''{}'')"
    by (simp_all add: header_block_def CRLF_def byte_in_def)
  have 2: "list_all plain_line [''LOCATION: /x'']"
    "utf8_valid (header_block ''H 202'' [''LOCATION: /x''] @ CRLF @ CRLF @ ''{}'')"
    by (simp_all add: header_block_def CRLF_def byte_in_def)
  have "\<not> starts_with ''location:'' (map ascii_lower ''S:x'')" "starts_with ''location:'' (map ascii_lower ''LOCATION: /x'')"
    by (simp_all add: ascii_lower_def byte_in_def starts_with_def char_of_def bit_0)
  then show ?thesis
    using parse_http_response_exact [OF sl 1, of 16384] parse_http_response_exact [OF sl 2, of 16384] by simp
qed

text \<open>
  Fetched metadata is the site's own: whatever the network does, metadata returned for a domain
  names that domain and passes the full metadata check, self-signature included, and it was read
  by a request that only contacted public addresses.
\<close>

theorem fetch_metadata_trusted:
  "case fetch_metadata c resolve ex domain of (r, evs) \<Rightarrow>
     (case r of Inl _ \<Rightarrow> True
      | Inr m \<Rightarrow> md_domain m = domain \<and> validate_for_domain c m domain = Inr ()
          \<and> (\<exists>ip. \<not> is_blocked_ip ip \<and> hd evs = Connect ip 443 \<and> set (tl evs) \<subseteq> range Send))"
proof -
  obtain r evs where req: "site_request resolve ex domain METADATA_PATH ''GET'' [] [] MAX_METADATA_BYTES = (r, evs)"
    by fastforce
  have dom: "md_domain m = domain" if "validate_for_domain c m domain = Inr ()" for m
    using that by (auto simp: validate_for_domain_def result_simps split: if_splits)
  have evs: "\<exists>ip. \<not> is_blocked_ip ip \<and> hd evs = Connect ip 443 \<and> set (tl evs) \<subseteq> range Send" if "r = Inr x" for x
    using site_request_events [where resolve = resolve and ex = ex and domain = domain and path = METADATA_PATH
        and verb = "''GET''" and headers = "[]" and body = "[]" and max_body = MAX_METADATA_BYTES] that
    by (auto simp: req split: list.splits)
  show ?thesis
    using dom evs by (auto simp: fetch_metadata_def req result_simps split: sum.splits if_splits)
qed

end
