(* ===== verification/App.thy ===== *)
theory App
  imports Store_Laws Site_Client Matrix_Message
begin

text \<open>
  \<^verbatim>\<open>src/state.rs\<close>, \<^verbatim>\<open>src/clock.rs\<close> and the transaction discipline of \<^verbatim>\<open>src/db/mod.rs\<close>: the
  configuration every handler shares, the state outside it (database, metrics, sent notices, posts
  to sites) and the effects a handler composes.

  A handler runs against \<open>oracles\<close>, which say what the outside world answers during that run: the
  readings of the clock, the random bytes, which database calls fail, how the commit turns out,
  what the Matrix sink and the sites answer. The k-th use of an oracle in a handler's text is
  numbered k. A transaction works on a copy of the database; dropping it keeps nothing, committing
  it makes all of it durable. A commit can succeed, fail, or be applied while its acknowledgement
  is lost.
\<close>

subsection \<open>state.rs\<close>

record Metrics =
  registrations :: "64 word"
  registration_failures :: "64 word"
  challenges :: "64 word"
  consents :: "64 word"
  replay_conflicts :: "64 word"
  ssrf_rejections :: "64 word"
  room_violations :: "64 word"
  deliveries :: "64 word"

record AppState =
  crates_of :: crates
  at_rest :: bytes
  lookup_pepper :: bytes
  subject_secret :: bytes
  subject_key_version :: int
  signing_key :: bytes
  signing_kid :: string
  relay_user_id :: string

record OutboundNotice =
  on_room_id :: string
  on_body :: string

record site_post =
  sp_domain :: string
  sp_path :: string
  sp_body :: bytes
  sp_key :: "string option"

record world =
  w_db :: database
  w_metrics :: Metrics
  w_outbox :: "OutboundNotice list"
  w_posts :: "site_post list"
  w_sync_ready :: bool
  w_last_sync :: int

datatype commit_outcome = CommitDone | CommitFailed | CommitUnacknowledged

record oracles =
  o_now :: "nat \<Rightarrow> int"
  o_rng :: "nat \<Rightarrow> nat \<Rightarrow> bytes"
  o_pool :: bool
  o_sql :: "nat \<Rightarrow> bool"
  o_commit :: commit_outcome
  o_db_now :: int
  o_sink :: "string \<Rightarrow> string \<Rightarrow> unit relay_result"
  o_fetch :: "string \<Rightarrow> SiteMetadata relay_result"
  o_post :: "string \<Rightarrow> string \<Rightarrow> bytes \<Rightarrow> string option \<Rightarrow> SiteResponse relay_result"

subsection \<open>Effects\<close>

type_synonym ('s, 'a) eff = "'s \<Rightarrow> 'a relay_result \<times> 's"

definition ret :: "'a \<Rightarrow> ('s, 'a) eff" where
  "ret x s = (Inr x, s)"

definition bnd :: "('s, 'a) eff \<Rightarrow> ('a \<Rightarrow> ('s, 'b) eff) \<Rightarrow> ('s, 'b) eff" where
  "bnd m k s = (case m s of (Inl e, s') \<Rightarrow> (Inl e, s') | (Inr x, s') \<Rightarrow> k x s')"

definition lift_result :: "'a relay_result \<Rightarrow> ('s, 'a) eff" where
  "lift_result r s = (r, s)"

text \<open>Inside a transaction: the uncommitted database and the (never rolled back) metrics.\<close>

record txs =
  tx_db :: database
  tx_metrics :: Metrics

type_synonym 'a tx = "(txs, 'a) eff"
type_synonym 'a io = "(world, 'a) eff"

definition sql :: "oracles \<Rightarrow> nat \<Rightarrow> 'a stmt \<Rightarrow> 'a tx" where
  "sql orc k f s = (if o_sql orc k then (case f (tx_db s) of (r, db) \<Rightarrow> (r, s\<lparr>tx_db := db\<rparr>)) else (err InternalError, s))"

definition counting_conflicts :: "'a tx \<Rightarrow> 'a tx" where
  "counting_conflicts m s =
     (case m s of
        (Inl e, s') \<Rightarrow> (Inl e, s'\<lparr>tx_metrics := (tx_metrics s')\<lparr>replay_conflicts := replay_conflicts (tx_metrics s') + 1\<rparr>\<rparr>)
      | (Inr x, s') \<Rightarrow> (Inr x, s'))"

datatype 'a tx_end = Dropped 'a | Committed 'a

definition run_tx :: "oracles \<Rightarrow> 'a tx_end tx \<Rightarrow> 'a io" where
  "run_tx orc body w =
     (if \<not> o_pool orc then (err InternalError, w)
      else case body \<lparr>tx_db = w_db w, tx_metrics = w_metrics w\<rparr> of
        (Inl e, s) \<Rightarrow> (Inl e, w\<lparr>w_metrics := tx_metrics s\<rparr>)
      | (Inr (Dropped x), s) \<Rightarrow> (Inr x, w\<lparr>w_metrics := tx_metrics s\<rparr>)
      | (Inr (Committed x), s) \<Rightarrow>
          (case o_commit orc of
             CommitDone \<Rightarrow> (Inr x, w\<lparr>w_db := tx_db s, w_metrics := tx_metrics s\<rparr>)
           | CommitFailed \<Rightarrow> (err InternalError, w\<lparr>w_metrics := tx_metrics s\<rparr>)
           | CommitUnacknowledged \<Rightarrow> (err InternalError, w\<lparr>w_db := tx_db s, w_metrics := tx_metrics s\<rparr>)))"

text \<open>\<^verbatim>\<open>state.at_rest.encrypt\<close> with the nonce drawn as the k-th random value.\<close>

definition at_rest_encrypt :: "AppState \<Rightarrow> oracles \<Rightarrow> nat \<Rightarrow> bytes \<Rightarrow> bytes relay_result" where
  "at_rest_encrypt app orc k plaintext = encrypt (crates_of app) (at_rest app) (o_rng orc k NONCE_LEN) plaintext"

text \<open>\<^verbatim>\<open>MessageSink::send_notice\<close>: a notice the sink accepted is recorded.\<close>

definition send_notice :: "oracles \<Rightarrow> string \<Rightarrow> string \<Rightarrow> unit io" where
  "send_notice orc room_id body w =
     (case o_sink orc room_id body of
        Inl e \<Rightarrow> (Inl e, w)
      | Inr _ \<Rightarrow> (Inr (), w\<lparr>w_outbox := w_outbox w @ [\<lparr>on_room_id = room_id, on_body = body\<rparr>]\<rparr>))"

definition inc :: "(Metrics \<Rightarrow> Metrics) \<Rightarrow> unit io" where
  "inc f w = (Inr (), w\<lparr>w_metrics := f (w_metrics w)\<rparr>)"

subsection \<open>Inversion\<close>

named_theorems eff_simps \<open>inversion of effects\<close>

lemma ret_eq [eff_simps]: "ret x s = (r, s') \<longleftrightarrow> r = Inr x \<and> s' = s"
  by (auto simp: ret_def)

lemma lift_result_eq [eff_simps]: "lift_result x s = (r, s') \<longleftrightarrow> x = r \<and> s' = s"
  by (auto simp: lift_result_def)

lemma bnd_eq_Inr [eff_simps]: "bnd m k s = (Inr y, s') \<longleftrightarrow> (\<exists>x s1. m s = (Inr x, s1) \<and> k x s1 = (Inr y, s'))"
  by (auto simp: bnd_def split: prod.splits sum.splits)

lemma sql_eq_Inr [eff_simps]:
  "sql orc k f s = (Inr x, s') \<longleftrightarrow> o_sql orc k \<and> fst (f (tx_db s)) = Inr x \<and> s' = s\<lparr>tx_db := snd (f (tx_db s))\<rparr>"
  by (auto simp: sql_def split: prod.splits)

lemma counting_conflicts_eq_Inr [eff_simps]: "counting_conflicts m s = (Inr x, s') \<longleftrightarrow> m s = (Inr x, s')"
  by (auto simp: counting_conflicts_def split: prod.splits sum.splits)

lemma run_tx_db:
  assumes "run_tx orc body w = (r, w')"
  shows "w_db w' = w_db w \<or> (\<exists>x s. body \<lparr>tx_db = w_db w, tx_metrics = w_metrics w\<rparr> = (Inr (Committed x), s)
    \<and> w_db w' = tx_db s \<and> o_commit orc \<noteq> CommitFailed)"
  using assms
  by (auto simp: run_tx_def split: if_splits prod.splits sum.splits tx_end.splits commit_outcome.splits)

lemma run_tx_Inr:
  assumes "run_tx orc body w = (Inr x, w')"
  obtains s where "body \<lparr>tx_db = w_db w, tx_metrics = w_metrics w\<rparr> = (Inr (Dropped x), s)" "w' = w\<lparr>w_metrics := tx_metrics s\<rparr>"
  | s where "body \<lparr>tx_db = w_db w, tx_metrics = w_metrics w\<rparr> = (Inr (Committed x), s)"
    "w' = w\<lparr>w_db := tx_db s, w_metrics := tx_metrics s\<rparr>"
  using assms
  by (auto simp: run_tx_def split: if_splits prod.splits sum.splits tx_end.splits commit_outcome.splits)

lemma run_tx_frame:
  assumes "run_tx orc body w = (r, w')"
  shows "w_outbox w' = w_outbox w" "w_posts w' = w_posts w" "w_sync_ready w' = w_sync_ready w" "w_last_sync w' = w_last_sync w"
  using assms
  by (auto simp: run_tx_def split: if_splits prod.splits sum.splits tx_end.splits commit_outcome.splits)

lemma send_notice_db: "send_notice orc room body w = (r, w') \<Longrightarrow> w_db w' = w_db w \<and> w_posts w' = w_posts w"
  by (auto simp: send_notice_def split: sum.splits)

lemma inc_db: "inc f w = (r, w') \<Longrightarrow> w_db w' = w_db w \<and> w_posts w' = w_posts w \<and> w_outbox w' = w_outbox w \<and> r = Inr ()"
  by (auto simp: inc_def)

text \<open>A property of the database that every step of a transaction keeps is kept by the transaction.\<close>

definition keeps_db :: "(database \<Rightarrow> bool) \<Rightarrow> 'a tx \<Rightarrow> bool" where
  "keeps_db I m \<longleftrightarrow> (\<forall>s. I (tx_db s) \<longrightarrow> I (tx_db (snd (m s))))"

lemma keeps_ret [intro]: "keeps_db I (ret x)" and keeps_lift [intro]: "keeps_db I (lift_result r)"
  by (simp_all add: keeps_db_def ret_def lift_result_def)

lemma keeps_bnd [intro]: "keeps_db I m \<Longrightarrow> (\<And>x. keeps_db I (k x)) \<Longrightarrow> keeps_db I (bnd m k)"
  unfolding keeps_db_def bnd_def by (force split: prod.splits sum.splits)

lemma keeps_sql [intro]: "(\<And>db. I db \<Longrightarrow> I (snd (f db))) \<Longrightarrow> keeps_db I (sql orc k f)"
  unfolding keeps_db_def sql_def by (auto split: prod.splits) (metis prod.sel(2))

lemma keeps_counting [intro]: "keeps_db I m \<Longrightarrow> keeps_db I (counting_conflicts m)"
  unfolding keeps_db_def counting_conflicts_def by (force split: prod.splits sum.splits)

lemma run_tx_keeps:
  assumes "keeps_db I body" "I (w_db w)" "run_tx orc body w = (r, w')"
  shows "I (w_db w')"
  using run_tx_db [OF assms(3)] assms(1,2) unfolding keeps_db_def
  by (metis prod.sel(2) txs.select_convs(1))

text \<open>Effects that leave the database alone.\<close>

definition quiet :: "'a io \<Rightarrow> bool" where
  "quiet m \<longleftrightarrow> (\<forall>w. w_db (snd (m w)) = w_db w \<and> w_posts (snd (m w)) = w_posts w)"

lemma quiet_ret [intro, simp]: "quiet (ret x)" and quiet_lift [intro, simp]: "quiet (lift_result r)"
  and quiet_inc [intro, simp]: "quiet (inc f)"
  by (simp_all add: quiet_def ret_def lift_result_def inc_def)

lemma quiet_send [intro, simp]: "quiet (send_notice orc room body)"
  by (simp add: quiet_def send_notice_def split: sum.splits)

lemma quiet_bnd [intro]: "quiet m \<Longrightarrow> (\<And>x. quiet (k x)) \<Longrightarrow> quiet (bnd m k)"
  unfolding quiet_def bnd_def by (auto split: prod.splits sum.splits) (metis prod.sel(2))+

lemma lift_then:
  "bnd (lift_result x) k s = (case x of Inl e \<Rightarrow> (Inl e, s) | Inr v \<Rightarrow> k v s)"
  by (simp add: bnd_def lift_result_def split: sum.splits)

lemma run_tx_then_quiet:
  assumes "bnd (run_tx orc body) k w = (r, w')" "\<And>x. quiet (k x)"
  shows "w_db w' = w_db w \<or> (\<exists>x s. body \<lparr>tx_db = w_db w, tx_metrics = w_metrics w\<rparr> = (Inr (Committed x), s)
    \<and> w_db w' = tx_db s \<and> o_commit orc \<noteq> CommitFailed)"
proof -
  obtain r1 w1 where t: "run_tx orc body w = (r1, w1)" by fastforce
  have "w_db w' = w_db w1"
    using assms by (auto simp: bnd_def t quiet_def split: sum.splits) (metis prod.sel(2))
  with run_tx_db [OF t] show ?thesis by simp
qed

end
