(* ===== verification/Room_Policy.thy ===== *)
theory Room_Policy
  imports Relay_Error
begin

text \<open>
  \<^verbatim>\<open>src/room_policy.rs\<close> (what room the relay talks in), \<^verbatim>\<open>src/matrix/rooms.rs\<close> (the snapshots it
  takes of a room) and the invitation loop of \<^verbatim>\<open>src/matrix/client.rs\<close>. The Matrix SDK is a
  parameter: \<open>sdk_room\<close> holds what its calls on one room return, \<^const>\<open>None\<close> for an error.
\<close>

subsection \<open>room_policy.rs\<close>

record RoomSnapshot =
  rs_encrypted :: bool
  rs_is_direct :: bool
  rs_members :: "string list"
  rs_sender :: string
  rs_relay_user_id :: string

record InviteSnapshot =
  is_encrypted :: bool
  is_encryption_unknown :: bool
  is_is_direct :: bool
  is_joined_count :: nat
  is_invited_count :: nat
  is_members :: "string list"
  is_relay_user_id :: string

datatype RoomPolicyViolation = Unencrypted | UnexpectedMember | UnexpectedSender | Guest

definition is_guest :: "string \<Rightarrow> bool" where
  "is_guest m \<longleftrightarrow> ends_with '':guest'' m \<or> contains_str ''guest'' m"

definition check_room :: "RoomSnapshot \<Rightarrow> (RoomPolicyViolation, unit) result" where
  "check_room snapshot =
     (if \<not> rs_encrypted snapshot then Inl Unencrypted
      else if length (rs_members snapshot) \<noteq> 2 then Inl UnexpectedMember
      else let relay = (if rs_relay_user_id snapshot = [] then MATRIX_USER_ID else rs_relay_user_id snapshot) in
        if \<not> list_ex (\<lambda>m. m = relay) (rs_members snapshot) then Inl UnexpectedMember
        else if list_ex is_guest (rs_members snapshot) then Inl Guest
        else if rs_sender snapshot = relay \<or> \<not> list_ex (\<lambda>m. m = rs_sender snapshot) (rs_members snapshot)
        then Inl UnexpectedSender
        else Inr ())"

definition check_invite :: "InviteSnapshot \<Rightarrow> (RoomPolicyViolation, unit) result" where
  "check_invite snapshot =
     (if \<not> is_encrypted snapshot \<and> \<not> is_encryption_unknown snapshot then Inl Unencrypted
      else let summary_unknown = (is_joined_count snapshot = 0 \<and> is_invited_count snapshot = 0) in
        if \<not> summary_unknown \<and> (is_joined_count snapshot \<noteq> 1 \<or> is_invited_count snapshot \<noteq> 1)
        then Inl UnexpectedMember
        else if \<not> list_ex (\<lambda>m. m = is_relay_user_id snapshot) (is_members snapshot) then Inl UnexpectedMember
        else let peers = filter (\<lambda>m. m \<noteq> is_relay_user_id snapshot) (is_members snapshot) in
          if length peers > 1 then Inl UnexpectedMember
          else if summary_unknown \<and> length peers \<noteq> 1 then Inl UnexpectedMember
          else if (case peers of [] \<Rightarrow> False | peer # _ \<Rightarrow> is_guest peer) then Inl Guest
          else Inr ())"

subsection \<open>matrix/rooms.rs\<close>

datatype RoomState = Invited | Joined | OtherState
datatype EncryptionState = Encrypted | NotEncrypted | UnknownEncryption

text \<open>
  Members are pairs of a user id and whether the membership is \<^verbatim>\<open>join\<close>. The last three fields are
  what the SDK reports after the relay asked the server for the encryption state and the members.
\<close>

record sdk_room =
  r_id :: string
  room_state :: RoomState
  encryption_state :: EncryptionState
  direct :: "bool option"
  active_members :: "(string \<times> bool) list option"
  joined_count :: nat
  invited_count :: nat
  join_ok :: bool
  leave_ok :: bool
  fetched_encryption :: "EncryptionState option"
  sync_members_ok :: bool
  join_members :: "(string \<times> bool) list option"

definition unwrap_or :: "'a \<Rightarrow> 'a option \<Rightarrow> 'a" where
  "unwrap_or d x = (case x of None \<Rightarrow> d | Some v \<Rightarrow> v)"

definition snapshot :: "sdk_room \<Rightarrow> string \<Rightarrow> string \<Rightarrow> RoomSnapshot relay_result" where
  "snapshot room sender relay_user_id =
     and_then (ok_or (Problem InternalError) (active_members room)) (\<lambda>members.
       Inr \<lparr>rs_encrypted = (encryption_state room = Encrypted), rs_is_direct = unwrap_or False (direct room),
            rs_members = map fst (filter snd members), rs_sender = sender, rs_relay_user_id = relay_user_id\<rparr>)"

definition invite_is_safe :: "sdk_room \<Rightarrow> string \<Rightarrow> bool relay_result" where
  "invite_is_safe room relay_user_id =
     (if room_state room \<noteq> Invited then Inr False
      else and_then (ok_or (Problem InternalError) (active_members room)) (\<lambda>members.
        let invite = \<lparr>is_encrypted = (encryption_state room = Encrypted),
          is_encryption_unknown = (encryption_state room = UnknownEncryption),
          is_is_direct = unwrap_or False (direct room),
          is_joined_count = joined_count room, is_invited_count = invited_count room,
          is_members = map fst members, is_relay_user_id = relay_user_id\<rparr> in
        Inr (is_ok (check_invite invite))))"

definition joined_room_is_safe :: "sdk_room \<Rightarrow> string \<Rightarrow> bool relay_result" where
  "joined_room_is_safe room relay_user_id =
     (if room_state room \<noteq> Joined then Inr False
      else and_then (ok_or (Problem InternalError) (fetched_encryption room)) (\<lambda>encryption.
        and_then (require (sync_members_ok room) (Problem InternalError)) (\<lambda>_.
        and_then (ok_or (Problem InternalError) (join_members room)) (\<lambda>members.
          let ids = map fst (filter snd members) in
          case find (\<lambda>m. m \<noteq> relay_user_id) ids of
            None \<Rightarrow> Inr False
          | Some peer \<Rightarrow> Inr (is_ok (check_room
              \<lparr>rs_encrypted = (encryption = Encrypted), rs_is_direct = unwrap_or False (direct room),
               rs_members = ids, rs_sender = peer, rs_relay_user_id = relay_user_id\<rparr>))))))"

subsection \<open>The invitation loop\<close>

datatype room_action = Join string | Leave string

text \<open>
  One pass over the invited rooms: the result and the calls made, in order. \<open>get_room\<close> is the
  client's view of a room after it was joined; the pass stops at the first error, as \<^verbatim>\<open>?\<close> does.
\<close>

fun auto_join_invites :: "(string \<Rightarrow> sdk_room option) \<Rightarrow> string \<Rightarrow> sdk_room list \<Rightarrow> unit relay_result \<times> room_action list" where
  "auto_join_invites get_room relay [] = (Inr (), [])"
| "auto_join_invites get_room relay (room # rooms) =
     (case invite_is_safe room relay of
        Inl e \<Rightarrow> (Inl e, [])
      | Inr False \<Rightarrow>
          if leave_ok room
          then (let (r, acts) = auto_join_invites get_room relay rooms in (r, Leave (r_id room) # acts))
          else (Inl (Internal ''leave''), [])
      | Inr True \<Rightarrow>
          if \<not> join_ok room then (Inl (Internal ''join''), [])
          else (case get_room (r_id room) of
            None \<Rightarrow> (err InternalError, [Join (r_id room)])
          | Some joined \<Rightarrow>
              (case joined_room_is_safe joined relay of
                 Inl e \<Rightarrow> (Inl e, [Join (r_id room)])
               | Inr True \<Rightarrow>
                   (let (r, acts) = auto_join_invites get_room relay rooms in (r, Join (r_id room) # acts))
               | Inr False \<Rightarrow>
                   if leave_ok joined
                   then (let (r, acts) = auto_join_invites get_room relay rooms in
                         (r, Join (r_id room) # Leave (r_id joined) # acts))
                   else (Inl (Internal ''leave''), [Join (r_id room)]))))"

subsection \<open>The room test decides a private room of two\<close>

abbreviation effective_relay :: "string \<Rightarrow> string" where
  "effective_relay r \<equiv> (if r = [] then MATRIX_USER_ID else r)"

lemma two_members:
  assumes "a \<noteq> b"
  shows "length ms = 2 \<and> a \<in> set ms \<and> b \<in> set ms \<longleftrightarrow> ms = [a, b] \<or> ms = [b, a]"
proof
  assume "length ms = 2 \<and> a \<in> set ms \<and> b \<in> set ms"
  then obtain x y where "ms = [x, y]" by (auto simp: length_Suc_conv numeral_2_eq_2)
  with assms \<open>length ms = 2 \<and> a \<in> set ms \<and> b \<in> set ms\<close> show "ms = [a, b] \<or> ms = [b, a]" by auto
qed auto

lemma is_guest_iff: "is_guest m \<longleftrightarrow> contains_str ''guest'' m"
proof -
  have "contains_str ''guest'' m" if "ends_with '':guest'' m"
  proof -
    from that obtain r where "m = r @ '':guest''" by (auto simp: ends_with_iff)
    then have "m = (r @ '':'') @ ''guest'' @ []" by simp
    then show ?thesis unfolding contains_str_iff by blast
  qed
  then show ?thesis by (auto simp: is_guest_def)
qed

lemma check_room_iff:
  "check_room s = Inr () \<longleftrightarrow> rs_encrypted s \<and> length (rs_members s) = 2
     \<and> effective_relay (rs_relay_user_id s) \<in> set (rs_members s) \<and> rs_sender s \<in> set (rs_members s)
     \<and> rs_sender s \<noteq> effective_relay (rs_relay_user_id s) \<and> (\<forall>m \<in> set (rs_members s). \<not> contains_str ''guest'' m)"
  unfolding check_room_def Let_def list_ex_iff is_guest_iff by auto

lemma check_room_pair:
  "check_room s = Inr () \<longleftrightarrow>
     rs_encrypted s
     \<and> rs_members s \<in> {[effective_relay (rs_relay_user_id s), rs_sender s], [rs_sender s, effective_relay (rs_relay_user_id s)]}
     \<and> rs_sender s \<noteq> effective_relay (rs_relay_user_id s)
     \<and> \<not> contains_str ''guest'' (rs_sender s) \<and> \<not> contains_str ''guest'' (effective_relay (rs_relay_user_id s))"
proof (cases "rs_sender s = effective_relay (rs_relay_user_id s)")
  case False
  from two_members [OF False, of "rs_members s"] False show ?thesis
    unfolding check_room_iff by auto
qed (simp add: check_room_iff)

text \<open>
  C26. Where the relay listens: a room passes the check exactly when it is encrypted and its joined
  members are the relay and the sender, two different users, neither of whose names contains
  \<^verbatim>\<open>guest\<close>. A room with a third member, without the relay, or with a sender who is not in it fails.
\<close>

theorem check_room_exact:
  "check_room s = Inr () \<longleftrightarrow>
     rs_encrypted s
     \<and> rs_members s \<in> {[effective_relay (rs_relay_user_id s), rs_sender s], [rs_sender s, effective_relay (rs_relay_user_id s)]}
     \<and> rs_sender s \<noteq> effective_relay (rs_relay_user_id s)
     \<and> \<not> contains_str ''guest'' (rs_sender s) \<and> \<not> contains_str ''guest'' (effective_relay (rs_relay_user_id s))"
  by (rule check_room_pair)

text \<open>
  Which invitations are joined: exactly those that are not known to be unencrypted, whose summary
  is either absent or one joined and one invited member, in which the relay is a member, and which
  show at most one other member (exactly one when there is no summary) that is not a guest.
\<close>

theorem check_invite_exact:
  "check_invite s = Inr () \<longleftrightarrow>
     (is_encrypted s \<or> is_encryption_unknown s) \<and> is_relay_user_id s \<in> set (is_members s) \<and>
     (\<exists>peers. peers = filter (\<lambda>m. m \<noteq> is_relay_user_id s) (is_members s) \<and>
        ((is_joined_count s, is_invited_count s) = (1, 1) \<and> peers = []
         \<or> (is_joined_count s, is_invited_count s) \<in> {(0, 0), (1, 1)}
           \<and> (\<exists>peer. peers = [peer] \<and> \<not> contains_str ''guest'' peer)))"
proof -
  have len: "length xs > 1 \<longleftrightarrow> \<not> (xs = [] \<or> (\<exists>x. xs = [x]))" for xs :: "string list"
    by (cases xs; cases "tl xs") auto
  show ?thesis
    unfolding check_invite_def Let_def list_ex_iff is_guest_iff len
    by (auto split: list.splits)
qed

lemma joined_room_is_safe_True:
  assumes "joined_room_is_safe room relay = Inr True" "relay \<noteq> []"
  shows "room_state room = Joined \<and> fetched_encryption room = Some Encrypted \<and>
    (\<exists>members peer. join_members room = Some members \<and> peer \<noteq> relay \<and> \<not> contains_str ''guest'' peer
       \<and> map fst (filter snd members) \<in> {[relay, peer], [peer, relay]})"
  using assms
  by (auto simp: joined_room_is_safe_def Let_def result_simps check_room_pair split: if_splits option.splits)

lemma auto_join_joined:
  assumes "auto_join_invites get_room relay rooms = (Inr (), acts)" "Join i \<in> set acts"
  shows "\<exists>room \<in> set rooms. \<exists>joined. r_id room = i \<and> invite_is_safe room relay = Inr True \<and> get_room i = Some joined
    \<and> (joined_room_is_safe joined relay = Inr True \<or> Leave (r_id joined) \<in> set acts)"
  using assms
proof (induction rooms arbitrary: acts)
  case (Cons room rooms)
  obtain r rest where rec: "auto_join_invites get_room relay rooms = (r, rest)" by fastforce
  with Cons show ?case
    by (auto split: sum.splits bool.splits option.splits if_splits) blast+
qed simp

text \<open>
  C27. Joining is undone unless the room is private: when a pass over the invitations succeeds, every
  room it joined was an invitation the pre-join policy accepted, and either the relay left it again
  in the same pass or the server's own answer shows an encrypted room whose only joined members
  are the relay and one peer.
\<close>

theorem auto_join_safe:
  assumes "auto_join_invites get_room relay rooms = (Inr (), acts)" "Join i \<in> set acts" "relay \<noteq> []"
  shows "\<exists>room \<in> set rooms. \<exists>joined. r_id room = i \<and> invite_is_safe room relay = Inr True \<and> get_room i = Some joined
    \<and> (Leave (r_id joined) \<in> set acts
       \<or> fetched_encryption joined = Some Encrypted \<and>
         (\<exists>members peer. join_members joined = Some members \<and> peer \<noteq> relay
            \<and> map fst (filter snd members) \<in> {[relay, peer], [peer, relay]}))"
  using auto_join_joined [OF assms(1,2)] joined_room_is_safe_True [OF _ assms(3)] by metis

definition demo_room :: "bool \<Rightarrow> RoomState \<Rightarrow> sdk_room" where
  "demo_room third st = \<lparr>r_id = ''!r'', room_state = st, encryption_state = UnknownEncryption, direct = None,
     active_members = Some [(''@a'', True), (''@relay'', False)], joined_count = 1, invited_count = 1,
     join_ok = True, leave_ok = True, fetched_encryption = Some Encrypted, sync_members_ok = True,
     join_members = Some ([(''@a'', True), (''@relay'', True)] @ (if third then [(''@m'', True)] else []))\<rparr>"

theorem auto_join_safe_witness:
  "auto_join_invites (\<lambda>i. Some (demo_room True Joined)) ''@relay'' [demo_room False Invited] = (Inr (), [Join ''!r'', Leave ''!r''])
   \<and> auto_join_invites (\<lambda>i. Some (demo_room False Joined)) ''@relay'' [demo_room False Invited] = (Inr (), [Join ''!r''])
   \<and> invite_is_safe (demo_room False Invited) ''@relay'' = Inr True"
proof -
  have 1: "auto_join_invites (\<lambda>i. Some (demo_room True Joined)) ''@relay'' [demo_room False Invited]
      = (Inr (), [Join ''!r'', Leave ''!r''])" by code_simp
  have 2: "auto_join_invites (\<lambda>i. Some (demo_room False Joined)) ''@relay'' [demo_room False Invited]
      = (Inr (), [Join ''!r''])" by code_simp
  have "invite_is_safe (demo_room False Invited) ''@relay'' = Inr True"
    using auto_join_safe [OF 2, of "''!r''"] by auto
  with 1 2 show ?thesis by blast
qed

end
