(* ===== verification/Login.thy ===== *)
theory Login
  imports App Room_Policy Time_Window Documents
begin

text \<open>
  \<^verbatim>\<open>src/services/login.rs\<close>: the handlers of the three inbound Matrix messages. Each handler is its
  transaction body (\<open>*_tx\<close>, from \<^verbatim>\<open>begin\<close> to the commit or the early return) and what surrounds it.
\<close>

record InboundEvent =
  ev_event_id :: string
  ev_room_id :: string
  ev_sender :: string
  ev_decrypted :: bool
  ev_redacted :: bool
  ev_body :: string
  ev_room :: RoomSnapshot

datatype HandleResult = Ignored | Sent

definition until :: "AppState \<Rightarrow> int \<Rightarrow> int relay_result" where
  "until app t = millis_to_utc (crates_of app) (wrapping_add t REPLAY_GRACE_MS)"

subsection \<open>Results sent to the room\<close>

definition send_failure :: "AppState \<Rightarrow> oracles \<Rightarrow> nat \<Rightarrow> string \<Rightarrow> string \<Rightarrow> string \<Rightarrow> string \<Rightarrow> HandleResult io" where
  "send_failure app orc k room_id session_id nonce reason =
     bnd (lift_result (matrix_encode (crates_of app) (Result session_id nonce (o_now orc k) False None (Some reason)))) (\<lambda>body.
     bnd (send_notice orc room_id body) (\<lambda>_. ret Sent))"

definition send_success_result :: "AppState \<Rightarrow> oracles \<Rightarrow> nat \<Rightarrow> string \<Rightarrow> string \<Rightarrow> string \<Rightarrow> string \<Rightarrow> unit io" where
  "send_success_result app orc k room_id session_id nonce sub =
     bnd (lift_result (matrix_encode (crates_of app) (Result session_id nonce (o_now orc k) True (Some sub) None))) (\<lambda>body.
       send_notice orc room_id body)"

subsection \<open>Requests\<close>

definition request_tx :: "AppState \<Rightarrow> oracles \<Rightarrow> InboundEvent \<Rightarrow> string \<Rightarrow> string \<Rightarrow> int \<Rightarrow> string \<Rightarrow> bytes \<Rightarrow> int
    \<Rightarrow> MatrixMessage option tx_end tx" where
  "request_tx app orc event session_id nonce sent_at domain nonce_hash now =
     bnd (sql orc 0 (get_matching domain session_id nonce_hash)) (\<lambda>row.
       case row of None \<Rightarrow> ret (Dropped None)
       | Some session \<Rightarrow>
         if s_exp session < now \<or> \<not> sent_at_in_qr_window sent_at (s_iat session) (s_exp session)
         then ret (Dropped None)
         else if s_challenge_hash session \<noteq> None then ret (Committed None)
         else
           bnd (lift_result (until app (s_exp session))) (\<lambda>expiry.
           bnd (counting_conflicts (sql orc 1 (reserve_request_event (ev_event_id event) expiry))) (\<lambda>_.
           let challenge = base64url_encode (crates_of app) (o_rng orc 0 CHALLENGE_BYTES) in
           bnd (lift_result (keyed_hash (crates_of app) (lookup_pepper app) challenge)) (\<lambda>challenge_hash.
           bnd (lift_result (until app (s_exp session))) (\<lambda>expiry'.
           bnd (sql orc 2 (reserve_challenge_hash challenge_hash expiry')) (\<lambda>_.
           let expires_at = challenge_expires_at now (s_exp session) in
           bnd (lift_result (at_rest_encrypt app orc 1 (ev_room_id event))) (\<lambda>room_ct.
           bnd (lift_result (at_rest_encrypt app orc 2 (ev_sender event))) (\<lambda>sender_ct.
           bnd (sql orc 3 (cas_update (s_id session) (s_version session) ''CHALLENGE_SENT''
               (no_update\<lparr>u_request_event_id := Some (ev_event_id event), u_request_room_ciphertext := Some room_ct,
                 u_request_sender_ciphertext := Some sender_ct, u_challenge_hash := Some challenge_hash,
                 u_challenge_expires_at := Some expires_at\<rparr>))) (\<lambda>updated.
           if \<not> updated then lift_result (err SessionConflict)
           else ret (Committed (Some (Challenge session_id nonce now (s_site_display_name session) domain
             (s_requested_display_name session) challenge expires_at))))))))))))"

definition process_request :: "AppState \<Rightarrow> oracles \<Rightarrow> InboundEvent \<Rightarrow> string \<Rightarrow> string \<Rightarrow> int \<Rightarrow> string \<Rightarrow> HandleResult io" where
  "process_request app orc event session_id nonce sent_at domain =
     (let now = o_now orc 0 in
      bnd (lift_result (keyed_hash (crates_of app) (lookup_pepper app) nonce)) (\<lambda>nonce_hash.
      bnd (run_tx orc (request_tx app orc event session_id nonce sent_at domain nonce_hash now)) (\<lambda>outbound.
        case outbound of
          None \<Rightarrow> ret Ignored
        | Some message \<Rightarrow>
            bnd (lift_result (matrix_encode (crates_of app) message)) (\<lambda>body.
            bnd (send_notice orc (ev_room_id event) body) (\<lambda>_.
            bnd (inc (\<lambda>m. m\<lparr>challenges := challenges m + 1\<rparr>)) (\<lambda>_. ret Sent))))))"

subsection \<open>Consents\<close>

datatype consent_outcome = ConsentIgnored | ConsentMismatch | ConsentExpired | ConsentRefused | ConsentAccepted

text \<open>\<^verbatim>\<open>decrypt(c).ok().and_then(String::from_utf8(..).ok())\<close> on a nullable column.\<close>

definition stored_text :: "AppState \<Rightarrow> bytes option \<Rightarrow> string option" where
  "stored_text app column =
     Option.bind column (\<lambda>ct. Option.bind (ok (decrypt (crates_of app) (at_rest app) ct))
       (\<lambda>b. if utf8_valid b then Some b else None))"

definition approve_tx :: "AppState \<Rightarrow> oracles \<Rightarrow> InboundEvent \<Rightarrow> string \<Rightarrow> string \<Rightarrow> string option \<Rightarrow> bytes \<Rightarrow> int \<Rightarrow> SessionRow
    \<Rightarrow> consent_outcome tx_end tx" where
  "approve_tx app orc event session_id nonce display_name nonce_hash now session =
     (let c = crates_of app in
      bnd (lift_result (ok_or (Problem InvalidRequest) display_name)) (\<lambda>display.
      bnd (lift_result (derive_pairwise_sub c (subject_secret app) (s_domain session) (ev_sender event))) (\<lambda>sub.
      bnd (lift_result (keyed_hash c (lookup_pepper app) sub)) (\<lambda>subject_hash.
      bnd (lift_result (at_rest_encrypt app orc 0 sub)) (\<lambda>subject_ct.
      bnd (lift_result (at_rest_encrypt app orc 1 (ev_sender event))) (\<lambda>user_ct.
      bnd (sql orc 3 (upsert_grant (s_domain session) subject_hash subject_ct user_ct session_id nonce_hash
          (subject_key_version app))) (\<lambda>_.
      let jti = base64url_encode c (o_rng orc 2 JTI_BYTES); exp = min (s_exp session) (wrapping_add now MAX_TTL_MS) in
      bnd (lift_result (assertion_sign c (signing_key app) (signing_kid app) (s_domain session) sub session_id nonce jti
          now exp display (subject_key_version app))) (\<lambda>assertion.
      bnd (lift_result (until app (s_exp session))) (\<lambda>expiry.
      bnd (sql orc 4 (reserve_assertion_jti jti expiry)) (\<lambda>_.
      bnd (lift_result (assertion_to_bytes c assertion)) (\<lambda>assertion_bytes.
      bnd (lift_result (at_rest_encrypt app orc 3 assertion_bytes)) (\<lambda>assertion_ct.
      bnd (lift_result (at_rest_encrypt app orc 4 display)) (\<lambda>display_ct.
      bnd (sql orc 5 (cas_update (s_id session) (s_version session) ''CONSENT_RECEIVED''
          (no_update\<lparr>u_consent_event_id := Some (ev_event_id event), u_display_name_ciphertext := Some display_ct,
            u_assertion_jti := Some jti, u_assertion_ciphertext := Some assertion_ct\<rparr>))) (\<lambda>_.
      bnd (sql orc 6 (enqueue (o_db_now orc) ''assertion'' (s_domain session) jti assertion_ct session_id nonce_hash)) (\<lambda>_.
        ret (Committed ConsentAccepted))))))))))))))))"

definition consent_tx :: "AppState \<Rightarrow> oracles \<Rightarrow> InboundEvent \<Rightarrow> string \<Rightarrow> string \<Rightarrow> int \<Rightarrow> bool \<Rightarrow> string option
    \<Rightarrow> bytes \<Rightarrow> bytes \<Rightarrow> int \<Rightarrow> consent_outcome tx_end tx" where
  "consent_tx app orc event session_id nonce sent_at approved display_name nonce_hash challenge_hash now =
     bnd (sql orc 0 (get_by_session_and_nonce session_id nonce_hash)) (\<lambda>row.
     bnd (lift_result (ok_or (Problem SessionNotFound) row)) (\<lambda>session.
       if s_exp session < now \<or> \<not> sent_at_in_qr_window sent_at (s_iat session) (s_exp session)
         \<or> (case s_challenge_expires_at session of None \<Rightarrow> False | Some exp \<Rightarrow> sent_at > exp \<or> now > exp)
       then bnd (lift_result (require (o_sql orc 7) (Problem InternalError))) (\<lambda>_. ret (Dropped ConsentExpired))
       else if s_challenge_hash session \<noteq> Some challenge_hash then ret (Dropped ConsentIgnored)
       else if stored_text app (s_request_sender_ciphertext session) \<noteq> Some (ev_sender event)
         \<or> stored_text app (s_request_room_ciphertext session) \<noteq> Some (ev_room_id event)
       then ret (Dropped ConsentMismatch)
       else
         bnd (lift_result (until app (s_exp session))) (\<lambda>expiry.
         bnd (counting_conflicts (sql orc 1 (reserve_consent_event (ev_event_id event) expiry))) (\<lambda>_.
           if \<not> approved then
             bnd (sql orc 2 (cas_update (s_id session) (s_version session) ''REFUSED''
               (no_update\<lparr>u_consent_event_id := Some (ev_event_id event)\<rparr>))) (\<lambda>_. ret (Committed ConsentRefused))
           else approve_tx app orc event session_id nonce display_name nonce_hash now session))))"

definition process_consent :: "AppState \<Rightarrow> oracles \<Rightarrow> InboundEvent \<Rightarrow> string \<Rightarrow> string \<Rightarrow> int \<Rightarrow> bool \<Rightarrow> string option
    \<Rightarrow> string \<Rightarrow> string \<Rightarrow> string \<Rightarrow> HandleResult io" where
  "process_consent app orc event session_id nonce sent_at approved display_name challenge key_id signature =
     (let c = crates_of app; now = o_now orc 0 in
      bnd (lift_result (keyed_hash c (lookup_pepper app) nonce)) (\<lambda>nonce_hash.
      bnd (lift_result (keyed_hash c (lookup_pepper app) challenge)) (\<lambda>challenge_hash.
      bnd (lift_result (consent_signed_bytes c approved challenge display_name nonce session_id sent_at)) (\<lambda>signed.
      bnd (lift_result (verify_consent_signature c key_id signed signature)) (\<lambda>_.
      bnd (run_tx orc (consent_tx app orc event session_id nonce sent_at approved display_name nonce_hash challenge_hash now)) (\<lambda>outcome.
        case outcome of
          ConsentIgnored \<Rightarrow> ret Ignored
        | ConsentMismatch \<Rightarrow> bnd (inc (\<lambda>m. m\<lparr>room_violations := room_violations m + 1\<rparr>)) (\<lambda>_. ret Ignored)
        | ConsentExpired \<Rightarrow> send_failure app orc 1 (ev_room_id event) session_id nonce ''request_expired''
        | ConsentRefused \<Rightarrow> send_failure app orc 1 (ev_room_id event) session_id nonce ''request_cancelled''
        | ConsentAccepted \<Rightarrow> bnd (inc (\<lambda>m. m\<lparr>consents := consents m + 1\<rparr>)) (\<lambda>_. ret Sent)))))))"

subsection \<open>Revocations\<close>

definition revocation_tx :: "AppState \<Rightarrow> oracles \<Rightarrow> InboundEvent \<Rightarrow> string \<Rightarrow> string \<Rightarrow> string \<Rightarrow> bytes \<Rightarrow> bytes
    \<Rightarrow> HandleResult tx_end tx" where
  "revocation_tx app orc event session_id site_account_id reason nonce_hash subject_hash =
     (let c = crates_of app in
      bnd (sql orc 0 (get_by_session_and_nonce session_id nonce_hash)) (\<lambda>row.
        case row of None \<Rightarrow> ret (Dropped Ignored) | Some session \<Rightarrow>
      bnd (sql orc 1 (find_active_grant (s_domain session) subject_hash)) (\<lambda>found.
        case found of None \<Rightarrow> ret (Dropped Ignored) | Some grant \<Rightarrow>
      bnd (lift_result (decrypt c (at_rest app) (g_matrix_user_ciphertext grant))) (\<lambda>stored.
      bnd (lift_result (require (utf8_valid stored) (Problem InternalError))) (\<lambda>_.
        if stored \<noteq> ev_sender event then ret (Dropped Ignored)
        else if g_revoked_at grant \<noteq> None then ret (Committed Ignored)
        else
          bnd (sql orc 2 (mark_revoked (o_db_now orc) (g_id grant))) (\<lambda>_.
          let jti = base64url_encode c (o_rng orc 0 JTI_BYTES) in
          bnd (lift_result (until app (o_now orc 0))) (\<lambda>expiry.
          bnd (sql orc 3 (reserve_revocation_jti jti expiry)) (\<lambda>_.
          bnd (lift_result (revocation_sign c (signing_key app) (signing_kid app) (s_domain session) site_account_id
              jti (o_now orc 1) reason)) (\<lambda>revocation.
          bnd (lift_result (revocation_to_bytes c revocation)) (\<lambda>bytes.
          bnd (lift_result (at_rest_encrypt app orc 1 bytes)) (\<lambda>payload_ct.
          bnd (sql orc 4 (enqueue (o_db_now orc) ''revocation'' (s_domain session) jti payload_ct session_id nonce_hash)) (\<lambda>_.
          bnd (sql orc 5 (cas_update (s_id session) (s_version session) ''REVOKED'' no_update)) (\<lambda>_.
            ret (Committed Sent))))))))))))))"

definition process_revocation :: "AppState \<Rightarrow> oracles \<Rightarrow> InboundEvent \<Rightarrow> string \<Rightarrow> string \<Rightarrow> string \<Rightarrow> string option \<Rightarrow> HandleResult io" where
  "process_revocation app orc event session_id nonce site_account_id reason =
     (let c = crates_of app; reason = unwrap_or ''user_requested'' reason in
      bnd (lift_result (keyed_hash c (lookup_pepper app) nonce)) (\<lambda>nonce_hash.
      bnd (lift_result (keyed_hash c (lookup_pepper app) site_account_id)) (\<lambda>subject_hash.
        run_tx orc (revocation_tx app orc event session_id site_account_id reason nonce_hash subject_hash))))"

subsection \<open>The entry point\<close>

definition dispatch :: "AppState \<Rightarrow> oracles \<Rightarrow> InboundEvent \<Rightarrow> MatrixMessage \<Rightarrow> HandleResult io" where
  "dispatch app orc event message =
     (case message of
        Request s n t d \<Rightarrow> process_request app orc event s n t d
      | Consent s n t a name ch k sg \<Rightarrow> process_consent app orc event s n t a name ch k sg
      | Revocation s n t account reason \<Rightarrow> process_revocation app orc event s n account reason
      | _ \<Rightarrow> ret Ignored)"

definition handle_inbound :: "AppState \<Rightarrow> oracles \<Rightarrow> InboundEvent \<Rightarrow> HandleResult io" where
  "handle_inbound app orc event =
     (if ev_redacted event \<or> \<not> ev_decrypted event
      then bnd (inc (\<lambda>m. m\<lparr>room_violations := room_violations m + 1\<rparr>)) (\<lambda>_. ret Ignored)
      else if ev_sender event = relay_user_id app then ret Ignored
      else if \<not> is_ok (check_room (ev_room event))
      then bnd (inc (\<lambda>m. m\<lparr>room_violations := room_violations m + 1\<rparr>)) (\<lambda>_. ret Ignored)
      else case matrix_decode (crates_of app) (ev_body event) of
        Inl _ \<Rightarrow> ret Ignored
      | Inr message \<Rightarrow> dispatch app orc event message)"

end
