(* ===== verification/Login_Laws.thy ===== *)
theory Login_Laws
  imports Login
begin

text \<open>
  What the transaction bodies of the login service do when they commit, and what every handler
  keeps: the shared lemmas of the login properties.
\<close>

subsection \<open>Committed transactions\<close>

definition request_update :: "AppState \<Rightarrow> oracles \<Rightarrow> InboundEvent \<Rightarrow> SessionRow \<Rightarrow> int \<Rightarrow> bytes \<Rightarrow> bytes \<Rightarrow> bytes \<Rightarrow> session_update" where
  "request_update app orc event session now challenge_hash room_ct sender_ct =
     no_update\<lparr>u_request_event_id := Some (ev_event_id event), u_request_room_ciphertext := Some room_ct,
       u_request_sender_ciphertext := Some sender_ct, u_challenge_hash := Some challenge_hash,
       u_challenge_expires_at := Some (challenge_expires_at now (s_exp session))\<rparr>"

lemma request_tx_committed:
  assumes "request_tx app orc event s n t d nonce_hash now st = (Inr (Committed x), st')"
  obtains (again) session where "x = None" "tx_db st' = tx_db st"
    "fst (get_matching d s nonce_hash (tx_db st)) = Inr (Some session)" "s_challenge_hash session \<noteq> None"
  | (fresh) session expiry challenge challenge_hash room_ct sender_ct where
    "fst (get_matching d s nonce_hash (tx_db st)) = Inr (Some session)"
    "now \<le> s_exp session" "sent_at_in_qr_window t (s_iat session) (s_exp session)" "s_challenge_hash session = None"
    "until app (s_exp session) = Inr expiry"
    "fst (reserve_request_event (ev_event_id event) expiry (tx_db st)) = Inr ()"
    "challenge = base64url_encode (crates_of app) (o_rng orc 0 CHALLENGE_BYTES)"
    "keyed_hash (crates_of app) (lookup_pepper app) challenge = Inr challenge_hash"
    "fst (reserve_challenge_hash challenge_hash expiry (snd (reserve_request_event (ev_event_id event) expiry (tx_db st)))) = Inr ()"
    "at_rest_encrypt app orc 1 (ev_room_id event) = Inr room_ct" "at_rest_encrypt app orc 2 (ev_sender event) = Inr sender_ct"
    "cas_update (s_id session) (s_version session) ''CHALLENGE_SENT''
       (request_update app orc event session now challenge_hash room_ct sender_ct)
       (snd (reserve_challenge_hash challenge_hash expiry (snd (reserve_request_event (ev_event_id event) expiry (tx_db st)))))
      = (Inr True, tx_db st')"
    "x = Some (Challenge s n now (s_site_display_name session) d (s_requested_display_name session) challenge
       (challenge_expires_at now (s_exp session)))"
proof -
  from assms obtain row where row: "fst (get_matching d s nonce_hash (tx_db st)) = Inr row"
    by (auto simp: request_tx_def eff_simps)
  have same: "st\<lparr>tx_db := snd (get_matching d s nonce_hash (tx_db st))\<rparr> = st" by simp
  show thesis
  proof (cases row)
    case None
    with assms row show thesis by (auto simp: request_tx_def eff_simps)
  next
    case (Some session)
    show thesis
    proof (cases "s_challenge_hash session")
      case None
      with assms row Some show thesis
        by (auto simp: request_tx_def eff_simps Let_def split: if_splits)
          (rule fresh, assumption+, simp_all add: request_update_def prod_eq_iff)
    next
      case (Some h)
      with assms row \<open>row = Some session\<close> show thesis
        by (auto simp: request_tx_def eff_simps split: if_splits intro!: again)
    qed
  qed
qed

definition consent_update :: "InboundEvent \<Rightarrow> bytes \<Rightarrow> string \<Rightarrow> bytes \<Rightarrow> session_update" where
  "consent_update event display_ct jti assertion_ct =
     no_update\<lparr>u_consent_event_id := Some (ev_event_id event), u_display_name_ciphertext := Some display_ct,
       u_assertion_jti := Some jti, u_assertion_ciphertext := Some assertion_ct\<rparr>"

abbreviation fresh_jti :: "AppState \<Rightarrow> oracles \<Rightarrow> nat \<Rightarrow> string" where
  "fresh_jti app orc k \<equiv> base64url_encode (crates_of app) (o_rng orc k JTI_BYTES)"

lemma approve_tx_ends: "approve_tx app orc event s n name nonce_hash now session st = (Inr x, st') \<Longrightarrow> x = Committed ConsentAccepted"
  by (auto simp: approve_tx_def Let_def eff_simps)

lemma approve_tx_committed:
  assumes "approve_tx app orc event s n name nonce_hash now session st = (Inr x, st')"
  obtains display sub subject_hash subject_ct user_ct a expiry bytes assertion_ct display_ct db1 db2 db3 updated where
    "name = Some display"
    "derive_pairwise_sub (crates_of app) (subject_secret app) (s_domain session) (ev_sender event) = Inr sub"
    "keyed_hash (crates_of app) (lookup_pepper app) sub = Inr subject_hash"
    "at_rest_encrypt app orc 0 sub = Inr subject_ct" "at_rest_encrypt app orc 1 (ev_sender event) = Inr user_ct"
    "db1 = snd (upsert_grant (s_domain session) subject_hash subject_ct user_ct s nonce_hash (subject_key_version app) (tx_db st))"
    "assertion_sign (crates_of app) (signing_key app) (signing_kid app) (s_domain session) sub s n (fresh_jti app orc 2)
       now (min (s_exp session) (wrapping_add now MAX_TTL_MS)) display (subject_key_version app) = Inr a"
    "until app (s_exp session) = Inr expiry"
    "reserve_assertion_jti (fresh_jti app orc 2) expiry db1 = (Inr (), db2)"
    "assertion_to_bytes (crates_of app) a = Inr bytes"
    "at_rest_encrypt app orc 3 bytes = Inr assertion_ct" "at_rest_encrypt app orc 4 display = Inr display_ct"
    "cas_update (s_id session) (s_version session) ''CONSENT_RECEIVED''
       (consent_update event display_ct (fresh_jti app orc 2) assertion_ct) db2 = (Inr updated, db3)"
    "tx_db st' = snd (enqueue (o_db_now orc) ''assertion'' (s_domain session) (fresh_jti app orc 2) assertion_ct s nonce_hash db3)"
  using assms
  by (auto simp: approve_tx_def Let_def eff_simps result_simps)
    (rule that, assumption+, simp_all add: consent_update_def prod_eq_iff)

lemma consent_tx_committed:
  assumes "consent_tx app orc event s n t approved name nonce_hash challenge_hash now st = (Inr (Committed x), st')"
  obtains session expiry st1 where
    "fst (get_by_session_and_nonce s nonce_hash (tx_db st)) = Inr (Some session)"
    "now \<le> s_exp session" "sent_at_in_qr_window t (s_iat session) (s_exp session)"
    "\<forall>e. s_challenge_expires_at session = Some e \<longrightarrow> t \<le> e \<and> now \<le> e"
    "s_challenge_hash session = Some challenge_hash"
    "stored_text app (s_request_sender_ciphertext session) = Some (ev_sender event)"
    "stored_text app (s_request_room_ciphertext session) = Some (ev_room_id event)"
    "until app (s_exp session) = Inr expiry"
    "reserve_consent_event (ev_event_id event) expiry (tx_db st) = (Inr (), tx_db st1)"
    "approved \<longrightarrow> approve_tx app orc event s n name nonce_hash now session st1 = (Inr (Committed x), st')"
    "\<not> approved \<longrightarrow> x = ConsentRefused \<and> (\<exists>b. cas_update (s_id session) (s_version session) ''REFUSED''
        (no_update\<lparr>u_consent_event_id := Some (ev_event_id event)\<rparr>) (tx_db st1) = (Inr b, tx_db st'))"
proof -
  from assms obtain session where row: "fst (get_by_session_and_nonce s nonce_hash (tx_db st)) = Inr (Some session)"
    by (auto simp: consent_tx_def eff_simps result_simps)
  have after: "st\<lparr>tx_db := snd (get_by_session_and_nonce s nonce_hash (tx_db st))\<rparr> = st" by simp
  let ?ev = "ev_event_id event"
  from assms row obtain expiry where guards: "\<not> s_exp session < now" "sent_at_in_qr_window t (s_iat session) (s_exp session)"
    "\<forall>e. s_challenge_expires_at session = Some e \<longrightarrow> \<not> (t > e \<or> now > e)" "s_challenge_hash session = Some challenge_hash"
    "stored_text app (s_request_sender_ciphertext session) = Some (ev_sender event)"
    "stored_text app (s_request_room_ciphertext session) = Some (ev_room_id event)"
    "until app (s_exp session) = Inr expiry" "fst (reserve_consent_event ?ev expiry (tx_db st)) = Inr ()"
    and rest: "(if \<not> approved then
             bnd (sql orc 2 (cas_update (s_id session) (s_version session) ''REFUSED''
               (no_update\<lparr>u_consent_event_id := Some ?ev\<rparr>))) (\<lambda>_. ret (Committed ConsentRefused))
           else approve_tx app orc event s n name nonce_hash now session)
        (st\<lparr>tx_db := snd (reserve_consent_event ?ev expiry (tx_db st))\<rparr>) = (Inr (Committed x), st')"
    by (auto simp: consent_tx_def eff_simps result_simps split: if_splits option.splits)
  show thesis
  proof (rule that [OF row])
    show "reserve_consent_event ?ev expiry (tx_db st) = (Inr (), tx_db (st\<lparr>tx_db := snd (reserve_consent_event ?ev expiry (tx_db st))\<rparr>))"
      using guards(8) by (simp add: prod_eq_iff)
    show "\<not> approved \<longrightarrow> x = ConsentRefused \<and> (\<exists>b. cas_update (s_id session) (s_version session) ''REFUSED''
        (no_update\<lparr>u_consent_event_id := Some ?ev\<rparr>) (tx_db (st\<lparr>tx_db := snd (reserve_consent_event ?ev expiry (tx_db st))\<rparr>)) = (Inr b, tx_db st'))"
      using rest by (auto simp: eff_simps) (metis prod.collapse)
  qed (use guards rest in \<open>auto simp: eff_simps split: if_splits\<close>)
qed

lemma revocation_tx_committed:
  assumes "revocation_tx app orc event s account why nonce_hash subject_hash st = (Inr (Committed x), st')"
  obtains (again) grant where "x = Ignored" "tx_db st' = tx_db st" "grant \<in> set (grants (tx_db st))" "g_revoked_at grant \<noteq> None"
  | (revoked) session grant expiry rv bytes payload_ct db1 db2 db3 where
    "fst (get_by_session_and_nonce s nonce_hash (tx_db st)) = Inr (Some session)"
    "fst (find_active_grant (s_domain session) subject_hash (tx_db st)) = Inr (Some grant)"
    "decrypt (crates_of app) (at_rest app) (g_matrix_user_ciphertext grant) = Inr (ev_sender event)"
    "g_revoked_at grant = None"
    "db1 = snd (mark_revoked (o_db_now orc) (g_id grant) (tx_db st))"
    "until app (o_now orc 0) = Inr expiry"
    "reserve_revocation_jti (fresh_jti app orc 0) expiry db1 = (Inr (), db2)"
    "revocation_sign (crates_of app) (signing_key app) (signing_kid app) (s_domain session) account
       (fresh_jti app orc 0) (o_now orc 1) why = Inr rv"
    "revocation_to_bytes (crates_of app) rv = Inr bytes" "at_rest_encrypt app orc 1 bytes = Inr payload_ct"
    "db3 = snd (enqueue (o_db_now orc) ''revocation'' (s_domain session) (fresh_jti app orc 0) payload_ct s nonce_hash db2)"
    "tx_db st' = snd (cas_update (s_id session) (s_version session) ''REVOKED'' no_update db3)" "x = Sent"
proof -
  from assms obtain session grant stored where
    row: "fst (get_by_session_and_nonce s nonce_hash (tx_db st)) = Inr (Some session)"
    and grant: "fst (find_active_grant (s_domain session) subject_hash (tx_db st)) = Inr (Some grant)"
    and stored: "decrypt (crates_of app) (at_rest app) (g_matrix_user_ciphertext grant) = Inr stored" "stored = ev_sender event"
    by (auto simp: revocation_tx_def Let_def eff_simps result_simps split: option.splits if_splits)
  show thesis
  proof (cases "g_revoked_at grant")
    case None
    with assms row grant stored show thesis
      by (auto simp: revocation_tx_def Let_def eff_simps result_simps split: if_splits)
        (rule revoked, assumption+, simp_all add: prod_eq_iff)
  next
    case (Some t)
    with assms row grant stored find_active_grant_memD [OF grant] show thesis
      by (auto simp: revocation_tx_def Let_def eff_simps result_simps split: if_splits intro!: again [of grant])
  qed
qed

subsection \<open>Handlers change the database only by committing\<close>

lemma send_failure_quiet [intro, simp]: "quiet (send_failure app orc k room s n why)"
  unfolding send_failure_def by (intro quiet_bnd quiet_lift quiet_send quiet_ret)

lemma send_success_quiet [intro, simp]: "quiet (send_success_result app orc k room s n sub)"
  unfolding send_success_result_def by (intro quiet_bnd quiet_lift quiet_send)

abbreviation start_tx :: "world \<Rightarrow> txs" where
  "start_tx w \<equiv> \<lparr>tx_db = w_db w, tx_metrics = w_metrics w\<rparr>"

lemma process_request_db:
  assumes "process_request app orc event s n t d w = (r, w')"
  shows "w_db w' = w_db w \<or> (\<exists>nonce_hash x st. keyed_hash (crates_of app) (lookup_pepper app) n = Inr nonce_hash
    \<and> request_tx app orc event s n t d nonce_hash (o_now orc 0) (start_tx w) = (Inr (Committed x), st)
    \<and> w_db w' = tx_db st \<and> o_commit orc \<noteq> CommitFailed)"
proof (cases "keyed_hash (crates_of app) (lookup_pepper app) n")
  case (Inl e)
  with assms show ?thesis by (simp add: process_request_def Let_def lift_then)
next
  case (Inr nonce_hash)
  let ?k = "\<lambda>outbound. case outbound of None \<Rightarrow> ret Ignored
    | Some message \<Rightarrow> bnd (lift_result (matrix_encode (crates_of app) message)) (\<lambda>body.
        bnd (send_notice orc (ev_room_id event) body) (\<lambda>_. bnd (inc (\<lambda>m. m\<lparr>challenges := challenges m + 1\<rparr>)) (\<lambda>_. ret Sent)))"
  have "bnd (run_tx orc (request_tx app orc event s n t d nonce_hash (o_now orc 0))) ?k w = (r, w')"
    using assms by (simp add: process_request_def Let_def lift_then Inr)
  moreover have "quiet (?k x)" for x by (cases x) auto
  ultimately show ?thesis using run_tx_then_quiet [of orc _ ?k w r w'] Inr by blast
qed

lemma process_consent_db:
  assumes "process_consent app orc event s n t approved name ch k sg w = (r, w')"
  shows "w_db w' = w_db w \<or> (\<exists>nonce_hash challenge_hash signed x st.
      keyed_hash (crates_of app) (lookup_pepper app) n = Inr nonce_hash
    \<and> keyed_hash (crates_of app) (lookup_pepper app) ch = Inr challenge_hash
    \<and> consent_signed_bytes (crates_of app) approved ch name n s t = Inr signed
    \<and> verify_consent_signature (crates_of app) k signed sg = Inr ()
    \<and> consent_tx app orc event s n t approved name nonce_hash challenge_hash (o_now orc 0) (start_tx w) = (Inr (Committed x), st)
    \<and> w_db w' = tx_db st \<and> o_commit orc \<noteq> CommitFailed)"
proof (cases "\<exists>nonce_hash challenge_hash signed. keyed_hash (crates_of app) (lookup_pepper app) n = Inr nonce_hash
    \<and> keyed_hash (crates_of app) (lookup_pepper app) ch = Inr challenge_hash
    \<and> consent_signed_bytes (crates_of app) approved ch name n s t = Inr signed
    \<and> verify_consent_signature (crates_of app) k signed sg = Inr ()")
  case False
  with assms show ?thesis by (auto simp: process_consent_def Let_def lift_then split: sum.splits)
next
  case True
  then obtain nonce_hash challenge_hash signed where pre: "keyed_hash (crates_of app) (lookup_pepper app) n = Inr nonce_hash"
    "keyed_hash (crates_of app) (lookup_pepper app) ch = Inr challenge_hash"
    "consent_signed_bytes (crates_of app) approved ch name n s t = Inr signed"
    "verify_consent_signature (crates_of app) k signed sg = Inr ()" by blast
  let ?k = "\<lambda>outcome. case outcome of ConsentIgnored \<Rightarrow> ret Ignored
    | ConsentMismatch \<Rightarrow> bnd (inc (\<lambda>m. m\<lparr>room_violations := room_violations m + 1\<rparr>)) (\<lambda>_. ret Ignored)
    | ConsentExpired \<Rightarrow> send_failure app orc 1 (ev_room_id event) s n ''request_expired''
    | ConsentRefused \<Rightarrow> send_failure app orc 1 (ev_room_id event) s n ''request_cancelled''
    | ConsentAccepted \<Rightarrow> bnd (inc (\<lambda>m. m\<lparr>consents := consents m + 1\<rparr>)) (\<lambda>_. ret Sent)"
  have "bnd (run_tx orc (consent_tx app orc event s n t approved name nonce_hash challenge_hash (o_now orc 0))) ?k w = (r, w')"
    using assms by (simp add: process_consent_def Let_def lift_then pre del: One_nat_def)
  moreover have "quiet (?k x)" for x by (cases x) auto
  ultimately show ?thesis using run_tx_then_quiet [of orc _ ?k w r w'] pre by blast
qed

lemma process_revocation_db:
  assumes "process_revocation app orc event s n account why w = (r, w')"
  shows "w_db w' = w_db w \<or> (\<exists>nonce_hash subject_hash x st.
      keyed_hash (crates_of app) (lookup_pepper app) n = Inr nonce_hash
    \<and> keyed_hash (crates_of app) (lookup_pepper app) account = Inr subject_hash
    \<and> revocation_tx app orc event s account (unwrap_or ''user_requested'' why) nonce_hash subject_hash (start_tx w) = (Inr (Committed x), st)
    \<and> w_db w' = tx_db st \<and> o_commit orc \<noteq> CommitFailed)"
  using assms by (auto simp: process_revocation_def Let_def lift_then split: sum.splits dest!: run_tx_db)

subsection \<open>When nothing outside fails\<close>

definition calm :: "oracles \<Rightarrow> bool" where
  "calm orc \<longleftrightarrow> o_pool orc \<and> (\<forall>k. o_sql orc k) \<and> o_commit orc = CommitDone \<and> (\<forall>k n. length (o_rng orc k n) = n)"

lemma at_rest_total:
  assumes "aead_ok (crates_of app) (at_rest app)" "calm orc"
  obtains ct where "at_rest_encrypt app orc k p = Inr ct"
  using encrypt_total [OF assms(1), of "o_rng orc k NONCE_LEN" p] assms(2)
  by (auto simp: at_rest_encrypt_def calm_def NONCE_LEN_def)

lemma keyed_hash_total:
  assumes "hmac_ok c"
  obtains h where "keyed_hash c pepper m = Inr h"
  using assms by (auto simp: hmac_ok_def keyed_hash_def ok_or_def) (metis option.simps(5))

lemma request_tx_fresh:
  assumes "calm orc" and "fst (get_matching d s nonce_hash (tx_db st)) = Inr (Some session)"
    and "now \<le> s_exp session" "sent_at_in_qr_window t (s_iat session) (s_exp session)" "s_challenge_hash session = None"
    and "until app (s_exp session) = Inr expiry"
    and "reserve_request_event (ev_event_id event) expiry (tx_db st) = (Inr (), db1)"
    and "keyed_hash (crates_of app) (lookup_pepper app) (base64url_encode (crates_of app) (o_rng orc 0 CHALLENGE_BYTES)) = Inr challenge_hash"
    and "reserve_challenge_hash challenge_hash expiry db1 = (Inr (), db2)"
    and "at_rest_encrypt app orc 1 (ev_room_id event) = Inr room_ct" "at_rest_encrypt app orc 2 (ev_sender event) = Inr sender_ct"
    and "cas_update (s_id session) (s_version session) ''CHALLENGE_SENT''
       (request_update app orc event session now challenge_hash room_ct sender_ct) db2 = (Inr True, db3)"
  shows "request_tx app orc event s n t d nonce_hash now st = (Inr (Committed (Some (Challenge s n now
     (s_site_display_name session) d (s_requested_display_name session)
     (base64url_encode (crates_of app) (o_rng orc 0 CHALLENGE_BYTES)) (challenge_expires_at now (s_exp session))))), st\<lparr>tx_db := db3\<rparr>)"
proof -
  have look: "get_matching d s nonce_hash (tx_db st) = (Inr (Some session), tx_db st)"
    using assms(2) by (simp add: prod_eq_iff)
  have sql: "o_sql orc k" for k using assms(1) by (simp add: calm_def)
  show ?thesis
    using assms(3-) by (simp add: request_tx_def bnd_def sql_def sql look lift_result_def counting_conflicts_def Let_def ret_def
        request_update_def del: One_nat_def)
qed

text \<open>A request for a live session without a challenge, when nothing outside fails, commits.\<close>

lemma request_commits:
  assumes ok: "schema_ok (w_db w)" and calm: "calm orc"
    and crypto: "hmac_ok (crates_of app)" "aead_ok (crates_of app) (at_rest app)"
    and row: "session \<in> set (sessions (w_db w))" "s_challenge_hash session = None" "s_version session \<noteq> i32_max"
    and live: "o_now orc 0 \<le> s_exp session" "sent_at_in_qr_window t (s_iat session) (s_exp session)"
    and nonce: "keyed_hash (crates_of app) (lookup_pepper app) n = Inr (s_nonce_hash session)"
    and expiry: "until app (s_exp session) = Inr expiry"
    and event_new: "ev_event_id event \<notin> fst ` set (replay_request_event_ids (w_db w))"
    and hash: "keyed_hash (crates_of app) (lookup_pepper app) (base64url_encode (crates_of app) (o_rng orc 0 16)) = Inr challenge_hash"
    and hash_new: "challenge_hash \<notin> fst ` set (replay_challenge_hashes (w_db w))"
  obtains db room_ct sender_ct where
    "run_tx orc (request_tx app orc event (s_session_id session) n t (s_domain session) (s_nonce_hash session) (o_now orc 0)) w
      = (Inr (Some (Challenge (s_session_id session) n (o_now orc 0) (s_site_display_name session) (s_domain session)
           (s_requested_display_name session) (base64url_encode (crates_of app) (o_rng orc 0 16))
           (challenge_expires_at (o_now orc 0) (s_exp session)))), w\<lparr>w_db := db\<rparr>)"
    "at_rest_encrypt app orc 1 (ev_room_id event) = Inr room_ct" "at_rest_encrypt app orc 2 (ev_sender event) = Inr sender_ct"
    "sessions db = map (\<lambda>x. if x = session then apply_update ''CHALLENGE_SENT''
        (request_update app orc event session (o_now orc 0) challenge_hash room_ct sender_ct) session else x) (sessions (w_db w))"
    "ev_event_id event \<in> fst ` set (replay_request_event_ids db)"
    "schema_ok db" "delivery_jobs db = delivery_jobs (w_db w)" "replay_consent_event_ids db = replay_consent_event_ids (w_db w)"
    "replay_assertion_jtis db = replay_assertion_jtis (w_db w)"
proof -
  obtain room_ct where room: "at_rest_encrypt app orc 1 (ev_room_id event) = Inr room_ct"
    by (rule at_rest_total [OF crypto(2) calm])
  obtain sender_ct where sender: "at_rest_encrypt app orc 2 (ev_sender event) = Inr sender_ct"
    by (rule at_rest_total [OF crypto(2) calm])
  let ?u = "request_update app orc event session (o_now orc 0) challenge_hash room_ct sender_ct"
  let ?e = "ev_event_id event"
  define db1 where "db1 = snd (reserve_request_event ?e expiry (w_db w))"
  define db2 where "db2 = snd (reserve_challenge_hash challenge_hash expiry db1)"
  have r1: "reserve_request_event ?e expiry (w_db w) = (Inr (), db1)"
    using event_new by (simp add: prod_eq_iff db1_def request_events.refused_unless_new)
  have "replay_challenge_hashes db1 = replay_challenge_hashes (w_db w)"
    by (simp add: db1_def reserve_defs case_prod_unfold)
  then have r2: "reserve_challenge_hash challenge_hash expiry db1 = (Inr (), db2)"
    using hash_new by (simp add: prod_eq_iff db2_def challenge_hashes.refused_unless_new)
  have ok2: "schema_ok db2" unfolding db1_def db2_def using ok by (intro challenge_hashes.keeps request_events.keeps)
  have mem2: "session \<in> set (sessions db2)" using row(1) by (simp add: db1_def db2_def frame)
  note cas = cas_update_once [OF ok2 mem2 row(3), of "''CHALLENGE_SENT''" ?u]
  define db3 where "db3 = snd (cas_update (s_id session) (s_version session) ''CHALLENGE_SENT'' ?u db2)"
  have c: "cas_update (s_id session) (s_version session) ''CHALLENGE_SENT'' ?u db2 = (Inr True, db3)"
    using cas(1) by (simp add: db3_def prod_eq_iff)
  have tx: "request_tx app orc event (s_session_id session) n t (s_domain session) (s_nonce_hash session) (o_now orc 0) (start_tx w)
    = (Inr (Committed (Some (Challenge (s_session_id session) n (o_now orc 0) (s_site_display_name session) (s_domain session)
         (s_requested_display_name session) (base64url_encode (crates_of app) (o_rng orc 0 CHALLENGE_BYTES))
         (challenge_expires_at (o_now orc 0) (s_exp session))))), (start_tx w)\<lparr>tx_db := db3\<rparr>)"
    using request_tx_fresh [OF calm _ live row(2) expiry _ _ r2 room sender c, of _ _ _ "start_tx w"]
      get_matching_unique [OF ok row(1)] r1 hash by (simp add: CHALLENGE_BYTES_def)
  show thesis
  proof (rule that [OF _ room sender])
    show "run_tx orc (request_tx app orc event (s_session_id session) n t (s_domain session) (s_nonce_hash session) (o_now orc 0)) w
      = (Inr (Some (Challenge (s_session_id session) n (o_now orc 0) (s_site_display_name session) (s_domain session)
           (s_requested_display_name session) (base64url_encode (crates_of app) (o_rng orc 0 16))
           (challenge_expires_at (o_now orc 0) (s_exp session)))), w\<lparr>w_db := db3\<rparr>)"
      using calm tx by (simp add: run_tx_def calm_def CHALLENGE_BYTES_def)
    show "sessions db3 = map (\<lambda>x. if x = session then apply_update ''CHALLENGE_SENT'' ?u session else x) (sessions (w_db w))"
      using cas(2) by (simp add: db3_def db2_def db1_def frame)
    have "keys_le db1 db3" unfolding db3_def db2_def by (intro keys_le_trans [OF keys_grow(2) keys_grow(6)])
    then show "?e \<in> fst ` set (replay_request_event_ids db3)"
      using request_events.reserve_keys [of ?e expiry "w_db w"] by (auto simp: db1_def keys_le_def replay_keys_def)
    show "schema_ok db3" unfolding db3_def by (rule cas_stmt.keeps [OF ok2])
  qed (simp_all add: db3_def db2_def db1_def frame reserve_defs cas_update_def Let_def case_prod_unfold)
qed

end
