(* ===== verification/Registration.thy ===== *)
theory Registration
  imports App Documents
begin

text \<open>
  \<^verbatim>\<open>src/services/registration.rs\<close>: a site registers a login session. The signatures are checked
  under the key of the metadata fetched from the site's own domain, then one transaction inserts
  the session.
\<close>

text \<open>\<^verbatim>\<open>serde_json::to_vec(&request)\<close>: the fields in declaration order.\<close>

definition registration_json :: "RegistrationRequest \<Rightarrow> (string \<times> Value) list" where
  "registration_json r =
     [(''version'', json_int (reg_version r)), (''domain'', String (reg_domain r)),
      (''sessionId'', String (reg_session_id r)), (''nonce'', String (reg_nonce r)),
      (''iat'', json_int (reg_iat r)), (''exp'', json_int (reg_exp r)),
      (''requestedDisplayName'', String (reg_display_name r)), (''qrSignature'', String (reg_qr_signature r)),
      (''registrationSignature'', String (reg_signature r))]"

text \<open>\<^verbatim>\<open>state.site.fetch_metadata\<close> with the failure counted and replaced.\<close>

definition fetch_or_reject :: "oracles \<Rightarrow> string \<Rightarrow> SiteMetadata io" where
  "fetch_or_reject orc domain =
     (case o_fetch orc domain of
        Inl _ \<Rightarrow> bnd (inc (\<lambda>m. m\<lparr>ssrf_rejections := ssrf_rejections m + 1\<rparr>)) (\<lambda>_. lift_result (err DomainVerificationFailed))
      | Inr metadata \<Rightarrow> ret metadata)"

definition verify_or_invalid :: "crates \<Rightarrow> string \<Rightarrow> bytes \<Rightarrow> string \<Rightarrow> unit relay_result" where
  "verify_or_invalid c key canonical sig =
     map_err (\<lambda>_. Problem InvalidSignature) (ed25519_verify c key canonical sig)"

definition new_session :: "RegistrationRequest \<Rightarrow> SiteMetadata \<Rightarrow> bytes \<Rightarrow> bytes \<Rightarrow> bytes \<Rightarrow> NewSession" where
  "new_session request metadata nonce_hash nonce_ciphertext registration_hash =
     \<lparr>n_domain = reg_domain request, n_session_id = reg_session_id request, n_nonce_hash = nonce_hash,
      n_nonce_ciphertext = nonce_ciphertext, n_iat = reg_iat request, n_exp = reg_exp request,
      n_requested_display_name = reg_display_name request, n_site_display_name = md_display_name metadata,
      n_site_public_key = md_public_key metadata, n_qr_signature = reg_qr_signature request,
      n_registration_signature = reg_signature request, n_registration_hash = registration_hash\<rparr>"

definition register_tx :: "AppState \<Rightarrow> oracles \<Rightarrow> NewSession \<Rightarrow> InsertOutcome tx_end tx" where
  "register_tx app orc n = bnd (sql orc 0 (insert_registered (crates_of app) n)) (\<lambda>outcome. ret (Committed outcome))"

definition register_session :: "AppState \<Rightarrow> oracles \<Rightarrow> RegistrationRequest \<Rightarrow> (RegistrationResponse \<times> bool) io" where
  "register_session app orc request =
     (let c = crates_of app in
      bnd (lift_result (registration_validate request)) (\<lambda>_.
      if reg_exp request \<le> o_now orc 0 then lift_result (err RequestExpired)
      else
        bnd (fetch_or_reject orc (reg_domain request)) (\<lambda>metadata.
        bnd (lift_result (qr_canonical c request)) (\<lambda>qr.
        bnd (lift_result (verify_or_invalid c (md_public_key metadata) qr (reg_qr_signature request))) (\<lambda>_.
        bnd (lift_result (registration_canonical c request)) (\<lambda>canonical.
        bnd (lift_result (verify_or_invalid c (md_public_key metadata) canonical (reg_signature request))) (\<lambda>_.
        bnd (lift_result (keyed_hash c (lookup_pepper app) (reg_nonce request))) (\<lambda>nonce_hash.
        bnd (lift_result (at_rest_encrypt app orc 0 (reg_nonce request))) (\<lambda>nonce_ciphertext.
        bnd (lift_result (ok_or (Problem InternalError) (json_to_vec c (Object (registration_json request))))) (\<lambda>json.
        bnd (lift_result (keyed_hash c (lookup_pepper app) json)) (\<lambda>registration_hash.
        bnd (run_tx orc (register_tx app orc (new_session request metadata nonce_hash nonce_ciphertext registration_hash))) (\<lambda>outcome.
        bnd (case outcome of
              Created \<Rightarrow> inc (\<lambda>m. m\<lparr>registrations := registrations m + 1\<rparr>)
            | Identical \<Rightarrow> ret ()) (\<lambda>_.
        ret (\<lparr>resp_version = 1, resp_session_id = reg_session_id request, resp_status = ''registered'',
              resp_expires_at = reg_exp request\<rparr>, outcome = Created))))))))))))))"

end
