(* ===== verification/Relay_Demo.thy ===== *)
theory Relay_Demo
  imports Login_Laws Registration Base64_Reference
begin

text \<open>
  A concrete relay: a configuration over the reference crates, an outside world in which every call
  succeeds, and one registered session. The witnesses run the model on it.
\<close>

definition demo_app :: AppState where
  "demo_app = \<lparr>crates_of = demo_crates, at_rest = replicate 32 CHR ''k'', lookup_pepper = replicate 32 CHR ''p'',
     subject_secret = replicate 32 CHR ''q'', subject_key_version = 1, signing_key = ''seed'', signing_kid = ''relay-1'',
     relay_user_id = ''@relay''\<rparr>"

definition demo_oracles :: oracles where
  "demo_oracles = \<lparr>o_now = (\<lambda>_. 100), o_rng = (\<lambda>k n. replicate n (char_of (65 + k))), o_pool = True, o_sql = (\<lambda>_. True),
     o_commit = CommitDone, o_db_now = 100, o_sink = (\<lambda>_ _. Inr ()), o_fetch = (\<lambda>_. err RelayUnavailable),
     o_post = (\<lambda>_ _ _ _. Inr \<lparr>sr_status = 202, sr_body = []\<rparr>)\<rparr>"

definition demo_sid :: string where "demo_sid = replicate 16 CHR ''s''"
definition demo_nonce :: string where "demo_nonce = replicate 22 CHR ''n''"

definition demo_session :: NewSession where
  "demo_session = \<lparr>n_domain = ''a.org'', n_session_id = demo_sid, n_nonce_hash = pad32 demo_nonce,
     n_nonce_ciphertext = replicate 12 CHR ''0'' @ ''#'' @ demo_nonce, n_iat = 50, n_exp = 200,
     n_requested_display_name = ''Al'', n_site_display_name = ''Site'', n_site_public_key = [], n_qr_signature = [],
     n_registration_signature = [], n_registration_hash = []\<rparr>"

definition demo_metrics :: Metrics where
  "demo_metrics = \<lparr>registrations = 0, registration_failures = 0, challenges = 0, consents = 0, replay_conflicts = 0,
     ssrf_rejections = 0, room_violations = 0, deliveries = 0\<rparr>"

definition demo_world :: world where
  "demo_world = \<lparr>w_db = snd (insert_registered demo_crates demo_session empty_database), w_metrics = demo_metrics,
     w_outbox = [], w_posts = [], w_sync_ready = True, w_last_sync = 100\<rparr>"

definition demo_event :: "string \<Rightarrow> InboundEvent" where
  "demo_event i = \<lparr>ev_event_id = i, ev_room_id = ''!r'', ev_sender = ''@a'', ev_decrypted = True, ev_redacted = False,
     ev_body = [], ev_room = \<lparr>rs_encrypted = True, rs_is_direct = True, rs_members = [''@a'', ''@relay''],
       rs_sender = ''@a'', rs_relay_user_id = ''@relay''\<rparr>\<rparr>"

definition demo_row :: SessionRow where
  "demo_row = new_row 1 30200 demo_session"

lemma demo_db: "w_db demo_world = empty_database\<lparr>session_seq := 2, sessions := [demo_row]\<rparr>"
  by (simp add: demo_world_def insert_registered_def demo_session_def demo_crates_def millis_to_utc_def wrapping_add_def
      REPLAY_GRACE_MS_def in_i64_def empty_database_def demo_row_def new_row_def)

lemma demo_row_simps [simp]:
  "s_domain demo_row = ''a.org''" "s_session_id demo_row = demo_sid" "s_nonce_hash demo_row = pad32 demo_nonce"
  "s_iat demo_row = 50" "s_exp demo_row = 200" "s_challenge_hash demo_row = None" "s_version demo_row = 0" "s_id demo_row = 1"
  by (simp_all add: demo_row_def new_row_def demo_session_def)

lemma demo_schema: "schema_ok (w_db demo_world)"
  unfolding demo_db by (simp add: schema_ok_def empty_database_def unique_ids_def)

lemma demo_app_simps [simp]: "crates_of demo_app = demo_crates" "at_rest demo_app = replicate 32 CHR ''k''"
  "relay_user_id demo_app = ''@relay''"
  by (simp_all add: demo_app_def)

lemma demo_hash [simp]: "keyed_hash demo_crates p m = Inr (pad32 m)"
  by (simp add: keyed_hash_def demo_crates_def ok_or_def)

lemma demo_until [simp]: "until demo_app 200 = Inr 30200"
  by (simp add: until_def millis_to_utc_def wrapping_add_def REPLAY_GRACE_MS_def demo_crates_def in_i64_def)

lemma demo_now [simp]: "o_now demo_oracles k = 100"
  by (simp add: demo_oracles_def)

lemma demo_event_simps [simp]: "ev_event_id (demo_event i) = i" "ev_room_id (demo_event i) = ''!r''" "ev_sender (demo_event i) = ''@a''"
  by (simp_all add: demo_event_def)

lemma demo_calm: "calm demo_oracles"
  by (simp add: calm_def demo_oracles_def)

lemma demo_json:
  assumes "\<And>k v. (k, v) \<in> set fs \<Longrightarrow> flat_value v"
  shows "\<exists>t. json_to_vec demo_crates (Object fs) = Some t"
proof -
  have "literal_total quoted" by (simp add: literal_total_def quoted_def)
  then obtain t where "write_value quoted (Object fs) = Inr t" using write_object_flat assms by blast
  then show ?thesis by (simp add: demo_crates_def ok_def del: write_value.simps)
qed

lemma demo_live [simp]: "sent_at_in_qr_window 100 50 200"
  by (simp add: sent_at_in_qr_window_def saturating_sub_def CLOCK_SKEW_MS_def)

lemma demo_sql [simp]: "o_sql demo_oracles k" "o_pool demo_oracles" "o_commit demo_oracles = CommitDone"
  by (simp_all add: demo_oracles_def)

end
