(* ===== verification/Login_Properties.thy ===== *)
theory Login_Properties
  imports Login_Laws Relay_Demo
begin

text \<open>
  The properties of \<^verbatim>\<open>src/services/login.rs\<close>, for every outside world: whatever the clock, the random
  source, the database, the sink and the sites answer.
\<close>

text \<open>
  C14. Messages the relay must not act on: an event that is redacted or was not decrypted, that the
  relay sent itself, that comes from a room failing the room check, or whose body is not a valid
  protocol message is ignored: no database change, no notice, no post, only possibly a counter.
\<close>

theorem unacceptable_events_are_ignored:
  assumes "ev_redacted event \<or> \<not> ev_decrypted event \<or> ev_sender event = relay_user_id app
    \<or> check_room (ev_room event) \<noteq> Inr () \<or> \<not> is_ok (matrix_decode (crates_of app) (ev_body event))"
  shows "\<exists>m. handle_inbound app orc event w = (Inr Ignored, w\<lparr>w_metrics := m\<rparr>)"
proof -
  have same: "\<exists>m. w = w\<lparr>w_metrics := m\<rparr>" by (rule exI [of _ "w_metrics w"]) simp
  have ok: "check_room (ev_room event) = Inr () \<longleftrightarrow> is_ok (check_room (ev_room event))"
    by (auto simp: is_ok_iff)
  show ?thesis
    using assms same unfolding ok
    by (auto simp: handle_inbound_def bnd_def inc_def ret_def is_ok_def split: sum.splits)
qed

theorem unacceptable_events_are_ignored_witness:
  "\<forall>app orc w. \<exists>m. handle_inbound app orc ((demo_event ''$1'')\<lparr>ev_decrypted := False\<rparr>) w = (Inr Ignored, w\<lparr>w_metrics := m\<rparr>)"
  by (intro allI unacceptable_events_are_ignored) simp

lemma request_change:
  assumes ok: "schema_ok (w_db w)" and run: "process_request app orc event s n t d w = (r, w')" and change: "w_db w' \<noteq> w_db w"
  obtains session challenge_hash room_ct sender_ct where
    "session \<in> set (sessions (w_db w))" "s_domain session = d" "s_session_id session = s"
    "keyed_hash (crates_of app) (lookup_pepper app) n = Inr (s_nonce_hash session)"
    "s_challenge_hash session = None" "o_now orc 0 \<le> s_exp session"
    "sent_at_in_qr_window t (s_iat session) (s_exp session)"
    "ev_event_id event \<notin> fst ` set (replay_request_event_ids (w_db w))"
    "keyed_hash (crates_of app) (lookup_pepper app) (base64url_encode (crates_of app) (o_rng orc 0 16)) = Inr challenge_hash"
    "at_rest_encrypt app orc 1 (ev_room_id event) = Inr room_ct" "at_rest_encrypt app orc 2 (ev_sender event) = Inr sender_ct"
    "sessions (w_db w') = map (\<lambda>x. if x = session then apply_update ''CHALLENGE_SENT''
        (request_update app orc event session (o_now orc 0) challenge_hash room_ct sender_ct) session else x) (sessions (w_db w))"
    "grants (w_db w') = grants (w_db w)" "delivery_jobs (w_db w') = delivery_jobs (w_db w)"
proof -
  from process_request_db [OF run] change obtain nonce_hash x st where
    h: "keyed_hash (crates_of app) (lookup_pepper app) n = Inr nonce_hash"
    and tx: "request_tx app orc event s n t d nonce_hash (o_now orc 0) (start_tx w) = (Inr (Committed x), st)"
    and db: "w_db w' = tx_db st" by blast
  from tx show thesis
  proof (cases rule: request_tx_committed)
    case again
    with db change show thesis by simp
  next
    case (fresh session expiry challenge challenge_hash room_ct sender_ct)
    note mem = get_matching_memD [OF fresh(1), simplified]
    let ?db1 = "snd (reserve_request_event (ev_event_id event) expiry (w_db w))"
    let ?db2 = "snd (reserve_challenge_hash challenge_hash expiry ?db1)"
    have ok2: "schema_ok ?db2" using ok by (intro challenge_hashes.keeps request_events.keeps)
    have s2: "session \<in> set (sessions ?db2)" using mem by (simp add: frame)
    have cas: "cas_update (s_id session) (s_version session) ''CHALLENGE_SENT''
        (request_update app orc event session (o_now orc 0) challenge_hash room_ct sender_ct) ?db2 = (Inr True, w_db w')"
      using fresh(12) db by simp
    from cas have upd: "fst (cas_update (s_id session) (s_version session) ''CHALLENGE_SENT''
        (request_update app orc event session (o_now orc 0) challenge_hash room_ct sender_ct) ?db2) = Inr True"
      and db': "w_db w' = snd (cas_update (s_id session) (s_version session) ''CHALLENGE_SENT''
        (request_update app orc event session (o_now orc 0) challenge_hash room_ct sender_ct) ?db2)" by simp_all
    have rows: "sessions (w_db w') = map (\<lambda>x. if x = session then apply_update ''CHALLENGE_SENT''
        (request_update app orc event session (o_now orc 0) challenge_hash room_ct sender_ct) session else x) (sessions (w_db w))"
      unfolding db' cas_update_InrD(2) [OF ok2 s2 upd] by (simp add: frame)
    have tables: "grants (w_db w') = grants (w_db w)" "delivery_jobs (w_db w') = delivery_jobs (w_db w)"
      unfolding db' by (simp_all add: frame)
    show thesis
      by (rule that [OF _ _ _ _ _ _ _ _ _ _ _ rows tables])
        (use fresh mem h in \<open>simp_all add: request_events.refused_unless_new CHALLENGE_BYTES_def\<close>)
  qed
qed

lemmas demo_request_commits = request_commits [OF demo_schema demo_calm, where app = demo_app and session = demo_row
  and n = demo_nonce and t = 100 and event = "demo_event ''$1''" and expiry = 30200]

lemma demo_request_change:
  "w_db (snd (process_request demo_app demo_oracles (demo_event ''$1'') demo_sid demo_nonce 100 ''a.org'' demo_world)) \<noteq> w_db demo_world"
proof -
  let ?tx = "request_tx demo_app demo_oracles (demo_event ''$1'') demo_sid demo_nonce 100 ''a.org'' (pad32 demo_nonce) 100"
  obtain m db where tx: "run_tx demo_oracles ?tx demo_world = (Inr (Some m), demo_world\<lparr>w_db := db\<rparr>)"
    and key: "''$1'' \<in> fst ` set (replay_request_event_ids db)"
    by (rule demo_request_commits) (simp_all add: demo_hmac demo_aead demo_db empty_database_def time_defs
        saturating_sub_def CLOCK_SKEW_MS_def)
  have "w_db (snd (process_request demo_app demo_oracles (demo_event ''$1'') demo_sid demo_nonce 100 ''a.org'' demo_world)) = db"
    using tx by (simp add: process_request_def lift_then bnd_def lift_result_def send_notice_def inc_def ret_def split: sum.splits)
  with key show ?thesis by (auto simp: demo_db empty_database_def)
qed

text \<open>
  C11. A challenge is issued once, and only for a live registration: a request changes the database
  only when the session registered for that domain, session id and nonce exists, has not expired,
  was requested inside its window and has no challenge yet, and the event was not seen before.
  The change is then exactly: that row gets the hash of a freshly drawn challenge, an expiry no
  later than the session's, and the encrypted room and sender; grants and deliveries stay as they
  are.
\<close>

theorem challenge_issued_once:
  assumes "schema_ok (w_db w)" "process_request app orc event s n t d w = (r, w')" "w_db w' \<noteq> w_db w"
  shows "\<exists>session challenge_hash room_ct sender_ct.
      session \<in> set (sessions (w_db w)) \<and> s_domain session = d \<and> s_session_id session = s
    \<and> keyed_hash (crates_of app) (lookup_pepper app) n = Inr (s_nonce_hash session)
    \<and> s_challenge_hash session = None \<and> o_now orc 0 \<le> s_exp session
    \<and> sent_at_in_qr_window t (s_iat session) (s_exp session)
    \<and> ev_event_id event \<notin> fst ` set (replay_request_event_ids (w_db w))
    \<and> keyed_hash (crates_of app) (lookup_pepper app) (base64url_encode (crates_of app) (o_rng orc 0 16)) = Inr challenge_hash
    \<and> at_rest_encrypt app orc 1 (ev_room_id event) = Inr room_ct \<and> at_rest_encrypt app orc 2 (ev_sender event) = Inr sender_ct
    \<and> sessions (w_db w') = map (\<lambda>x. if x = session then session\<lparr>s_state := ''CHALLENGE_SENT'', s_version := s_version session + 1,
        s_request_event_id := Some (ev_event_id event), s_request_room_ciphertext := Some room_ct,
        s_request_sender_ciphertext := Some sender_ct, s_challenge_hash := Some challenge_hash,
        s_challenge_expires_at := Some (min (saturating_add (o_now orc 0) 300000) (s_exp session))\<rparr> else x) (sessions (w_db w))
    \<and> grants (w_db w') = grants (w_db w) \<and> delivery_jobs (w_db w') = delivery_jobs (w_db w)"
proof -
  have row: "apply_update ''CHALLENGE_SENT'' (request_update app orc event x (o_now orc 0) h rc sc) x
     = x\<lparr>s_state := ''CHALLENGE_SENT'', s_version := s_version x + 1,
        s_request_event_id := Some (ev_event_id event), s_request_room_ciphertext := Some rc,
        s_request_sender_ciphertext := Some sc, s_challenge_hash := Some h,
        s_challenge_expires_at := Some (min (saturating_add (o_now orc 0) 300000) (s_exp x))\<rparr>" for x h rc sc
    by (simp add: apply_update_def request_update_def no_update_def coalesce_def challenge_expires_at_def MAX_TTL_MS_def)
  from assms show ?thesis by (rule request_change) (unfold row, blast)
qed

theorem challenge_issued_once_witness:
  "s_challenge_hash demo_row = None \<and> ''$1'' \<notin> fst ` set (replay_request_event_ids (w_db demo_world)) \<and>
   (\<exists>h. map s_challenge_hash (sessions (w_db (snd (process_request demo_app demo_oracles (demo_event ''$1'') demo_sid demo_nonce
     100 ''a.org'' demo_world)))) = [Some h])"
proof -
  obtain r w' where run: "process_request demo_app demo_oracles (demo_event ''$1'') demo_sid demo_nonce 100 ''a.org'' demo_world = (r, w')"
    by fastforce
  from demo_request_change have "w_db w' \<noteq> w_db demo_world" by (simp add: run)
  from challenge_issued_once [OF demo_schema run this] show ?thesis
    by (auto simp: run demo_db empty_database_def)
qed

end
