(* ===== verification/Database.thy ===== *)
theory Database
  imports App
begin

text \<open>
  \<^verbatim>\<open>src/db/mod.rs\<close>: connecting, migrations, the advisory lock and the ping. The server's state is whether the
  migration table and the tables of \<^verbatim>\<open>0001_init.sql\<close> exist and what they hold; each statement may fail before
  or after it took effect.
\<close>

record cluster =
  schema_migrations :: "string list option"
  tables :: "database option"

record connection =
  cn_url_parses :: bool
  cn_pool_builds :: bool
  cn_pool_get :: bool
  cn_stmt :: "nat \<Rightarrow> commit_outcome"

definition statement :: "commit_outcome \<Rightarrow> (cluster \<Rightarrow> cluster option) \<Rightarrow> (cluster, unit) eff" where
  "statement outcome f cl =
     (case f cl of
        None \<Rightarrow> (err InternalError, cl)
      | Some cl' \<Rightarrow> (case outcome of
            CommitDone \<Rightarrow> (Inr (), cl')
          | CommitFailed \<Rightarrow> (err InternalError, cl)
          | CommitUnacknowledged \<Rightarrow> (err InternalError, cl')))"

definition applied :: "cluster \<Rightarrow> string list" where
  "applied cl = (case schema_migrations cl of None \<Rightarrow> [] | Some versions \<Rightarrow> versions)"

text \<open>\<^verbatim>\<open>CREATE TABLE IF NOT EXISTS schema_migrations\<close>, \<^verbatim>\<open>0001_init.sql\<close> (plain \<^verbatim>\<open>CREATE TABLE\<close>, refused when the
  tables exist) and the \<^verbatim>\<open>INSERT\<close> of the version.\<close>

definition create_migrations :: "cluster \<Rightarrow> cluster option" where
  "create_migrations cl = Some (cl\<lparr>schema_migrations := Some (applied cl)\<rparr>)"

definition init_sql :: "cluster \<Rightarrow> cluster option" where
  "init_sql cl = (if tables cl = None then Some (cl\<lparr>tables := Some empty_database\<rparr>) else None)"

definition insert_version :: "string \<Rightarrow> cluster \<Rightarrow> cluster option" where
  "insert_version v cl =
     (if schema_migrations cl = None \<or> v \<in> set (applied cl) then None else Some (cl\<lparr>schema_migrations := Some (applied cl @ [v])\<rparr>))"

definition run_migrations :: "connection \<Rightarrow> (cluster, unit) eff" where
  "run_migrations cn =
     bnd (lift_result (require (cn_pool_get cn) (Problem InternalError))) (\<lambda>_.
     bnd (statement (cn_stmt cn 0) create_migrations) (\<lambda>_.
     bnd (statement (cn_stmt cn 1) Some) (\<lambda>_ cl.
       if ''0001_init'' \<in> set (applied cl) then (Inr (), cl)
       else
         bnd (statement (cn_stmt cn 2) init_sql) (\<lambda>_.
           statement (cn_stmt cn 3) (insert_version ''0001_init'')) cl)))"

definition connect :: "connection \<Rightarrow> (cluster, unit) eff" where
  "connect cn =
     bnd (lift_result (require (cn_url_parses cn) (Problem InternalError))) (\<lambda>_.
     bnd (lift_result (require (cn_pool_builds cn) (Problem InternalError))) (\<lambda>_.
       run_migrations cn))"

text \<open>\<^verbatim>\<open>pg_try_advisory_lock\<close>: \<^const>\<open>None\<close> when the query fails.\<close>

definition try_advisory_lock :: "bool \<Rightarrow> bool option \<Rightarrow> bool relay_result" where
  "try_advisory_lock pool_get answer =
     and_then (require pool_get (Problem InternalError)) (\<lambda>_. ok_or (Problem InternalError) answer)"

definition ping :: "oracles \<Rightarrow> unit relay_result" where
  "ping orc =
     and_then (require (o_pool orc) (Problem InternalError)) (\<lambda>_. require (o_sql orc 0) (Problem InternalError))"

subsection \<open>Migrations\<close>

definition cluster_ok :: "cluster \<Rightarrow> bool" where
  "cluster_ok cl \<longleftrightarrow> (''0001_init'' \<in> set (applied cl) \<longrightarrow> tables cl \<noteq> None)"

definition half_migrated :: "cluster \<Rightarrow> bool" where
  "half_migrated cl \<longleftrightarrow> ''0001_init'' \<notin> set (applied cl) \<and> tables cl \<noteq> None"

lemma statement_cases:
  assumes "statement outcome f cl = (r, cl')"
  obtains "r = err InternalError" "cl' = cl" | "f cl = Some cl'" "r = Inr () \<or> r = err InternalError"
  using assms by (auto simp: statement_def split: option.splits commit_outcome.splits)

lemma statement_Inr: "statement outcome f cl = (Inr (), cl') \<longleftrightarrow> outcome = CommitDone \<and> f cl = Some cl'"
  by (auto simp: statement_def split: option.splits commit_outcome.splits)

lemma migration_effects:
  "create_migrations cl = Some cl' \<Longrightarrow> applied cl' = applied cl \<and> tables cl' = tables cl"
  "init_sql cl = Some cl' \<Longrightarrow> applied cl' = applied cl \<and> tables cl = None \<and> tables cl' = Some empty_database"
  "insert_version v cl = Some cl' \<Longrightarrow> applied cl' = applied cl @ [v] \<and> tables cl' = tables cl"
  by (auto simp: create_migrations_def init_sql_def insert_version_def applied_def split: if_splits option.splits)

lemma run_migrations_cases:
  assumes "run_migrations cn cl = (r, cl')"
  obtains (same) "applied cl' = applied cl" "tables cl' = tables cl" "r = Inr () \<longrightarrow> ''0001_init'' \<in> set (applied cl)"
  | (half) "applied cl' = applied cl" "tables cl = None" "tables cl' = Some empty_database" "r = err InternalError"
      "''0001_init'' \<notin> set (applied cl)"
  | (full) "applied cl' = applied cl @ [''0001_init'']" "tables cl = None" "tables cl' = Some empty_database"
proof -
  obtain r0 c0 where s0: "statement (cn_stmt cn 0) create_migrations cl = (r0, c0)" by fastforce
  obtain r1 c1 where s1: "statement (cn_stmt cn 1) Some c0 = (r1, c1)" by fastforce
  obtain r2 c2 where s2: "statement (cn_stmt cn 2) init_sql c1 = (r2, c2)" by fastforce
  obtain r3 c3 where s3: "statement (cn_stmt cn 3) (insert_version ''0001_init'') c2 = (r3, c3)" by fastforce
  have a0: "applied c0 = applied cl" "tables c0 = tables cl"
    using s0 by (auto elim!: statement_cases dest: migration_effects(1))
  have a1: "c1 = c0" using s1 by (auto elim!: statement_cases)
  show thesis
  proof (cases "cn_pool_get cn \<and> r0 = Inr () \<and> r1 = Inr () \<and> ''0001_init'' \<notin> set (applied cl)")
    case False
    with assms s0 s1 a0 a1 show thesis
      by (intro same) (auto simp: run_migrations_def lift_result_def bnd_def require_def split: sum.splits if_splits)
  next
    case True
    then have run: "(case r2 of Inl e \<Rightarrow> (Inl e, c2) | Inr _ \<Rightarrow> (r3, c3)) = (r, cl')"
      using assms s0 s1 s2 s3 a0 a1 by (auto simp: run_migrations_def lift_result_def bnd_def require_def split: sum.splits)
    from s2 show thesis
    proof (cases rule: statement_cases)
      case 1
      with run a0 a1 show thesis by (intro same) auto
    next
      case 2
      with migration_effects(2) a0 a1 have c2: "applied c2 = applied cl" "tables cl = None" "tables c2 = Some empty_database" by auto
      from s3 show thesis
      proof (cases rule: statement_cases)
        case 1
        with run c2 2 True show thesis by (intro half) auto
      next
        case 3: 2
        with migration_effects(3) c2 have "applied c3 = applied cl @ [''0001_init'']" "tables c3 = Some empty_database" by auto
        with run c2 2 True show thesis by (cases r2) (auto intro: half full)
      qed
    qed
  qed
qed

lemma run_migrations_keeps:
  assumes "cluster_ok cl" "run_migrations cn cl = (r, cl')"
  shows "cluster_ok cl'" "tables cl = Some db \<Longrightarrow> tables cl' = Some db"
    "r = Inr () \<Longrightarrow> tables cl' = Some (case tables cl of None \<Rightarrow> empty_database | Some db \<Rightarrow> db) \<and> ''0001_init'' \<in> set (applied cl')"
  using assms(2,1) by (cases rule: run_migrations_cases; auto simp: cluster_ok_def split: option.splits)+

text \<open>
  A migration that stops between its two statements is never repaired: the tables exist, the version is not
  recorded, and from then on every start fails, because the initial script is run again and refused. This is
  reachable from an empty server when only the last statement fails.
\<close>

lemma interrupted_migration_stuck:
  assumes "half_migrated cl"
  shows "\<exists>e cl'. run_migrations cn cl = (Inl e, cl') \<and> half_migrated cl' \<and> tables cl' = tables cl"
proof -
  obtain r cl' where run: "run_migrations cn cl = (r, cl')" by fastforce
  from run assms show ?thesis
    by (cases rule: run_migrations_cases) (auto simp: half_migrated_def run split: sum.splits intro: sum.exhaust [of r])
qed

lemma interrupted_migration_reachable:
  "\<exists>cn e cl'. run_migrations cn \<lparr>schema_migrations = None, tables = None\<rparr> = (Inl e, cl') \<and> half_migrated cl'"
  by (rule exI [of _ "\<lparr>cn_url_parses = True, cn_pool_builds = True, cn_pool_get = True,
        cn_stmt = (\<lambda>k. if k = 3 then CommitFailed else CommitDone)\<rparr>"])
    (simp add: run_migrations_def lift_result_def bnd_def statement_def create_migrations_def init_sql_def insert_version_def
      applied_def half_migrated_def)

text \<open>
  C30. Migrations keep the data and can block the relay. Whatever the connection does, running the migrations
  never removes or changes stored tables; when they succeed the tables are there, empty ones if there were
  none, and the version is recorded. But the tables and the version are written by separate statements:
  a start that is interrupted between them leaves a server on which every later start fails.
\<close>

theorem migrations_keep_data:
  assumes "cluster_ok cl" "run_migrations cn cl = (r, cl')"
  shows "cluster_ok cl' \<and> (\<forall>db. tables cl = Some db \<longrightarrow> tables cl' = Some db)
    \<and> (r = Inr () \<longrightarrow> tables cl' = Some (case tables cl of None \<Rightarrow> empty_database | Some db \<Rightarrow> db) \<and> ''0001_init'' \<in> set (applied cl'))
    \<and> (half_migrated cl \<longrightarrow> r \<noteq> Inr () \<and> half_migrated cl')
    \<and> (\<exists>cn e cl1. run_migrations cn \<lparr>schema_migrations = None, tables = None\<rparr> = (Inl e, cl1) \<and> half_migrated cl1)"
  using run_migrations_keeps [OF assms] interrupted_migration_stuck [of cl cn] interrupted_migration_reachable assms(2) by auto

theorem migrations_keep_data_witness:
  "\<exists>r cl'. run_migrations \<lparr>cn_url_parses = True, cn_pool_builds = True, cn_pool_get = True, cn_stmt = (\<lambda>_. CommitDone)\<rparr>
       \<lparr>schema_migrations = Some [], tables = Some empty_database\<rparr> = (r, cl')
     \<and> r \<noteq> Inr () \<and> half_migrated cl' \<and> tables cl' = Some empty_database"
proof -
  let ?cl = "\<lparr>schema_migrations = Some [], tables = Some empty_database\<rparr>"
  have "cluster_ok ?cl" "half_migrated ?cl" by (simp_all add: cluster_ok_def half_migrated_def applied_def)
  with migrations_keep_data [OF _ surjective_pairing, of ?cl] show ?thesis by (metis cluster.select_convs(2) prod.collapse)
qed

end
