(* ===== verification/Http.thy ===== *)
theory Http
  imports Registration Database
begin

text \<open>
  \<^verbatim>\<open>src/http/\<close>: the registration endpoint with its rate limit, the readiness probe, problem bodies
  and the key set. A response is its status, its headers and its JSON or text body. The limiter's
  two counters are 64-bit words. The routing table and the body limit are modelled; the answers axum itself
  gives (no such route, body over the limit, timeout) are \<^const>\<open>None\<close>.
\<close>

datatype http_body = Json Value | Text string

record Response =
  rp_status :: nat
  rp_headers :: "(string \<times> string) list"
  rp_body :: http_body

subsection \<open>problems.rs\<close>

definition problem :: "crates \<Rightarrow> bytes \<Rightarrow> ProblemCode \<Rightarrow> Response" where
  "problem c random_bytes pc =
     \<lparr>rp_status = status pc,
      rp_headers = [(''cache-control'', ''no-store''), (''content-type'', ''application/problem+json'')],
      rp_body = Json (Object
        [(''type'', String (''https://relay.pseud0.org/problems/'' @ as_str pc)), (''title'', String (title pc)),
         (''status'', json_int (int (status pc))), (''code'', String (as_str pc)),
         (''correlationId'', String (base64url_encode c random_bytes))])\<rparr>"

definition rate_limited :: "crates \<Rightarrow> bytes \<Rightarrow> Response" where
  "rate_limited c random_bytes = (problem c random_bytes RateLimited)\<lparr>rp_status := 429\<rparr>"

definition into_response :: "crates \<Rightarrow> bytes \<Rightarrow> RelayError \<Rightarrow> Response" where
  "into_response c random_bytes e = problem c random_bytes (code e)"

subsection \<open>jwks.rs\<close>

definition jwks :: "AppState \<Rightarrow> Value" where
  "jwks app = Object [(''keys'', Array [Object
     [(''kty'', String ''OKP''), (''crv'', String ''Ed25519''),
      (''x'', String (base64url_encode (crates_of app) (public_key_raw (crates_of app) (signing_key app)))),
      (''use'', String ''sig''), (''alg'', String ''EdDSA''), (''kid'', String (signing_kid app))]])]"

subsection \<open>routes.rs\<close>

record limiter =
  reg_window :: "64 word"
  reg_count :: "64 word"

definition rate_limit_ok :: "64 word \<Rightarrow> limiter \<Rightarrow> bool \<times> limiter" where
  "rate_limit_ok now l =
     (if reg_window l \<noteq> now then (True, l\<lparr>reg_window := now, reg_count := 1\<rparr>)
      else (reg_count l < 30, l\<lparr>reg_count := reg_count l + 1\<rparr>))"

definition live :: Response where
  "live = \<lparr>rp_status = 200, rp_headers = [], rp_body = Text ''ok''\<rparr>"

definition matrix_sync_is_fresh :: "int \<Rightarrow> int \<Rightarrow> bool \<Rightarrow> bool" where
  "matrix_sync_is_fresh now_ms last_sync_ms sync_running \<longleftrightarrow>
     sync_running \<and> last_sync_ms > 0 \<and> saturating_sub now_ms last_sync_ms \<le> MATRIX_SYNC_STALE_MS"

definition ready :: "AppState \<Rightarrow> oracles \<Rightarrow> world \<Rightarrow> Response" where
  "ready app orc w =
     (if \<not> is_ok (ping orc) then problem (crates_of app) (o_rng orc 9 16) RelayUnavailable
      else if \<not> matrix_sync_is_fresh (o_now orc 0) (w_last_sync w) (w_sync_ready w)
      then problem (crates_of app) (o_rng orc 9 16) RelayUnavailable
      else \<lparr>rp_status = 200, rp_headers = [], rp_body = Text ''ready''\<rparr>)"

definition response_json :: "RegistrationResponse \<Rightarrow> Value" where
  "response_json r = Object
     [(''version'', json_int (resp_version r)), (''sessionId'', String (resp_session_id r)),
      (''status'', String (resp_status r)), (''expiresAt'', json_int (resp_expires_at r))]"

definition site_sessions :: "AppState \<Rightarrow> oracles \<Rightarrow> 64 word \<Rightarrow> bytes \<Rightarrow> limiter \<times> world \<Rightarrow> Response \<times> limiter \<times> world" where
  "site_sessions app orc now_s body lw =
     (let c = crates_of app; (allowed, l) = rate_limit_ok now_s (fst lw); w = snd lw in
      if \<not> allowed then (rate_limited c (o_rng orc 9 16), l, w)
      else if length body > MAX_HTTP_BODY then (problem c (o_rng orc 9 16) InvalidRequest, l, w)
      else case from_slice (json_parse c) registration_from_value body of
        Inl _ \<Rightarrow> (problem c (o_rng orc 9 16) InvalidRequest, l, w)
      | Inr request \<Rightarrow>
          (case register_session app orc request w of
             (Inr (response, created), w1) \<Rightarrow>
               (\<lparr>rp_status = (if created then 201 else 200),
                 rp_headers = [(''content-type'', ''application/json''), (''cache-control'', ''no-store'')],
                 rp_body = Json (response_json response)\<rparr>, l, w1)
           | (Inl e, w1) \<Rightarrow>
               (into_response c (o_rng orc 9 16) (Problem (code e)), l,
                w1\<lparr>w_metrics := (w_metrics w1)\<lparr>registration_failures := registration_failures (w_metrics w1) + 1\<rparr>\<rparr>)))"

datatype endpoint = SiteSessions | JwksDocument | Live | Ready

definition routes :: "(string \<times> string \<times> endpoint) list" where
  "routes = [(''/v1/site-sessions'', ''POST'', SiteSessions), (''/.well-known/jwks.json'', ''GET'', JwksDocument),
     (''/health/live'', ''GET'', Live), (''/health/ready'', ''GET'', Ready)]"

definition router :: "AppState \<Rightarrow> oracles \<Rightarrow> 64 word \<Rightarrow> string \<Rightarrow> string \<Rightarrow> bytes \<Rightarrow> limiter \<times> world \<Rightarrow> (Response \<times> limiter \<times> world) option" where
  "router app orc now_s verb path body lw =
     (if length body > MAX_HTTP_BODY then None
      else case find (\<lambda>(p, v, _). p = path \<and> v = verb) routes of
        None \<Rightarrow> None
      | Some (_, _, endpoint) \<Rightarrow> Some (case endpoint of
          SiteSessions \<Rightarrow> site_sessions app orc now_s body lw
        | JwksDocument \<Rightarrow> (\<lparr>rp_status = 200, rp_headers = [(''content-type'', ''application/json'')], rp_body = Json (jwks app)\<rparr>, lw)
        | Live \<Rightarrow> (live, lw)
        | Ready \<Rightarrow> (ready app orc (snd lw), lw)))"

end
