(* ===== verification/Registration_Properties.thy ===== *)
theory Registration_Properties
  imports Registration Relay_Demo
begin

text \<open>
  The properties of \<^verbatim>\<open>src/services/registration.rs\<close>: a session exists only because the site that owns
  its domain asked for it.
\<close>

lemma register_tx_committed:
  "register_tx app orc n st = (Inr (Committed x), st') \<Longrightarrow> insert_registered (crates_of app) n (tx_db st) = (Inr x, tx_db st')"
  by (auto simp: register_tx_def eff_simps intro: prod_eqI)

lemma fetch_or_reject_then:
  "bnd (fetch_or_reject orc d) k w = (case o_fetch orc d of
     Inl _ \<Rightarrow> (err DomainVerificationFailed, w\<lparr>w_metrics := (w_metrics w)\<lparr>ssrf_rejections := ssrf_rejections (w_metrics w) + 1\<rparr>\<rparr>)
   | Inr metadata \<Rightarrow> k metadata w)"
  by (simp add: fetch_or_reject_def bnd_def inc_def lift_result_def ret_def split: sum.splits)

lemma register_finish_quiet:
  "quiet (\<lambda>w. bnd (case outcome of Created \<Rightarrow> inc f | Identical \<Rightarrow> ret ()) (\<lambda>_. ret y) w)"
  by (cases outcome) (auto intro: quiet_bnd [unfolded bnd_def])

definition registration_checked :: "AppState \<Rightarrow> oracles \<Rightarrow> RegistrationRequest \<Rightarrow> SiteMetadata \<Rightarrow> NewSession \<Rightarrow> bool" where
  "registration_checked app orc request metadata n \<longleftrightarrow>
     registration_validate request = Inr () \<and> o_now orc 0 < reg_exp request \<and> o_fetch orc (reg_domain request) = Inr metadata
   \<and> (\<exists>qr canonical. qr_canonical (crates_of app) request = Inr qr
        \<and> ed25519_verify (crates_of app) (md_public_key metadata) qr (reg_qr_signature request) = Inr ()
        \<and> registration_canonical (crates_of app) request = Inr canonical
        \<and> ed25519_verify (crates_of app) (md_public_key metadata) canonical (reg_signature request) = Inr ())
   \<and> (\<exists>nonce_hash nonce_ct registration_hash json. keyed_hash (crates_of app) (lookup_pepper app) (reg_nonce request) = Inr nonce_hash
        \<and> at_rest_encrypt app orc 0 (reg_nonce request) = Inr nonce_ct
        \<and> json_to_vec (crates_of app) (Object (registration_json request)) = Some json
        \<and> keyed_hash (crates_of app) (lookup_pepper app) json = Inr registration_hash
        \<and> n = new_session request metadata nonce_hash nonce_ct registration_hash)"

lemma register_session_cases:
  assumes "register_session app orc request w = (r, w')"
  obtains (refused) "w_db w' = w_db w" "\<exists>e. r = Inl e"
  | (checked) metadata n where "registration_checked app orc request metadata n"
    "bnd (run_tx orc (register_tx app orc n)) (\<lambda>outcome.
        bnd (case outcome of Created \<Rightarrow> inc (\<lambda>m. m\<lparr>registrations := registrations m + 1\<rparr>) | Identical \<Rightarrow> ret ()) (\<lambda>_.
        ret (\<lparr>resp_version = 1, resp_session_id = reg_session_id request, resp_status = ''registered'',
              resp_expires_at = reg_exp request\<rparr>, outcome = Created))) w = (r, w')"
  using assms
  by (auto simp: register_session_def Let_def lift_then fetch_or_reject_then lift_result_def verify_or_invalid_def result_simps
      registration_checked_def split: sum.splits if_splits)

lemma register_session_db:
  assumes "register_session app orc request w = (r, w')" "w_db w' \<noteq> w_db w"
  obtains metadata n x where "registration_checked app orc request metadata n"
    "insert_registered (crates_of app) n (w_db w) = (Inr x, w_db w')"
  using assms(1)
proof (cases rule: register_session_cases)
  case refused
  with assms(2) show thesis by simp
next
  case (checked metadata n)
  from run_tx_then_quiet [OF checked(2) register_finish_quiet] assms(2) obtain x s where
    "register_tx app orc n (start_tx w) = (Inr (Committed x), s)" "w_db w' = tx_db s" by blast
  with checked(1) register_tx_committed [of app orc n "start_tx w"] show thesis by (auto intro: that)
qed

lemma insert_registered_rows:
  assumes "insert_registered c n db = (Inr x, db')" "sessions db' \<noteq> sessions db"
  shows "x = Created" "\<exists>t. sessions db' = sessions db @ [new_row (session_seq db) t n]"
    "\<not> (\<exists>y \<in> set (sessions db). s_domain y = n_domain n \<and> (s_session_id y = n_session_id n \<or> s_nonce_hash y = n_nonce_hash n))"
    "grants db' = grants db" "delivery_jobs db' = delivery_jobs db"
  using assms
  by (auto simp: insert_registered_def Let_def list_ex_iff get_by_session_def split: sum.splits if_splits option.splits prod.splits)

text \<open>
  C10. Only the owner of a domain registers sessions for it: a registration adds a session only when the
  request is well-formed and not expired, the metadata was fetched from the request's own domain, and
  both the QR signature and the registration signature verify under the key in that metadata over the
  canonical bytes of the request. The session is new for that domain both by id and by nonce, it is
  appended with exactly the request's data in state \<^verbatim>\<open>SITE_REGISTERED\<close> without challenge, and nothing
  else changes. In every other case the registered sessions stay as they are.
\<close>

theorem registration_authenticated:
  assumes "register_session app orc request w = (r, w')" "sessions (w_db w') \<noteq> sessions (w_db w)"
  shows "\<exists>metadata qr canonical row.
      registration_validate request = Inr () \<and> o_now orc 0 < reg_exp request \<and> o_fetch orc (reg_domain request) = Inr metadata
    \<and> qr_canonical (crates_of app) request = Inr qr
    \<and> ed25519_verify (crates_of app) (md_public_key metadata) qr (reg_qr_signature request) = Inr ()
    \<and> registration_canonical (crates_of app) request = Inr canonical
    \<and> ed25519_verify (crates_of app) (md_public_key metadata) canonical (reg_signature request) = Inr ()
    \<and> (\<forall>y \<in> set (sessions (w_db w)). s_domain y = reg_domain request \<longrightarrow>
         s_session_id y \<noteq> reg_session_id request \<and> s_nonce_hash y \<noteq> s_nonce_hash row)
    \<and> s_domain row = reg_domain request \<and> s_session_id row = reg_session_id request
    \<and> keyed_hash (crates_of app) (lookup_pepper app) (reg_nonce request) = Inr (s_nonce_hash row)
    \<and> s_iat row = reg_iat request \<and> s_exp row = reg_exp request \<and> s_site_display_name row = md_display_name metadata
    \<and> s_state row = ''SITE_REGISTERED'' \<and> s_challenge_hash row = None
    \<and> sessions (w_db w') = sessions (w_db w) @ [row]
    \<and> grants (w_db w') = grants (w_db w) \<and> delivery_jobs (w_db w') = delivery_jobs (w_db w)"
proof -
  have change: "w_db w' \<noteq> w_db w" using assms(2) by auto
  obtain metadata n x where checked: "registration_checked app orc request metadata n"
    and ins: "insert_registered (crates_of app) n (w_db w) = (Inr x, w_db w')"
    by (rule register_session_db [OF assms(1) change])
  note rows = insert_registered_rows [OF ins assms(2)]
  from rows(2) obtain t where row: "sessions (w_db w') = sessions (w_db w) @ [new_row (session_seq (w_db w)) t n]" by blast
  from checked obtain qr canonical where sigs: "qr_canonical (crates_of app) request = Inr qr"
    "ed25519_verify (crates_of app) (md_public_key metadata) qr (reg_qr_signature request) = Inr ()"
    "registration_canonical (crates_of app) request = Inr canonical"
    "ed25519_verify (crates_of app) (md_public_key metadata) canonical (reg_signature request) = Inr ()"
    unfolding registration_checked_def by blast
  from checked obtain nonce_hash nonce_ct registration_hash where
    nonce: "keyed_hash (crates_of app) (lookup_pepper app) (reg_nonce request) = Inr nonce_hash"
    and n: "n = new_session request metadata nonce_hash nonce_ct registration_hash"
    unfolding registration_checked_def by blast
  show ?thesis
    using checked
    by (intro exI [of _ metadata] exI [of _ qr] exI [of _ canonical] exI [of _ "new_row (session_seq (w_db w)) t n"])
      (use sigs row rows(3-5) nonce in \<open>simp add: registration_checked_def n new_session_def new_row_def; blast\<close>)
qed

subsection \<open>A concrete registration\<close>

definition demo_metadata :: SiteMetadata where
  "demo_metadata = \<lparr>md_version = 1, md_domain = ''b.org'', md_display_name = ''B'',
     md_public_key = base64url_encode demo_crates (ed_public demo_crates ''site''), md_signature = []\<rparr>"

definition demo_unsigned :: RegistrationRequest where
  "demo_unsigned = \<lparr>reg_version = 1, reg_domain = ''b.org'', reg_session_id = demo_sid, reg_nonce = demo_nonce, reg_iat = 50, reg_exp = 200,
     reg_display_name = ''Al'', reg_qr_signature = [], reg_signature = []\<rparr>"

definition demo_qr_signed :: RegistrationRequest where
  "demo_qr_signed = demo_unsigned\<lparr>reg_qr_signature := ed25519_sign demo_crates ''site'' (projr (qr_canonical demo_crates demo_unsigned))\<rparr>"

definition demo_request :: RegistrationRequest where
  "demo_request = demo_qr_signed\<lparr>reg_signature := ed25519_sign demo_crates ''site'' (projr (registration_canonical demo_crates demo_qr_signed))\<rparr>"

definition demo_site_oracles :: oracles where
  "demo_site_oracles = demo_oracles\<lparr>o_fetch := (\<lambda>_. Inr demo_metadata)\<rparr>"

lemma demo_site_signature: "ed25519_verify demo_crates (md_public_key demo_metadata) m (ed25519_sign demo_crates ''site'' m) = Inr ()"
  using ed25519_verify_sign [OF demo_base64 demo_ed25519] by (simp add: demo_metadata_def public_key_raw_def)

lemma demo_request_canonical:
  "\<exists>qr. qr_canonical demo_crates demo_request = Inr qr \<and> reg_qr_signature demo_request = ed25519_sign demo_crates ''site'' qr"
  "\<exists>b. registration_canonical demo_crates demo_request = Inr b \<and> reg_signature demo_request = ed25519_sign demo_crates ''site'' b"
proof -
  have same: "qr_canonical demo_crates demo_request = qr_canonical demo_crates demo_unsigned"
    "registration_canonical demo_crates demo_request = registration_canonical demo_crates demo_qr_signed"
    by (simp_all add: qr_canonical_def qr_fields_def registration_canonical_def registration_fields_def demo_request_def demo_qr_signed_def)
  obtain qr where "qr_canonical demo_crates demo_unsigned = Inr qr"
    using qr_doc.canonical_exists [of quoted demo_unsigned] by (auto simp: qr_canonical_def literal_total_def demo_crates_def quoted_def)
  then show "\<exists>qr. qr_canonical demo_crates demo_request = Inr qr \<and> reg_qr_signature demo_request = ed25519_sign demo_crates ''site'' qr"
    unfolding same by (simp add: demo_request_def demo_qr_signed_def)
  obtain b where "registration_canonical demo_crates demo_qr_signed = Inr b"
    using registration_doc.canonical_exists [of quoted demo_qr_signed]
    by (auto simp: registration_canonical_def literal_total_def demo_crates_def quoted_def)
  then show "\<exists>b. registration_canonical demo_crates demo_request = Inr b \<and> reg_signature demo_request = ed25519_sign demo_crates ''site'' b"
    unfolding same by (simp add: demo_request_def)
qed

lemma demo_site_signs: "validate_signature_b64 (ed25519_sign demo_crates ''site'' m) = Inr ()"
  using base64_engine.enc_signature [OF demo_base64] demo_ed25519 [of "''site''"]
  by (simp add: ed25519_sign_def base64url_encode_def ed25519_ok_def)

lemma demo_request_valid: "registration_validate demo_request = Inr ()"
proof -
  have "validate_domain_field ''b.org'' = Inr ()" "validate_id demo_sid = Inr ()" "validate_id demo_nonce = Inr ()"
    "validate_window 50 200 = Inr ()" "validate_display_name ''Al'' False = Inr ()" by code_simp+
  then show ?thesis
    by (simp add: registration_validate_def demo_request_def demo_qr_signed_def demo_unsigned_def demo_site_signs PROTOCOL_VERSION_def)
qed

lemma demo_request_simps [simp]: "reg_domain demo_request = ''b.org''" "reg_exp demo_request = 200" "reg_nonce demo_request = demo_nonce"
  by (simp_all add: demo_request_def demo_qr_signed_def demo_unsigned_def)

lemma demo_registration_change:
  "sessions (w_db (snd (register_session demo_app demo_site_oracles demo_request demo_world))) \<noteq> sessions (w_db demo_world)"
proof -
  obtain qr b where qr: "qr_canonical demo_crates demo_request = Inr qr" "reg_qr_signature demo_request = ed25519_sign demo_crates ''site'' qr"
    and b: "registration_canonical demo_crates demo_request = Inr b" "reg_signature demo_request = ed25519_sign demo_crates ''site'' b"
    using demo_request_canonical by blast
  obtain j where j: "json_to_vec demo_crates (Object (registration_json demo_request)) = Some j"
    using demo_json [of "registration_json demo_request"] by (force simp: registration_json_def)
  obtain ct where ct: "at_rest_encrypt demo_app demo_site_oracles 0 demo_nonce = Inr ct"
    using at_rest_total [OF _ demo_calm, of demo_app 0 demo_nonce] demo_aead by (auto simp: demo_site_oracles_def at_rest_encrypt_def)
  define n where "n = new_session demo_request demo_metadata (pad32 demo_nonce) ct (pad32 j)"
  have "insert_registered demo_crates n (w_db demo_world) = (Inr Created, (w_db demo_world)\<lparr>session_seq := 3,
      sessions := [demo_row, new_row 2 30200 n]\<rparr>)"
    by (simp add: insert_registered_def n_def new_session_def demo_db demo_crates_def millis_to_utc_def wrapping_add_def
        REPLAY_GRACE_MS_def in_i64_def)
  then show ?thesis
    using qr b j ct n_def
    by (simp add: register_session_def Let_def fetch_or_reject_def demo_request_valid verify_or_invalid_def demo_site_signature
        demo_site_oracles_def bnd_def run_tx_def register_tx_def sql_def ret_def inc_def lift_result_def ok_or_def demo_db)
qed

theorem registration_authenticated_witness:
  "\<exists>row. sessions (w_db (snd (register_session demo_app demo_site_oracles demo_request demo_world))) = [demo_row, row]
     \<and> s_domain row = ''b.org'' \<and> s_state row = ''SITE_REGISTERED''"
  using registration_authenticated [OF surjective_pairing demo_registration_change] by (auto simp: demo_db)

end
