(* ===== verification/Http_Properties.thy ===== *)
theory Http_Properties
  imports Http Registration_Properties
begin

text \<open>
  The properties of \<^verbatim>\<open>src/http/routes.rs\<close>: the rate limit, as a function and as the atomic operations
  concurrent requests interleave, the readiness probe and the answers of the registration endpoint.
\<close>

subsection \<open>The rate limit of requests handled one after the other\<close>

fun limit_run :: "64 word \<Rightarrow> nat \<Rightarrow> limiter \<Rightarrow> bool list \<times> limiter" where
  "limit_run now 0 l = ([], l)"
| "limit_run now (Suc n) l = (let (ok, l1) = rate_limit_ok now l; (oks, l2) = limit_run now n l1 in (ok # oks, l2))"

lemma limit_run_same_window:
  assumes "reg_window l = now" "unat (reg_count l) + n < 2 ^ 64"
  shows "length (filter (\<lambda>ok. ok) (fst (limit_run now n l))) = min n (30 - unat (reg_count l))"
  using assms
proof (induction n arbitrary: l)
  case (Suc n)
  let ?l = "l\<lparr>reg_count := reg_count l + 1\<rparr>"
  have "unat (reg_count l) + 1 < 2 ^ 64" using Suc.prems(2) by simp
  then have count: "unat (reg_count l + 1) = unat (reg_count l) + 1"
    using unat_add_lem [of "reg_count l" 1] by simp
  have "length (filter (\<lambda>ok. ok) (fst (limit_run now n ?l))) = min n (30 - (unat (reg_count l) + 1))"
    using Suc.IH [of ?l] Suc.prems count by simp
  moreover have "reg_count l < 30 \<longleftrightarrow> unat (reg_count l) < 30"
    by (simp add: word_less_nat_alt)
  ultimately show ?case
    using Suc.prems by (auto simp: rate_limit_ok_def case_prod_unfold Let_def)
qed simp

lemma rate_limit_sequential:
  assumes "reg_window l \<noteq> now" "n < 2 ^ 64"
  shows "length (filter (\<lambda>ok. ok) (fst (limit_run now n l))) = min n 30"
proof (cases n)
  case (Suc k)
  have "length (filter (\<lambda>ok. ok) (fst (limit_run now k (l\<lparr>reg_window := now, reg_count := 1\<rparr>)))) = min k 29"
    using limit_run_same_window [of "l\<lparr>reg_window := now, reg_count := 1\<rparr>" now k] assms(2) Suc by simp
  then show ?thesis using assms(1) Suc by (simp add: rate_limit_ok_def case_prod_unfold Let_def)
qed simp

subsection \<open>Concurrent requests\<close>

text \<open>
  The function's atomic operations on the two statics: a load of the window, then either a store of the
  window and a store of the count, or a fetch-and-add. Each request is a thread between two of them.
\<close>

datatype limit_thread = Start | Loaded "64 word" | Stored | Done bool

inductive limit_step :: "64 word \<Rightarrow> limiter \<times> limit_thread list \<Rightarrow> limiter \<times> limit_thread list \<Rightarrow> bool" for now where
  load: "i < length ts \<Longrightarrow> ts ! i = Start \<Longrightarrow> limit_step now (l, ts) (l, ts[i := Loaded (reg_window l)])"
| store_window: "i < length ts \<Longrightarrow> ts ! i = Loaded v \<Longrightarrow> v \<noteq> now \<Longrightarrow>
    limit_step now (l, ts) (l\<lparr>reg_window := now\<rparr>, ts[i := Stored])"
| store_count: "i < length ts \<Longrightarrow> ts ! i = Stored \<Longrightarrow> limit_step now (l, ts) (l\<lparr>reg_count := 1\<rparr>, ts[i := Done True])"
| fetch_add: "i < length ts \<Longrightarrow> ts ! i = Loaded now \<Longrightarrow>
    limit_step now (l, ts) (l\<lparr>reg_count := reg_count l + 1\<rparr>, ts[i := Done (reg_count l < 30)])"

lemma limit_alone: "(limit_step now)\<^sup>*\<^sup>* (l, [Start]) (snd (rate_limit_ok now l), [Done (fst (rate_limit_ok now l))])"
proof (cases "reg_window l = now")
  case True
  have "limit_step now (l, [Start]) (l, [Loaded now])" using limit_step.load [of 0 "[Start]" now l] True by simp
  also have "(limit_step now)\<^sup>*\<^sup>* (l, [Loaded now]) (snd (rate_limit_ok now l), [Done (fst (rate_limit_ok now l))])"
    using limit_step.fetch_add [of 0 "[Loaded now]" now l] True by (intro r_into_rtranclp) (simp add: rate_limit_ok_def)
  finally show ?thesis .
next
  case False
  have load: "limit_step now (l, [Start]) (l, [Loaded (reg_window l)])" using limit_step.load [of 0 "[Start]" now l] by simp
  have window: "limit_step now (l, [Loaded (reg_window l)]) (l\<lparr>reg_window := now\<rparr>, [Stored])"
    using limit_step.store_window [of 0 "[Loaded (reg_window l)]" _ now l] False by simp
  have "limit_step now (l\<lparr>reg_window := now\<rparr>, [Stored]) (snd (rate_limit_ok now l), [Done (fst (rate_limit_ok now l))])"
    using limit_step.store_count [of 0 "[Stored]" now "l\<lparr>reg_window := now\<rparr>"] False by (simp add: rate_limit_ok_def)
  with load window show ?thesis by (meson converse_rtranclp_into_rtranclp r_into_rtranclp)
qed

lemma all_load: "(limit_step now)\<^sup>*\<^sup>* (l, ps @ replicate n Start) (l, ps @ replicate n (Loaded (reg_window l)))"
proof (induction n arbitrary: ps)
  case (Suc n)
  have "limit_step now (l, ps @ replicate (Suc n) Start) (l, (ps @ [Loaded (reg_window l)]) @ replicate n Start)"
    using limit_step.load [of "length ps" "ps @ replicate (Suc n) Start" now l] by (simp add: list_update_append)
  also note Suc.IH [of "ps @ [Loaded (reg_window l)]"]
  finally show ?case by simp
qed simp

lemma all_store:
  assumes "v \<noteq> now"
  shows "(limit_step now)\<^sup>*\<^sup>* (l, ps @ replicate n (Loaded v)) (if n = 0 then l else l\<lparr>reg_window := now, reg_count := 1\<rparr>, ps @ replicate n (Done True))"
proof (induction n arbitrary: ps l)
  case (Suc n)
  let ?l = "l\<lparr>reg_window := now\<rparr>" and ?l' = "l\<lparr>reg_window := now, reg_count := 1\<rparr>"
  have window: "limit_step now (l, ps @ replicate (Suc n) (Loaded v)) (?l, ps @ Stored # replicate n (Loaded v))"
    using limit_step.store_window [of "length ps" "ps @ replicate (Suc n) (Loaded v)" v now l] assms by (simp add: list_update_append)
  have count: "limit_step now (?l, ps @ Stored # replicate n (Loaded v)) (?l', (ps @ [Done True]) @ replicate n (Loaded v))"
    using limit_step.store_count [of "length ps" "ps @ Stored # replicate n (Loaded v)" now ?l] by (simp add: list_update_append)
  have "(limit_step now)\<^sup>*\<^sup>* (?l', (ps @ [Done True]) @ replicate n (Loaded v))
      (if n = 0 then ?l' else ?l'\<lparr>reg_window := now, reg_count := 1\<rparr>, (ps @ [Done True]) @ replicate n (Done True))" by (rule Suc.IH)
  from converse_rtranclp_into_rtranclp [OF window converse_rtranclp_into_rtranclp [OF count this]]
  show ?case by (cases "n = 0") simp_all
qed simp

text \<open>
  C25. The rate limit. Requests handled one after the other: of \<open>n\<close> registrations arriving in one new
  second exactly the first 30 (all, when fewer) are let through, and a request running alone does
  exactly what the sequential function does. Concurrent requests: the window is checked and reset by
  separate atomic operations, so any number of requests that all read the old window before one of
  them writes the new one are all let through, and the limit does not hold.
\<close>

theorem rate_limit_bound:
  assumes "reg_window l \<noteq> now" "n < 2 ^ 64"
  shows "length (filter (\<lambda>ok. ok) (fst (limit_run now n l))) = min n 30
    \<and> (limit_step now)\<^sup>*\<^sup>* (l, [Start]) (snd (rate_limit_ok now l), [Done (fst (rate_limit_ok now l))])
    \<and> (\<exists>l'. (limit_step now)\<^sup>*\<^sup>* (l, replicate n Start) (l', replicate n (Done True)))"
  using rate_limit_sequential [OF assms] limit_alone
    rtranclp_trans [OF all_load [of now l "[]" n] all_store [OF assms(1), of l "[]" n]] by auto

theorem rate_limit_bound_witness:
  "length (filter (\<lambda>ok. ok) (fst (limit_run 5 40 \<lparr>reg_window = 0, reg_count = 0\<rparr>))) = 30
   \<and> (\<exists>l'. (limit_step 5)\<^sup>*\<^sup>* (\<lparr>reg_window = 0, reg_count = 0\<rparr>, replicate 40 Start) (l', replicate 40 (Done True)))"
  using rate_limit_bound [of "\<lparr>reg_window = 0, reg_count = 0\<rparr>" 5 40] by simp

subsection \<open>Readiness\<close>

lemma matrix_sync_is_fresh_i64:
  assumes "in_i64 now_ms" "in_i64 last_ms"
  shows "matrix_sync_is_fresh now_ms last_ms running \<longleftrightarrow> running \<and> 0 < last_ms \<and> now_ms - last_ms \<le> 120000"
  using assms by (auto simp: matrix_sync_is_fresh_def MATRIX_SYNC_STALE_MS_def saturating_sub_def in_i64_def)

subsection \<open>The registration endpoint\<close>

lemma insert_registered_present:
  assumes "insert_registered c n db = (Inr x, db')"
  obtains row where "row \<in> set (sessions db')" "s_domain row = n_domain n" "s_session_id row = n_session_id n"
    "s_nonce_hash row = n_nonce_hash n" "s_qr_signature row = n_qr_signature n"
    "s_registration_signature row = n_registration_signature n" "x = Created \<longleftrightarrow> row \<notin> set (sessions db)"
proof (cases x)
  case Created
  with assms obtain t where db': "sessions db' = sessions db @ [new_row (session_seq db) t n]"
    and new: "\<not> list_ex (\<lambda>r. s_domain r = n_domain n \<and> (s_session_id r = n_session_id n \<or> s_nonce_hash r = n_nonce_hash n)) (sessions db)"
    by (auto simp: insert_registered_def Let_def get_by_session_def split: sum.splits if_splits option.splits)
  then have "new_row (session_seq db) t n \<notin> set (sessions db)" by (auto simp: list_ex_iff new_row_def)
  with db' Created show thesis by (intro that [of "new_row (session_seq db) t n"]) (simp_all add: new_row_def)
next
  case Identical
  with assms obtain row where "fst (get_by_session (n_domain n) (n_session_id n) db) = Inr (Some row)"
    "s_nonce_hash row = n_nonce_hash n" "s_qr_signature row = n_qr_signature n"
    "s_registration_signature row = n_registration_signature n" "sessions db' = sessions db"
    by (auto simp: insert_registered_def Let_def get_by_session_def split: sum.splits if_splits option.splits)
  moreover from this(1) have "row \<in> set (sessions db) \<and> s_domain row = n_domain n \<and> s_session_id row = n_session_id n"
    by (auto simp: get_by_session_def query_opt_Some dest!: arg_cong [where f = set])
  ultimately show thesis using Identical by (intro that [of row]) simp_all
qed

lemma register_session_Inr:
  assumes "register_session app orc request w = (Inr (response, created), w')"
  obtains metadata n x where "registration_checked app orc request metadata n"
    "insert_registered (crates_of app) n (w_db w) = (Inr x, w_db w')" "created = (x = Created)"
  using assms
proof (cases rule: register_session_cases)
  case (checked metadata n)
  then obtain x w1 where tx: "run_tx orc (register_tx app orc n) w = (Inr x, w1)" "created = (x = Created)" "w_db w' = w_db w1"
    by (auto simp: eff_simps inc_def split: InsertOutcome.splits) (metis InsertOutcome.exhaust)
  have "insert_registered (crates_of app) n (w_db w) = (Inr x, w_db w1)"
    using tx(1) by (rule run_tx_Inr) (auto simp: register_tx_def eff_simps intro: prod_eqI)
  with checked(1) tx show thesis by (intro that) simp_all
qed auto

text \<open>
  C24. What a site may conclude from an answer: when the registration endpoint answers 200 or 201, the
  body was a strict JSON registration and the session it names is stored, with its nonce hash and both
  signatures; the answer is 201 exactly when this very request stored it. Every other answer is a
  problem with a status of at least 400.
\<close>

theorem registration_answer_durable:
  "case site_sessions app orc now_s body (l, w) of (resp, l', w') \<Rightarrow>
     400 \<le> rp_status resp \<or> (\<exists>request row.
       from_slice (json_parse (crates_of app)) registration_from_value body = Inr request \<and> registration_validate request = Inr ()
     \<and> row \<in> set (sessions (w_db w')) \<and> s_domain row = reg_domain request \<and> s_session_id row = reg_session_id request
     \<and> keyed_hash (crates_of app) (lookup_pepper app) (reg_nonce request) = Inr (s_nonce_hash row)
     \<and> s_qr_signature row = reg_qr_signature request \<and> s_registration_signature row = reg_signature request
     \<and> rp_status resp = (if row \<in> set (sessions (w_db w)) then 200 else 201))"
proof (cases "site_sessions app orc now_s body (l, w)")
  case (fields resp l' w')
  have bad: "400 \<le> status pc" for pc by (cases pc) simp_all
  show ?thesis
  proof (cases "400 \<le> rp_status resp")
    case False
    with fields bad obtain request response created where
      parsed: "from_slice (json_parse (crates_of app)) registration_from_value body = Inr request"
      and run: "register_session app orc request w = (Inr (response, created), w')" and st: "rp_status resp = (if created then 201 else 200)"
      by (auto simp: site_sessions_def Let_def rate_limited_def problem_def into_response_def
          split: if_splits sum.splits prod.splits)
    from run show ?thesis
    proof (rule register_session_Inr)
      fix metadata n x
      assume checked: "registration_checked app orc request metadata n"
        and ins: "insert_registered (crates_of app) n (w_db w) = (Inr x, w_db w')" and "created = (x = Created)"
      from ins show ?thesis
      proof (rule insert_registered_present)
        fix row
        assume "row \<in> set (sessions (w_db w'))" "s_domain row = n_domain n" "s_session_id row = n_session_id n"
          "s_nonce_hash row = n_nonce_hash n" "s_qr_signature row = n_qr_signature n"
          "s_registration_signature row = n_registration_signature n" "x = Created \<longleftrightarrow> row \<notin> set (sessions (w_db w))"
        with checked parsed st \<open>created = _\<close> fields show ?thesis
          by (auto simp: registration_checked_def new_session_def intro!: exI [of _ row])
      qed
    qed
  qed (simp add: fields)
qed

subsection \<open>Routing\<close>

text \<open>Only the registration route changes anything, and it is the registration endpoint.\<close>

lemma router_cases:
  assumes "router app orc now_s verb path body lw = Some (resp, lw')"
  shows "lw' = lw \<or> (verb = ''POST'' \<and> path = ''/v1/site-sessions'' \<and> site_sessions app orc now_s body lw = (resp, lw'))"
  using assms by (auto simp: router_def routes_def split: if_splits)

text \<open>The document at the well-known address names the key under which the relay's signatures verify.\<close>

lemma published_key_verifies:
  assumes "base64_engine (b64_encode (crates_of app)) (b64_decode (crates_of app))" "ed25519_ok (crates_of app) (signing_key app)"
  shows "\<exists>resp x. router app orc now_s ''GET'' ''/.well-known/jwks.json'' [] lw = Some (resp, lw) \<and> rp_status resp = 200
    \<and> rp_body resp = Json (Object [(''keys'', Array [Object [(''kty'', String ''OKP''), (''crv'', String ''Ed25519''), (''x'', String x),
        (''use'', String ''sig''), (''alg'', String ''EdDSA''), (''kid'', String (signing_kid app))]])])
    \<and> ed25519_verify (crates_of app) x m (ed25519_sign (crates_of app) (signing_key app) m) = Inr ()"
  using ed25519_verify_sign [OF assms] by (simp add: router_def routes_def jwks_def)

end
