(* ===== verification/Config.thy ===== *)
theory Config
  imports Database
begin

text \<open>
  \<^verbatim>\<open>src/config.rs\<close> and the start-up of \<^verbatim>\<open>src/lib.rs\<close>: secrets and settings from the environment and the
  file system (both parameters), the database URL with its escaped password, the checks that stop
  a start, and the state the relay starts with.
\<close>

record sys =
  env :: "string \<Rightarrow> string option"
  file_exists :: "string \<Rightarrow> bool"
  file_bytes :: "string \<Rightarrow> bytes option"
  listen_parses :: "string \<Rightarrow> bool"

record AppConfig =
  cf_listen :: string
  cf_relay_origin :: string
  cf_matrix_homeserver :: string
  cf_matrix_user_id :: string
  cf_matrix_enabled :: bool
  cf_database_url :: string
  cf_crypto_store_path :: string
  cf_data_path :: string
  cf_signing_kid :: string
  cf_subject_key_version :: int
  cf_signing_key :: bytes
  cf_subject_secret :: bytes
  cf_at_rest :: bytes
  cf_lookup_pepper :: bytes
  cf_matrix_access_token :: "string option"
  cf_matrix_device_id :: "string option"
  cf_crypto_passphrase :: "string option"

definition var_or :: "sys \<Rightarrow> string \<Rightarrow> string \<Rightarrow> string" where
  "var_or y name dflt = (case env y name of Some v \<Rightarrow> v | None \<Rightarrow> dflt)"

definition env_bool :: "sys \<Rightarrow> string \<Rightarrow> bool \<Rightarrow> bool" where
  "env_bool y name dflt =
     (case env y name of Some v \<Rightarrow> v \<in> {''1'', ''true'', ''TRUE'', ''yes''} | None \<Rightarrow> dflt)"

definition read_file_bytes :: "sys \<Rightarrow> string \<Rightarrow> bytes relay_result" where
  "read_file_bytes y path = ok_or (Problem InternalError) (file_bytes y path)"

definition read_required_secret :: "sys \<Rightarrow> string \<Rightarrow> string \<Rightarrow> bytes relay_result" where
  "read_required_secret y file_var env_var =
     (case env y file_var of
        Some path \<Rightarrow> read_file_bytes y path
      | None \<Rightarrow> (case env y env_var of Some v \<Rightarrow> Inr v | None \<Rightarrow> err InternalError))"

text \<open>\<^verbatim>\<open>String::from_utf8(read_file_bytes(..)?)?.trim()\<close>\<close>

definition read_trimmed :: "sys \<Rightarrow> string \<Rightarrow> string relay_result" where
  "read_trimmed y path =
     and_then (read_file_bytes y path) (\<lambda>b. if utf8_valid b then Inr (trim b) else err InternalError)"

definition read_optional_secret :: "sys \<Rightarrow> string \<Rightarrow> string \<Rightarrow> string option relay_result" where
  "read_optional_secret y file_var env_var =
     (case env y file_var of
        Some path \<Rightarrow>
          if file_exists y path then and_then (read_trimmed y path) (\<lambda>v. Inr (Some v))
          else Inr (map_option trim (env y env_var))
      | None \<Rightarrow> Inr (map_option trim (env y env_var)))"

definition hex_digit :: "nat \<Rightarrow> char" where
  "hex_digit n = (if n < 10 then char_of (48 + n) else char_of (55 + n))"

definition unreserved :: "char \<Rightarrow> bool" where
  "unreserved b \<longleftrightarrow> byte_in 65 90 b \<or> byte_in 97 122 b \<or> byte_in 48 57 b \<or> b \<in> set ''-_.~''"

definition encode_byte :: "char \<Rightarrow> string" where
  "encode_byte b = (if unreserved b then [b] else [CHR ''%'', hex_digit (of_char b div 16), hex_digit (of_char b mod 16)])"

definition urlencoding :: "string \<Rightarrow> string" where
  "urlencoding v = concat (map encode_byte v)"

definition database_url :: "sys \<Rightarrow> string relay_result" where
  "database_url y =
     (let from_parts =
        (case (env y ''RELAY_DB_HOST'', env y ''RELAY_DB_NAME'', env y ''RELAY_DB_USER'', env y ''RELAY_DB_PASSWORD_FILE'') of
           (Some host, Some name, Some user, Some password_file) \<Rightarrow>
             and_then (read_trimmed y password_file) (\<lambda>password.
               Inr (''postgres://'' @ user @ '':'' @ urlencoding password @ ''@'' @ host @ '':5432/'' @ name))
         | _ \<Rightarrow> err InternalError);
          from_file =
        (case env y ''DATABASE_URL_FILE'' of
           Some path \<Rightarrow> if file_exists y path then read_trimmed y path else from_parts
         | None \<Rightarrow> from_parts) in
      case env y ''DATABASE_URL'' of
        Some url \<Rightarrow> if url \<noteq> [] then Inr url else from_file
      | None \<Rightarrow> from_file)"

definition normalize_secret_bytes :: "crates \<Rightarrow> bytes \<Rightarrow> bytes relay_result" where
  "normalize_secret_bytes c raw =
     (if length raw = 32 then Inr raw
      else if \<not> utf8_valid raw then err InvalidRequest
      else (case hex_decode c (trim raw) of
          Some b \<Rightarrow> if length b \<ge> 32 then Inr b else Inr raw
        | None \<Rightarrow> Inr raw))"

definition parse_i32 :: "string \<Rightarrow> int option" where
  "parse_i32 s =
     (let (neg, ds) = (case s of [] \<Rightarrow> (False, []) | c # r \<Rightarrow>
            if c = CHR ''+'' then (False, r) else if c = CHR ''-'' then (True, r) else (False, s));
          v = (if neg then - int (digits_value ds) else int (digits_value ds)) in
      if ds \<noteq> [] \<and> list_all (byte_in 48 57) ds \<and> in_i32 v then Some v else None)"

definition from_env :: "crates \<Rightarrow> sys \<Rightarrow> AppConfig relay_result" where
  "from_env c y =
     and_then (database_url y) (\<lambda>url.
     and_then (read_required_secret y ''RELAY_SIGNING_KEY_FILE'' ''RELAY_SIGNING_KEY'') (\<lambda>raw_key.
     and_then (parse_signing_key c raw_key) (\<lambda>key.
     and_then (read_required_secret y ''RELAY_SUBJECT_KEY_FILE'' ''RELAY_SUBJECT_KEY'') (\<lambda>raw_subject.
     and_then (normalize_secret_bytes c raw_subject) (\<lambda>subject.
     and_then (read_required_secret y ''RELAY_AT_REST_KEY_FILE'' ''RELAY_AT_REST_KEY'') (\<lambda>raw_rest.
     and_then (AtRestKey_from_bytes c raw_rest) (\<lambda>rest.
     and_then (read_required_secret y ''RELAY_LOOKUP_PEPPER_FILE'' ''RELAY_LOOKUP_PEPPER'') (\<lambda>raw_pepper.
     and_then (normalize_secret_bytes c raw_pepper) (\<lambda>pepper.
       if length subject < 32 \<or> length pepper < 32 then err InternalError
       else
         and_then (require (listen_parses y (var_or y ''LISTEN_ADDR'' ''0.0.0.0:8080'')) (Problem InternalError)) (\<lambda>_.
         and_then (read_optional_secret y ''RELAY_MATRIX_ACCESS_TOKEN_FILE'' ''RELAY_MATRIX_ACCESS_TOKEN'') (\<lambda>token.
         and_then (read_optional_secret y ''RELAY_MATRIX_DEVICE_ID_FILE'' ''RELAY_MATRIX_DEVICE_ID'') (\<lambda>device.
         and_then (read_optional_secret y ''RELAY_CRYPTO_PASSPHRASE_FILE'' ''RELAY_CRYPTO_PASSPHRASE'') (\<lambda>phrase.
           Inr \<lparr>cf_listen = var_or y ''LISTEN_ADDR'' ''0.0.0.0:8080'',
             cf_relay_origin = var_or y ''RELAY_ORIGIN'' RELAY_ORIGIN,
             cf_matrix_homeserver = var_or y ''MATRIX_HOMESERVER'' MATRIX_API,
             cf_matrix_user_id = var_or y ''MATRIX_USER_ID'' MATRIX_USER_ID,
             cf_matrix_enabled = env_bool y ''MATRIX_ENABLED'' True,
             cf_database_url = url,
             cf_crypto_store_path = var_or y ''CRYPTO_STORE_PATH'' ''./relay/crypto-store'',
             cf_data_path = var_or y ''DATA_PATH'' ''./relay/data'',
             cf_signing_kid = var_or y ''RELAY_SIGNING_KID'' DEFAULT_KID,
             cf_subject_key_version = (case Option.bind (env y ''SUBJECT_KEY_VERSION'') parse_i32 of Some v \<Rightarrow> v | None \<Rightarrow> 1),
             cf_signing_key = key, cf_subject_secret = subject, cf_at_rest = rest, cf_lookup_pepper = pepper,
             cf_matrix_access_token = token, cf_matrix_device_id = device, cf_crypto_passphrase = phrase\<rparr>)))))))))))))"

subsection \<open>Start-up\<close>

text \<open>
  What the outside answers while the relay starts: the database connection, the pool and the query of the
  advisory lock, the crypto store directory and its lock file, the Matrix client, the thread of its
  sync loop, the listener.
\<close>

record startup =
  su_connection :: connection
  su_lock_pool :: bool
  su_advisory_lock :: "bool option"
  su_store_dir :: bool
  su_store_file :: bool
  su_store_lock :: bool
  su_client_builds :: bool
  su_user_id_parses :: bool
  su_session_restores :: bool
  su_thread :: bool
  su_bind :: bool

definition lock_crypto_store :: "startup \<Rightarrow> unit relay_result" where
  "lock_crypto_store su =
     and_then (require (su_store_dir su) (Problem InternalError)) (\<lambda>_.
     and_then (require (su_store_file su) (Problem InternalError)) (\<lambda>_.
       require (su_store_lock su) (Problem RelayUnavailable)))"

definition matrix_start :: "AppConfig \<Rightarrow> startup \<Rightarrow> unit relay_result" where
  "matrix_start cfg su =
     and_then (lock_crypto_store su) (\<lambda>_.
     and_then (ok_or (Problem InternalError) (cf_crypto_passphrase cfg)) (\<lambda>_.
     and_then (ok_or (Problem InternalError) (cf_matrix_access_token cfg)) (\<lambda>_.
     and_then (ok_or (Problem InternalError) (cf_matrix_device_id cfg)) (\<lambda>_.
     and_then (require (su_client_builds su) (Internal ''build'')) (\<lambda>_.
     and_then (require (su_user_id_parses su) (Problem InternalError)) (\<lambda>_.
       require (su_session_restores su) (Internal ''restore'')))))))"

definition initial_app :: "crates \<Rightarrow> AppConfig \<Rightarrow> AppState" where
  "initial_app c cfg =
     \<lparr>crates_of = c, at_rest = cf_at_rest cfg, lookup_pepper = cf_lookup_pepper cfg,
      subject_secret = cf_subject_secret cfg, subject_key_version = cf_subject_key_version cfg,
      signing_key = cf_signing_key cfg, signing_kid = cf_signing_kid cfg, relay_user_id = cf_matrix_user_id cfg\<rparr>"

definition zero_metrics :: Metrics where
  "zero_metrics = \<lparr>registrations = 0, registration_failures = 0, challenges = 0, consents = 0, replay_conflicts = 0,
     ssrf_rejections = 0, room_violations = 0, deliveries = 0\<rparr>"

definition initial_world :: "AppConfig \<Rightarrow> int \<Rightarrow> database \<Rightarrow> world" where
  "initial_world cfg now db =
     \<lparr>w_db = db, w_metrics = zero_metrics, w_outbox = [], w_posts = [],
      w_sync_ready = (\<not> cf_matrix_enabled cfg), w_last_sync = (if cf_matrix_enabled cfg then 0 else now)\<rparr>"

text \<open>\<^verbatim>\<open>map_err(|_| RelayUnavailable)\<close>, and the tables the server holds.\<close>

definition or_unavailable :: "('s, 'a) eff \<Rightarrow> ('s, 'a) eff" where
  "or_unavailable m s = (case m s of (Inl _, s') \<Rightarrow> (err RelayUnavailable, s') | (Inr x, s') \<Rightarrow> (Inr x, s'))"

definition stored_tables :: "cluster \<Rightarrow> database" where
  "stored_tables cl = (case tables cl of None \<Rightarrow> empty_database | Some db \<Rightarrow> db)"

definition run :: "crates \<Rightarrow> sys \<Rightarrow> startup \<Rightarrow> int \<Rightarrow> (cluster, AppState \<times> world) eff" where
  "run c y su now =
     bnd (lift_result (from_env c y)) (\<lambda>cfg.
     bnd (or_unavailable (connect (su_connection su))) (\<lambda>_.
     bnd (or_unavailable (lift_result (if cf_matrix_enabled cfg then try_advisory_lock (su_lock_pool su) (su_advisory_lock su) else Inr True)))
       (\<lambda>locked.
     bnd (lift_result (require locked (Problem RelayUnavailable))) (\<lambda>_.
     bnd (lift_result (if cf_matrix_enabled cfg then matrix_start cfg su else Inr ())) (\<lambda>_.
     bnd (lift_result (require (cf_matrix_enabled cfg \<longrightarrow> su_thread su) (Problem RelayUnavailable))) (\<lambda>_.
     bnd (lift_result (require (su_bind su) (Problem RelayUnavailable))) (\<lambda>_ cl.
       (Inr (initial_app c cfg, initial_world cfg now (stored_tables cl)), cl))))))))"

end
