(* ===== verification/Config_Properties.thy ===== *)
theory Config_Properties
  imports Config Relay_Demo
begin

text \<open>
  The properties of \<^verbatim>\<open>src/config.rs\<close> and of the start-up in \<^verbatim>\<open>src/lib.rs\<close>: the password that is put into
  the database URL cannot escape its place, and a relay only starts with full-size keys and as the
  only holder of its locks.
\<close>

subsection \<open>Percent encoding\<close>

definition hex_value :: "char \<Rightarrow> nat" where
  "hex_value c = (if of_char c < (58 :: nat) then of_char c - 48 else of_char c - 55)"

text \<open>RFC 3986 percent decoding, the inverse a URL parser applies.\<close>

fun urldecode :: "string \<Rightarrow> string" where
  "urldecode (a # b # c # s) =
     (if a = CHR ''%'' then char_of (16 * hex_value b + hex_value c) # urldecode s else a # urldecode (b # c # s))"
| "urldecode s = s"

lemma hex_value_digit: "n < 16 \<Longrightarrow> hex_value (hex_digit n) = n"
  by (auto simp: hex_digit_def hex_value_def)

lemma urldecode_plain: "a \<noteq> CHR ''%'' \<Longrightarrow> urldecode (a # s) = a # urldecode s"
  by (cases s rule: urldecode.cases) auto

lemma high_nibble: "of_char b div 16 < (16 :: nat)"
proof -
  have "(of_char b :: nat) < 16 * 16" by simp
  then show ?thesis by (rule less_mult_imp_div_less)
qed

lemma encode_decode_byte: "urldecode (encode_byte b @ s) = b # urldecode s"
proof (cases "unreserved b")
  case True
  then have "b \<noteq> CHR ''%''" by (auto simp: unreserved_def byte_in_def)
  with True show ?thesis by (simp add: encode_byte_def urldecode_plain)
next
  case False
  then show ?thesis by (simp add: encode_byte_def hex_value_digit high_nibble)
qed

lemma hex_digit_unreserved: "n < 16 \<Longrightarrow> unreserved (hex_digit n)"
  by (auto simp: hex_digit_def unreserved_def byte_in_def)

text \<open>
  The database password is carried faithfully and cannot escape: decoding the encoded password
  returns it, different passwords have different encodings, and an encoding consists of letters,
  digits, \<^verbatim>\<open>-\<close>, \<^verbatim>\<open>_\<close>, \<^verbatim>\<open>.\<close>, \<^verbatim>\<open>~\<close> and \<^verbatim>\<open>%\<close> only, so no password adds a host, a port or a path to the URL.
\<close>

theorem urlencoding_roundtrip:
  "urldecode (urlencoding v) = v \<and> (urlencoding v = urlencoding v' \<longleftrightarrow> v = v')
   \<and> list_all (\<lambda>c. unreserved c \<or> c = CHR ''%'') (urlencoding v)
   \<and> set (urlencoding v) \<inter> set ''@:/?#'' = {}"
proof -
  have dec: "urldecode (urlencoding x) = x" for x
    unfolding urlencoding_def by (induction x) (simp_all add: encode_decode_byte)
  have chars: "unreserved c \<or> c = CHR ''%''" if "c \<in> set (urlencoding v)" for c
  proof -
    from that obtain b where "c \<in> set (encode_byte b)" by (auto simp: urlencoding_def)
    with high_nibble [of b] show ?thesis by (auto simp: encode_byte_def hex_digit_unreserved split: if_splits)
  qed
  moreover have "\<not> (unreserved c \<or> c = CHR ''%'')" if "c \<in> set ''@:/?#''" for c
    using that by (auto simp: unreserved_def byte_in_def)
  then have "set (urlencoding v) \<inter> set ''@:/?#'' = {}" using chars by blast
  ultimately show ?thesis using dec by (auto simp: list_all_iff) metis
qed

subsection \<open>Start-up\<close>

lemma secret_bytes_length: "normalize_secret c raw = Inr k \<Longrightarrow> length k = 32"
  and normalize_32_length: "normalize_32 c raw = Inr k \<Longrightarrow> length k = 32"
  by (auto simp: normalize_secret_def normalize_32_def Let_def split: if_splits option.splits)

lemma from_env_keys:
  assumes "from_env c y = Inr cfg"
  shows "length (cf_at_rest cfg) = 32" "length (cf_signing_key cfg) = 32" "32 \<le> length (cf_subject_secret cfg)"
    "32 \<le> length (cf_lookup_pepper cfg)" "cf_matrix_enabled cfg = env_bool y ''MATRIX_ENABLED'' True"
  using assms
  by (auto simp: from_env_def result_simps parse_signing_key_def AtRestKey_from_bytes_def
      dest!: secret_bytes_length normalize_32_length split: if_splits)

lemma connect_Inr: "connect cn cl = (Inr (), cl') \<longleftrightarrow> cn_url_parses cn \<and> cn_pool_builds cn \<and> run_migrations cn cl = (Inr (), cl')"
  by (auto simp: connect_def eff_simps result_simps)

lemma run_Inr:
  assumes "run c y su now cl = (Inr (app, w), cl')"
  obtains cfg where "from_env c y = Inr cfg" "connect (su_connection su) cl = (Inr (), cl')"
    "cf_matrix_enabled cfg \<longrightarrow> su_advisory_lock su = Some True" "(if cf_matrix_enabled cfg then matrix_start cfg su else Inr ()) = Inr ()"
    "su_bind su" "app = initial_app c cfg" "w = initial_world cfg now (stored_tables cl')"
proof -
  have eq: "or_unavailable m s = (Inr x, s') \<longleftrightarrow> m s = (Inr x, s')" for m :: "('s, 'a) eff" and s x s'
    by (auto simp: or_unavailable_def split: prod.splits sum.splits)
  from assms show thesis
    by (auto simp: run_def eff_simps result_simps eq try_advisory_lock_def intro!: that split: if_splits)
qed

text \<open>
  C31. What a running relay can rely on: when start-up succeeds, the at-rest key and the signing key
  have 32 bytes, the subject secret and the lookup pepper at least 32, and the listener is bound. The
  migration is recorded and the relay runs on exactly the tables the server held before, or on the empty
  tables of the schema when there were none. With Matrix enabled the relay holds the advisory lock and the
  lock on its crypto store, its session is restored, and it reports no sync yet; without Matrix it starts
  as synced.
\<close>

theorem startup_safe:
  assumes "run c y su now cl = (Inr (app, w), cl')" "cluster_ok cl"
  shows "crates_of app = c \<and> length (at_rest app) = 32 \<and> length (signing_key app) = 32 \<and> 32 \<le> length (subject_secret app)
    \<and> 32 \<le> length (lookup_pepper app) \<and> su_bind su \<and> w_outbox w = [] \<and> w_posts w = []
    \<and> w_db w = (case tables cl of None \<Rightarrow> empty_database | Some db \<Rightarrow> db)
    \<and> tables cl' = Some (w_db w) \<and> ''0001_init'' \<in> set (applied cl') \<and> cluster_ok cl'
    \<and> (if env_bool y ''MATRIX_ENABLED'' True
       then su_advisory_lock su = Some True \<and> su_store_lock su \<and> su_session_restores su \<and> \<not> w_sync_ready w \<and> w_last_sync w = 0
       else w_sync_ready w \<and> w_last_sync w = now)"
  using assms(1)
proof (rule run_Inr)
  fix cfg
  assume cfg: "from_env c y = Inr cfg" and conn: "connect (su_connection su) cl = (Inr (), cl')"
    and started: "cf_matrix_enabled cfg \<longrightarrow> su_advisory_lock su = Some True"
      "(if cf_matrix_enabled cfg then matrix_start cfg su else Inr ()) = Inr ()" "su_bind su"
    and app: "app = initial_app c cfg" "w = initial_world cfg now (stored_tables cl')"
  have "su_store_lock su \<and> su_session_restores su" if "cf_matrix_enabled cfg"
    using started(2) that by (auto simp: matrix_start_def lock_crypto_store_def result_simps)
  moreover have "tables cl' = Some (case tables cl of None \<Rightarrow> empty_database | Some db \<Rightarrow> db) \<and> ''0001_init'' \<in> set (applied cl') \<and> cluster_ok cl'"
    using run_migrations_keeps(1,3) [OF assms(2), of "su_connection su" _ cl'] conn connect_Inr by auto
  ultimately show ?thesis
    using from_env_keys [OF cfg] app started by (auto simp: initial_app_def initial_world_def stored_tables_def)
qed

definition demo_sys :: sys where
  "demo_sys = \<lparr>env = map_of [(''DATABASE_URL'', ''postgres://db''), (''RELAY_SIGNING_KEY'', replicate 32 CHR ''a''),
     (''RELAY_SUBJECT_KEY'', replicate 32 CHR ''b''), (''RELAY_AT_REST_KEY'', replicate 32 CHR ''c''),
     (''RELAY_LOOKUP_PEPPER'', replicate 32 CHR ''d''), (''RELAY_MATRIX_ACCESS_TOKEN'', ''t''),
     (''RELAY_MATRIX_DEVICE_ID'', ''d''), (''RELAY_CRYPTO_PASSPHRASE'', ''p'')],
     file_exists = (\<lambda>_. False), file_bytes = (\<lambda>_. None), listen_parses = (\<lambda>_. True)\<rparr>"

definition demo_startup :: startup where
  "demo_startup = \<lparr>su_connection = \<lparr>cn_url_parses = True, cn_pool_builds = True, cn_pool_get = True, cn_stmt = (\<lambda>_. CommitDone)\<rparr>,
     su_lock_pool = True, su_advisory_lock = Some True, su_store_dir = True, su_store_file = True, su_store_lock = True,
     su_client_builds = True, su_user_id_parses = True, su_session_restores = True, su_thread = True, su_bind = True\<rparr>"

theorem startup_safe_witness:
  "\<exists>app w cl'. run demo_crates demo_sys demo_startup 5 \<lparr>schema_migrations = None, tables = None\<rparr> = (Inr (app, w), cl')
     \<and> length (at_rest app) = 32 \<and> \<not> w_sync_ready w \<and> w_db w = empty_database \<and> tables cl' = Some empty_database"
proof -
  let ?cl = "\<lparr>schema_migrations = None, tables = None\<rparr>"
  have "is_ok (from_env demo_crates demo_sys)"
    by (simp add: from_env_def database_url_def demo_sys_def read_required_secret_def parse_signing_key_def normalize_secret_def
        normalize_secret_bytes_def AtRestKey_from_bytes_def normalize_32_def read_optional_secret_def var_or_def is_ok_def)
  then obtain cfg where cfg: "from_env demo_crates demo_sys = Inr cfg" by (auto simp: is_ok_iff)
  have "is_ok (matrix_start cfg demo_startup)"
    using cfg
    by (auto simp: from_env_def database_url_def demo_sys_def read_required_secret_def parse_signing_key_def normalize_secret_def
        normalize_secret_bytes_def AtRestKey_from_bytes_def normalize_32_def read_optional_secret_def var_or_def is_ok_def
        demo_startup_def matrix_start_def lock_crypto_store_def)
  then have start: "matrix_start cfg demo_startup = Inr ()" by (auto simp: is_ok_iff)
  have "fst (connect (su_connection demo_startup) ?cl) = Inr ()"
    by (simp add: connect_def run_migrations_def lift_result_def bnd_def statement_def create_migrations_def init_sql_def insert_version_def
        applied_def demo_startup_def)
  then obtain cl' where conn: "connect (su_connection demo_startup) ?cl = (Inr (), cl')" by (metis prod.collapse)
  have answers: "try_advisory_lock (su_lock_pool demo_startup) (su_advisory_lock demo_startup) = Inr True" "su_thread demo_startup" "su_bind demo_startup"
    by (simp_all add: try_advisory_lock_def demo_startup_def ok_or_def)
  obtain app w where run: "run demo_crates demo_sys demo_startup 5 ?cl = (Inr (app, w), cl')"
    using cfg start conn answers by (cases "cf_matrix_enabled cfg") (simp_all add: run_def bnd_def lift_result_def or_unavailable_def)
  from startup_safe [OF this] run show ?thesis by (auto simp: demo_sys_def env_bool_def cluster_ok_def applied_def)
qed

end
