(* ===== verification/Matrix_Sync.thy ===== *)
theory Matrix_Sync
  imports Login
begin

text \<open>
  The callbacks of \<^verbatim>\<open>src/matrix/client.rs\<close> and \<^verbatim>\<open>src/matrix/handler.rs\<close>: what the relay does with a room
  message, with the result of a sync request, and how the Matrix sink sends a notice. The SDK's
  rooms are the \<open>sdk_room\<close> views of \<^verbatim>\<open>Room_Policy\<close>.
\<close>

datatype msgtype = Notice string | TextMessage string | OtherMessage

definition dispatch_text :: "AppState \<Rightarrow> oracles \<Rightarrow> string \<Rightarrow> string \<Rightarrow> string \<Rightarrow> bool \<Rightarrow> bool \<Rightarrow> string \<Rightarrow> RoomSnapshot \<Rightarrow> world \<Rightarrow> world" where
  "dispatch_text app orc event_id room_id sender decrypted redacted body room w =
     snd (handle_inbound app orc
       \<lparr>ev_event_id = event_id, ev_room_id = room_id, ev_sender = sender, ev_decrypted = decrypted,
        ev_redacted = redacted, ev_body = body, ev_room = room\<rparr> w)"

definition clear_text :: "msgtype \<Rightarrow> string option" where
  "clear_text m = (case m of Notice body \<Rightarrow> Some body | TextMessage body \<Rightarrow> Some body | OtherMessage \<Rightarrow> None)"

definition on_room_message :: "AppState \<Rightarrow> oracles \<Rightarrow> sdk_room \<Rightarrow> string \<Rightarrow> string \<Rightarrow> msgtype \<Rightarrow> world \<Rightarrow> world" where
  "on_room_message app orc room event_id sender message w =
     (case clear_text message of
        None \<Rightarrow> w
      | Some clear \<Rightarrow>
          (case snapshot room sender (relay_user_id app) of
             Inl _ \<Rightarrow> w
           | Inr snap \<Rightarrow>
               dispatch_text app orc event_id (r_id room) sender (encryption_state room = Encrypted) False clear snap w))"

definition on_sync_result :: "AppState \<Rightarrow> oracles \<Rightarrow> bool \<Rightarrow> (string \<Rightarrow> sdk_room option) \<Rightarrow> sdk_room list \<Rightarrow> world \<Rightarrow> world \<times> room_action list" where
  "on_sync_result app orc sync_ok get_room invited w =
     (if sync_ok then
        (case auto_join_invites get_room (relay_user_id app) invited of
           (Inl _, acts) \<Rightarrow> (w\<lparr>w_sync_ready := False\<rparr>, acts)
         | (Inr _, acts) \<Rightarrow> (w\<lparr>w_last_sync := o_now orc 0, w_sync_ready := True\<rparr>, acts))
      else (w\<lparr>w_sync_ready := False\<rparr>, []))"

text \<open>\<^verbatim>\<open>MatrixSink::send_notice\<close>: the result and, when it got that far, the send into the room.\<close>

definition matrix_sink_send :: "(string \<Rightarrow> bool) \<Rightarrow> (string \<Rightarrow> sdk_room option) \<Rightarrow> (string \<Rightarrow> string \<Rightarrow> bool) \<Rightarrow> string \<Rightarrow> string
    \<Rightarrow> unit relay_result \<times> (string \<times> string) list" where
  "matrix_sink_send room_id_parses get_room send_ok room_id body =
     (if \<not> room_id_parses room_id then (err InternalError, [])
      else case get_room room_id of
        None \<Rightarrow> (err InternalError, [])
      | Some room \<Rightarrow>
          if encryption_state room \<noteq> Encrypted then (err InternalError, [])
          else (if send_ok room_id body then Inr () else Inl (Internal ''send''), [(room_id, body)]))"

end
