(* ===== verification/Matrix_Sync_Properties.thy ===== *)
theory Matrix_Sync_Properties
  imports Matrix_Sync
begin

text \<open>
  The properties of the Matrix callbacks: the relay neither acts on nor writes plaintext rooms, and the
  readiness flag follows the sync.
\<close>

lemma handle_undecrypted:
  assumes "\<not> ev_decrypted event"
  shows "handle_inbound app orc event w = (Inr Ignored, w\<lparr>w_metrics := (w_metrics w)\<lparr>room_violations := room_violations (w_metrics w) + 1\<rparr>\<rparr>)"
  using assms by (simp add: handle_inbound_def bnd_def inc_def ret_def)

text \<open>
  Plaintext rooms: a message in a room that is not known to be encrypted leaves everything but the
  counters as it is, the sink hands a notice to the SDK only for a known room that is encrypted, and a
  failed sync clears the readiness flag while only a sync whose invitations were handled sets it.
\<close>

theorem plaintext_rooms_inert:
  "(encryption_state room = Encrypted \<or> (\<exists>m. on_room_message app orc room event_id sender message w = w\<lparr>w_metrics := m\<rparr>))
   \<and> (case matrix_sink_send room_id_parses get_room send_ok room_id body of (r, sends) \<Rightarrow>
        (sends = [] \<and> \<not> is_ok r) \<or> (\<exists>target. get_room room_id = Some target \<and> encryption_state target = Encrypted
          \<and> sends = [(room_id, body)] \<and> (is_ok r \<longleftrightarrow> send_ok room_id body)))
   \<and> (case on_sync_result app orc sync_ok get_room invited w of (w', acts) \<Rightarrow>
        w_db w' = w_db w \<and> w_outbox w' = w_outbox w
        \<and> (w_sync_ready w' \<longleftrightarrow> sync_ok \<and> is_ok (fst (auto_join_invites get_room (relay_user_id app) invited)))
        \<and> (if w_sync_ready w' then w_last_sync w' = o_now orc 0 else w_last_sync w' = w_last_sync w))"
proof -
  have keep: "\<exists>m. w = w\<lparr>w_metrics := m\<rparr>" by (rule exI [of _ "w_metrics w"]) simp
  have "\<exists>m. on_room_message app orc room event_id sender message w = w\<lparr>w_metrics := m\<rparr>" if "encryption_state room \<noteq> Encrypted"
    using that keep by (auto simp: on_room_message_def dispatch_text_def handle_undecrypted split: option.splits sum.splits)
  moreover have "case matrix_sink_send room_id_parses get_room send_ok room_id body of (r, sends) \<Rightarrow>
        (sends = [] \<and> \<not> is_ok r) \<or> (\<exists>target. get_room room_id = Some target \<and> encryption_state target = Encrypted
          \<and> sends = [(room_id, body)] \<and> (is_ok r \<longleftrightarrow> send_ok room_id body))"
    by (auto simp: matrix_sink_send_def split: option.splits)
  moreover have "case on_sync_result app orc sync_ok get_room invited w of (w', acts) \<Rightarrow>
        w_db w' = w_db w \<and> w_outbox w' = w_outbox w
        \<and> (w_sync_ready w' \<longleftrightarrow> sync_ok \<and> is_ok (fst (auto_join_invites get_room (relay_user_id app) invited)))
        \<and> (if w_sync_ready w' then w_last_sync w' = o_now orc 0 else w_last_sync w' = w_last_sync w)"
    by (auto simp: on_sync_result_def is_ok_def split: prod.splits sum.splits)
  ultimately show ?thesis by blast
qed

end
