(* ===== verification/Providers.thy ===== *)
theory Providers
  imports Registration Matrix_Sync Config "HOL-Library.Sublist"
begin

text \<open>
  The implementations behind the interfaces of \<^verbatim>\<open>AppState\<close>: clocks (\<^verbatim>\<open>clock.rs\<close>), message sinks
  (\<^verbatim>\<open>state.rs\<close>), resolvers and site fetchers (\<^verbatim>\<open>outbound/site_client.rs\<close>), and the functions of
  \<^verbatim>\<open>test_support\<close> in \<^verbatim>\<open>lib.rs\<close>, which play the part of a site and of a fresh deployment. The contracts
  the relay relies on are the locales \<open>message_sink\<close> and \<open>site_fetcher\<close>.
\<close>

subsection \<open>clock.rs\<close>

record FrozenClock =
  fc_value :: int

definition frozen_new :: "int \<Rightarrow> FrozenClock" where "frozen_new ms = \<lparr>fc_value = ms\<rparr>"
definition frozen_set :: "int \<Rightarrow> FrozenClock \<Rightarrow> FrozenClock" where "frozen_set ms k = k\<lparr>fc_value := ms\<rparr>"
definition frozen_now_ms :: "FrozenClock \<Rightarrow> int" where "frozen_now_ms k = fc_value k"

subsection \<open>state.rs: message sinks\<close>

record RecordingSink =
  sink_messages :: "OutboundNotice list"

definition recording_send_notice :: "string \<Rightarrow> string \<Rightarrow> RecordingSink \<Rightarrow> unit relay_result \<times> RecordingSink" where
  "recording_send_notice room_id body s =
     (Inr (), s\<lparr>sink_messages := sink_messages s @ [\<lparr>on_room_id = room_id, on_body = body\<rparr>]\<rparr>)"

definition recorded :: "RecordingSink \<Rightarrow> OutboundNotice list" where "recorded s = sink_messages s"

definition noop_send_notice :: "string \<Rightarrow> string \<Rightarrow> unit \<Rightarrow> unit relay_result \<times> unit" where
  "noop_send_notice room_id body s = (Inr (), s)"

text \<open>\<^verbatim>\<open>MessageSink::recorded\<close> by default.\<close>

definition default_recorded :: "'s \<Rightarrow> OutboundNotice list" where "default_recorded s = []"

text \<open>
  A sink records at most what it was told to send, in order. The clients' view: however many notices are sent,
  what is recorded is a subsequence of them.
\<close>

locale message_sink =
  fixes send :: "string \<Rightarrow> string \<Rightarrow> 's \<Rightarrow> unit relay_result \<times> 's" and log :: "'s \<Rightarrow> OutboundNotice list"
  assumes logs: "log (snd (send room body s)) = log s \<or> log (snd (send room body s)) = log s @ [\<lparr>on_room_id = room, on_body = body\<rparr>]"
begin

lemma log_of_sent:
  "\<exists>ns. subseq ns notices \<and> log (foldl (\<lambda>s n. snd (send (on_room_id n) (on_body n) s)) s notices) = log s @ ns"
proof (induction notices arbitrary: s)
  case (Cons n notices)
  from Cons.IH obtain ns where ns: "subseq ns notices"
    "log (foldl (\<lambda>s n. snd (send (on_room_id n) (on_body n) s)) (snd (send (on_room_id n) (on_body n) s)) notices)
      = log (snd (send (on_room_id n) (on_body n) s)) @ ns" by blast
  with logs [of "on_room_id n" "on_body n" s] show ?case
    by (auto intro: exI [of _ ns] exI [of _ "n # ns"])
qed simp

end

interpretation recording_sink: message_sink recording_send_notice recorded
  by unfold_locales (simp add: recording_send_notice_def recorded_def)

interpretation noop_sink: message_sink noop_send_notice default_recorded
  by unfold_locales (simp add: default_recorded_def)

text \<open>The Matrix sink, with the sends it made as its log.\<close>

definition matrix_send_notice :: "(string \<Rightarrow> bool) \<Rightarrow> (string \<Rightarrow> sdk_room option) \<Rightarrow> (string \<Rightarrow> string \<Rightarrow> bool) \<Rightarrow> string \<Rightarrow> string
    \<Rightarrow> OutboundNotice list \<Rightarrow> unit relay_result \<times> OutboundNotice list" where
  "matrix_send_notice room_id_parses get_room send_ok room_id body sent =
     (case matrix_sink_send room_id_parses get_room send_ok room_id body of
        (r, sends) \<Rightarrow> (r, sent @ map (\<lambda>(room, b). \<lparr>on_room_id = room, on_body = b\<rparr>) sends))"

interpretation matrix_sink: message_sink "matrix_send_notice room_id_parses get_room send_ok" "\<lambda>s. s" for room_id_parses get_room send_ok
  by unfold_locales (auto simp: matrix_send_notice_def matrix_sink_send_def split: option.splits)

subsection \<open>site_client.rs: resolver and site fetchers\<close>

text \<open>\<^verbatim>\<open>SystemDns\<close>: the system's lookup, run on a blocking thread that may fail to be joined.\<close>

definition system_resolve :: "(string \<Rightarrow> nat \<Rightarrow> (IpAddr \<times> nat) list option) \<Rightarrow> bool \<Rightarrow> string \<Rightarrow> IpAddr list relay_result" where
  "system_resolve to_socket_addrs joined host =
     (if \<not> joined then err RelayUnavailable
      else ok_or (Problem DomainVerificationFailed) (map_option (map fst) (to_socket_addrs host 443)))"

record RecordingSite =
  rs_metadata :: "SiteMetadata option"
  rs_posts :: "(string \<times> string \<times> bytes) list"
  rs_post_status :: nat

definition with_metadata :: "SiteMetadata \<Rightarrow> RecordingSite" where
  "with_metadata metadata = \<lparr>rs_metadata = Some metadata, rs_posts = [], rs_post_status = 202\<rparr>"

definition recording_fetch_metadata :: "crates \<Rightarrow> RecordingSite \<Rightarrow> string \<Rightarrow> SiteMetadata relay_result" where
  "recording_fetch_metadata c site domain =
     and_then (ok_or (Problem DomainVerificationFailed) (rs_metadata site)) (\<lambda>metadata.
     and_then (validate_for_domain c metadata domain) (\<lambda>_. Inr metadata))"

definition recording_post_json :: "string \<Rightarrow> string \<Rightarrow> bytes \<Rightarrow> string option \<Rightarrow> RecordingSite \<Rightarrow> SiteResponse relay_result \<times> RecordingSite" where
  "recording_post_json domain path body idempotency_key site =
     (Inr \<lparr>sr_status = rs_post_status site, sr_body = ''{'' @ CHR 0x22 # ''status'' @ CHR 0x22 # '':'' @ CHR 0x22 # ''accepted'' @ CHR 0x22 # ''}''\<rparr>,
      site\<lparr>rs_posts := rs_posts site @ [(domain, path, body)]\<rparr>)"

text \<open>The clock, fetcher and poster of the production state, and those of a state under test.\<close>

definition with_client :: "crates \<Rightarrow> (string \<Rightarrow> IpAddr list relay_result) \<Rightarrow> exchange \<Rightarrow> oracles \<Rightarrow> oracles" where
  "with_client c resolve ex orc = orc\<lparr>o_fetch := (\<lambda>d. fst (fetch_metadata c resolve ex d)),
     o_post := (\<lambda>d p b k. fst (post_json resolve ex d p b k))\<rparr>"

definition with_recording :: "crates \<Rightarrow> FrozenClock \<Rightarrow> RecordingSite \<Rightarrow> oracles \<Rightarrow> oracles" where
  "with_recording c clock site orc = orc\<lparr>o_now := (\<lambda>_. frozen_now_ms clock), o_sink := (\<lambda>_ _. Inr ()),
     o_fetch := recording_fetch_metadata c site, o_post := (\<lambda>d p b k. fst (recording_post_json d p b k site))\<rparr>"

text \<open>
  What the relay relies on: metadata is handed out only for the domain it names, under the key that signed it.
\<close>

locale site_fetcher =
  fixes c :: crates and fetch :: "string \<Rightarrow> SiteMetadata relay_result"
  assumes vouched: "fetch d = Inr m \<Longrightarrow> validate_for_domain c m d = Inr ()"
begin

lemma fetched:
  assumes "fetch d = Inr m"
  shows "md_domain m = d" "validate_domain_field d = Inr ()"
    "\<exists>b. canonicalize_object (json_str c) (metadata_fields m) = Inr b \<and> ed25519_verify c (md_public_key m) b (md_signature m) = Inr ()"
  using vouched [OF assms] by (auto simp: validate_for_domain_def result_simps split: if_splits)

end

interpretation ssrf_client: site_fetcher c "\<lambda>d. fst (fetch_metadata c resolve ex d)" for c resolve ex
  by unfold_locales (auto simp: fetch_metadata_def result_simps split: prod.splits sum.splits if_splits)

interpretation recording_site: site_fetcher c "recording_fetch_metadata c site" for c site
  by unfold_locales (auto simp: recording_fetch_metadata_def result_simps)

subsection \<open>lib.rs: test\_support\<close>

definition TEST_IAT :: int where "TEST_IAT = 1800000000000"
definition TEST_EXP :: int where "TEST_EXP = 1800000300000"
definition TEST_DOMAIN :: string where "TEST_DOMAIN = ''login.example.org''"
definition TEST_SESSION :: string where "TEST_SESSION = ''session_123456789''"
definition TEST_NONCE :: string where "TEST_NONCE = ''nonce_12345678901''"

text \<open>Keys: the signing key is drawn by the caller. An \<^verbatim>\<open>unwrap\<close> that would panic is the error.\<close>

definition test_keys :: "crates \<Rightarrow> bytes \<Rightarrow> (bytes \<times> bytes \<times> bytes \<times> bytes) relay_result" where
  "test_keys c signing =
     and_then (AtRestKey_from_bytes c (replicate 32 (CHR 0x0B))) (\<lambda>at_rest.
       Inr (signing, at_rest, replicate 32 (CHR 0x0D), replicate 32 (CHR 0x11)))"

definition signed_metadata :: "crates \<Rightarrow> string \<Rightarrow> string \<Rightarrow> bytes \<Rightarrow> SiteMetadata relay_result" where
  "signed_metadata c domain display_name site_key =
     (let public = base64url_encode c (public_key_raw c site_key) in
      and_then (canonicalize_object (json_str c)
          [(''displayName'', String display_name), (''domain'', String domain), (''publicKey'', String public),
           (''version'', json_int 1)]) (\<lambda>canonical.
        Inr \<lparr>md_version = 1, md_domain = domain, md_display_name = display_name, md_public_key = public,
             md_signature = ed25519_sign c site_key canonical\<rparr>))"

definition signed_registration :: "crates \<Rightarrow> bytes \<Rightarrow> string \<Rightarrow> string \<Rightarrow> string \<Rightarrow> int \<Rightarrow> int \<Rightarrow> RegistrationRequest relay_result" where
  "signed_registration c site_key domain session nonce iat exp =
     and_then (canonicalize_object (json_str c)
         [(''domain'', String domain), (''exp'', json_int exp), (''iat'', json_int iat), (''nonce'', String nonce),
          (''session'', String session), (''v'', json_int 1)]) (\<lambda>qr.
       let qr_signature = ed25519_sign c site_key qr in
       and_then (canonicalize_object (json_str c)
           [(''domain'', String domain), (''exp'', json_int exp), (''iat'', json_int iat), (''nonce'', String nonce),
            (''qrSignature'', String qr_signature), (''requestedDisplayName'', String []), (''sessionId'', String session),
            (''version'', json_int 1)]) (\<lambda>registration.
         Inr \<lparr>reg_version = 1, reg_domain = domain, reg_session_id = session, reg_nonce = nonce, reg_iat = iat, reg_exp = exp,
              reg_display_name = [], reg_qr_signature = qr_signature,
              reg_signature = ed25519_sign c site_key registration\<rparr>))"

text \<open>\<^verbatim>\<open>test_pool\<close>: whether there is a database to test on; connecting may migrate it.\<close>

definition test_pool :: "sys \<Rightarrow> connection \<Rightarrow> cluster \<Rightarrow> bool \<times> cluster" where
  "test_pool sys conn cl =
     (case env sys ''TEST_DATABASE_URL'' of
        None \<Rightarrow> (False, cl)
      | Some url \<Rightarrow> (case connect conn cl of (r, cl') \<Rightarrow> (is_ok r, cl')))"

text \<open>\<^verbatim>\<open>TRUNCATE ... RESTART IDENTITY CASCADE\<close> on every table but the migrations; a failure is ignored.\<close>

definition reset_tables :: "bool \<Rightarrow> bool \<Rightarrow> database \<Rightarrow> database" where
  "reset_tables pool_ok batch_ok db =
     (if pool_ok \<and> batch_ok then db\<lparr>delivery_jobs := [], grants := [], sessions := [], replay_request_event_ids := [],
        replay_challenge_hashes := [], replay_consent_event_ids := [], replay_assertion_jtis := [], replay_revocation_jtis := [],
        session_seq := 1, grant_seq := 1, job_seq := 1\<rparr>
      else db)"

definition state_with_pool :: "crates \<Rightarrow> bytes \<Rightarrow> bool \<Rightarrow> bool \<Rightarrow> database \<Rightarrow> int \<Rightarrow> (AppState \<times> world) relay_result" where
  "state_with_pool c signing_bytes pool_ok batch_ok db clock_ms =
     (let db1 = reset_tables pool_ok batch_ok db in
      and_then (test_keys c signing_bytes) (\<lambda>(signing, rest, subject, pepper).
        Inr (\<lparr>crates_of = c, at_rest = rest, lookup_pepper = pepper, subject_secret = subject, subject_key_version = 1,
              signing_key = signing, signing_kid = DEFAULT_KID, relay_user_id = MATRIX_USER_ID\<rparr>,
             \<lparr>w_db = db1, w_metrics = zero_metrics, w_outbox = [], w_posts = [], w_sync_ready = True, w_last_sync = clock_ms\<rparr>)))"

lemma reset_tables_empty: "reset_tables True True db = empty_database"
  by (simp add: reset_tables_def empty_database_def)

end
