(* ===== verification/Registration_Completion.thy ===== *)
theory Registration_Completion
  imports Providers Registration_Properties
begin

text \<open>
  The registration service with the site client, and with a site that follows the protocol.
\<close>

subsection \<open>What the signers of a site produce\<close>

lemma site_signs:
  assumes "base64_engine (b64_encode c) (b64_decode c)" "ed25519_ok c key"
  shows "validate_signature_b64 (ed25519_sign c key m) = Inr ()" "length (base64url_encode c (public_key_raw c key)) = 43"
  using base64_engine.enc_signature [OF assms(1)] base64_engine.enc_length [OF assms(1)] assms(2)
  by (simp_all add: ed25519_sign_def base64url_encode_def ed25519_ok_def public_key_raw_def)

lemma signed_metadata_valid:
  assumes "base64_engine (b64_encode c) (b64_decode c)" "ed25519_ok c key"
    and "validate_domain_field d = Inr ()" "\<not> trims_to_empty name" "length name \<le> MAX_DISPLAY_NAME"
    and md: "signed_metadata c d name key = Inr md"
  shows "validate_for_domain c md d = Inr ()" "md_public_key md = base64url_encode c (public_key_raw c key)" "md_display_name md = name"
proof -
  from md obtain b where b: "canonicalize_object (json_str c) (metadata_fields md) = Inr b"
    "md = \<lparr>md_version = 1, md_domain = d, md_display_name = name, md_public_key = base64url_encode c (public_key_raw c key),
       md_signature = ed25519_sign c key b\<rparr>"
    by (auto simp: signed_metadata_def Let_def result_simps metadata_fields_def)
  then have "ed25519_verify c (md_public_key md) b (md_signature md) = Inr ()" using ed25519_verify_sign [OF assms(1,2)] by simp
  with b assms(3-5) site_signs(2) [OF assms(1,2)] show "validate_for_domain c md d = Inr ()"
    by (simp add: validate_for_domain_def PROTOCOL_VERSION_def map_err_def)
qed (use md in \<open>auto simp: signed_metadata_def Let_def result_simps\<close>)

lemma signed_registration_valid:
  assumes "base64_engine (b64_encode c) (b64_decode c)" "ed25519_ok c key"
    and "validate_domain_field d = Inr ()" "validate_id s = Inr ()" "validate_id n = Inr ()" "validate_window iat e = Inr ()"
    and req: "signed_registration c key d s n iat e = Inr req"
  shows "registration_validate req = Inr ()" "reg_domain req = d" "reg_session_id req = s" "reg_nonce req = n" "reg_iat req = iat" "reg_exp req = e"
    and "\<exists>qr. qr_canonical c req = Inr qr \<and> ed25519_verify c (base64url_encode c (public_key_raw c key)) qr (reg_qr_signature req) = Inr ()"
    and "\<exists>b. registration_canonical c req = Inr b \<and> ed25519_verify c (base64url_encode c (public_key_raw c key)) b (reg_signature req) = Inr ()"
proof -
  from req obtain qr b where *: "qr_canonical c req = Inr qr" "registration_canonical c req = Inr b"
    "req = \<lparr>reg_version = 1, reg_domain = d, reg_session_id = s, reg_nonce = n, reg_iat = iat, reg_exp = e,
              reg_display_name = [], reg_qr_signature = ed25519_sign c key qr, reg_signature = ed25519_sign c key b\<rparr>"
    by (auto simp: signed_registration_def Let_def result_simps qr_canonical_def qr_fields_def registration_canonical_def registration_fields_def)
  then show "reg_domain req = d" "reg_session_id req = s" "reg_nonce req = n" "reg_iat req = iat" "reg_exp req = e" by simp_all
  have "validate_display_name [] False = Inr ()" by (simp add: validate_display_name_def)
  with *(3) assms(3-6) site_signs(1) [OF assms(1,2)] show "registration_validate req = Inr ()"
    by (simp add: registration_validate_def PROTOCOL_VERSION_def)
  show "\<exists>qr. qr_canonical c req = Inr qr \<and> ed25519_verify c (base64url_encode c (public_key_raw c key)) qr (reg_qr_signature req) = Inr ()"
    "\<exists>b. registration_canonical c req = Inr b \<and> ed25519_verify c (base64url_encode c (public_key_raw c key)) b (reg_signature req) = Inr ()"
    using * ed25519_verify_sign [OF assms(1,2)] by simp_all
qed

subsection \<open>A registration when nothing outside fails\<close>

definition registered :: "RegistrationRequest \<Rightarrow> world \<Rightarrow> InsertOutcome relay_result \<times> database
    \<Rightarrow> (RegistrationResponse \<times> bool) relay_result \<times> world" where
  "registered req w x = (case x of
      (Inl e, db) \<Rightarrow> (Inl e, w)
    | (Inr outcome, db) \<Rightarrow> (Inr (\<lparr>resp_version = 1, resp_session_id = reg_session_id req, resp_status = ''registered'',
              resp_expires_at = reg_exp req\<rparr>, outcome = Created),
        (if outcome = Created then w\<lparr>w_db := db, w_metrics := (w_metrics w)\<lparr>registrations := registrations (w_metrics w) + 1\<rparr>\<rparr>
         else w\<lparr>w_db := db\<rparr>)))"

lemma register_session_runs:
  assumes calm: "calm orc" and crypto: "hmac_ok (crates_of app)" "aead_ok (crates_of app) (at_rest app)"
    and req: "registration_validate req = Inr ()" "o_now orc 0 < reg_exp req" and fetch: "o_fetch orc (reg_domain req) = Inr md"
    and sigs: "\<exists>qr. qr_canonical (crates_of app) req = Inr qr \<and> ed25519_verify (crates_of app) (md_public_key md) qr (reg_qr_signature req) = Inr ()"
      "\<exists>b. registration_canonical (crates_of app) req = Inr b \<and> ed25519_verify (crates_of app) (md_public_key md) b (reg_signature req) = Inr ()"
    and json: "json_to_vec (crates_of app) (Object (registration_json req)) = Some json"
    and hashes: "keyed_hash (crates_of app) (lookup_pepper app) (reg_nonce req) = Inr h" "keyed_hash (crates_of app) (lookup_pepper app) json = Inr rh"
  obtains ct where "register_session app orc req w = registered req w (insert_registered (crates_of app) (new_session req md h ct rh) (w_db w))"
proof -
  obtain ct where ct: "at_rest_encrypt app orc 0 (reg_nonce req) = Inr ct" by (rule at_rest_total [OF crypto(2) calm])
  obtain qr b where qr: "qr_canonical (crates_of app) req = Inr qr" "registration_canonical (crates_of app) req = Inr b"
    "verify_or_invalid (crates_of app) (md_public_key md) qr (reg_qr_signature req) = Inr ()"
    "verify_or_invalid (crates_of app) (md_public_key md) b (reg_signature req) = Inr ()"
    using sigs by (auto simp: verify_or_invalid_def map_err_def)
  show thesis
    by (rule that [of ct], cases "insert_registered (crates_of app) (new_session req md h ct rh) (w_db w)")
      (use calm req fetch qr ct json hashes in \<open>auto simp: register_session_def Let_def fetch_or_reject_def bnd_def lift_result_def ret_def inc_def
        run_tx_def register_tx_def sql_def calm_def ok_or_def registered_def split: sum.splits InsertOutcome.splits\<close>)
qed

lemma insert_created:
  assumes "millis_to_utc c (wrapping_add (n_exp n) REPLAY_GRACE_MS) = Inr t"
    and "\<forall>y \<in> set (sessions db). s_domain y = n_domain n \<longrightarrow> s_session_id y \<noteq> n_session_id n \<and> s_nonce_hash y \<noteq> n_nonce_hash n"
  shows "insert_registered c n db = (Inr Created, db\<lparr>session_seq := session_seq db + 1, sessions := sessions db @ [new_row (session_seq db) t n]\<rparr>)"
  using assms by (auto simp: insert_registered_def Let_def list_ex_iff)

lemma insert_identical:
  assumes "millis_to_utc c (wrapping_add (n_exp n) REPLAY_GRACE_MS) = Inr t" "schema_ok db" "row \<in> set (sessions db)"
    and "s_domain row = n_domain n" "s_session_id row = n_session_id n" "s_nonce_hash row = n_nonce_hash n"
    and "s_registration_hash row = n_registration_hash n" "s_qr_signature row = n_qr_signature n"
      "s_registration_signature row = n_registration_signature n"
  shows "insert_registered c n db = (Inr Identical, db\<lparr>session_seq := session_seq db + 1\<rparr>)"
proof -
  have "fst (get_by_session (n_domain n) (n_session_id n) db) = Inr (Some row)"
    using get_by_session_unique [OF assms(2,3)] assms(4,5) by simp
  then have "get_by_session (n_domain n) (n_session_id n) (db\<lparr>session_seq := session_seq db + 1\<rparr>) = (Inr (Some row), db\<lparr>session_seq := session_seq db + 1\<rparr>)"
    by (simp add: get_by_session_def)
  moreover have "list_ex (\<lambda>r. s_domain r = n_domain n \<and> (s_session_id r = n_session_id n \<or> s_nonce_hash r = n_nonce_hash n)) (sessions db)"
    using assms(3-5) by (auto simp: list_ex_iff)
  ultimately show ?thesis using assms(1,6-) by (simp add: insert_registered_def Let_def)
qed

lemma with_recording_simps [simp]:
  "calm (with_recording c k site orc) = calm orc" "o_now (with_recording c k site orc) i = frozen_now_ms k"
  "o_fetch (with_recording c k site orc) = recording_fetch_metadata c site"
  by (simp_all add: with_recording_def calm_def)

text \<open>
  C20. A site that follows the protocol is served. Metadata and registration made by a site's own signers,
  for a valid domain and well-formed fields, are accepted while they are fresh and neither the database nor
  the primitives fail: the session is stored with exactly the signed data and answered as created. Sending the
  same registration again is answered as registered but not created, and changes no session.
\<close>

theorem site_registration_succeeds:
  assumes ok: "schema_ok (w_db w)" and calm: "calm orc" "calm orc'"
    and crypto: "hmac_ok (crates_of app)" "aead_ok (crates_of app) (at_rest app)"
      "base64_engine (b64_encode (crates_of app)) (b64_decode (crates_of app))" "ed25519_ok (crates_of app) key"
    and valid: "validate_domain_field d = Inr ()" "validate_id s = Inr ()" "validate_id n = Inr ()" "validate_window iat e = Inr ()"
      "\<not> trims_to_empty name" "length name \<le> 100"
    and md: "signed_metadata (crates_of app) d name key = Inr md"
    and req: "signed_registration (crates_of app) key d s n iat e = Inr req"
    and fresh: "frozen_now_ms clock < e" "millis_to_utc (crates_of app) (wrapping_add e REPLAY_GRACE_MS) = Inr t"
    and json: "json_to_vec (crates_of app) (Object (registration_json req)) = Some json"
    and new: "\<forall>y \<in> set (sessions (w_db w)). s_domain y = d \<longrightarrow> s_session_id y \<noteq> s \<and>
      keyed_hash (crates_of app) (lookup_pepper app) n \<noteq> Inr (s_nonce_hash y)"
  shows "\<exists>w1 w2 row resp.
      register_session app (with_recording (crates_of app) clock (with_metadata md) orc) req w = (Inr (resp, True), w1)
    \<and> sessions (w_db w1) = sessions (w_db w) @ [row] \<and> s_domain row = d \<and> s_session_id row = s \<and> s_iat row = iat \<and> s_exp row = e
    \<and> keyed_hash (crates_of app) (lookup_pepper app) n = Inr (s_nonce_hash row) \<and> s_site_display_name row = name
    \<and> s_state row = ''SITE_REGISTERED'' \<and> resp_session_id resp = s \<and> resp_status resp = ''registered'' \<and> resp_expires_at resp = e
    \<and> register_session app (with_recording (crates_of app) clock (with_metadata md) orc') req w1 = (Inr (resp, False), w2)
    \<and> sessions (w_db w2) = sessions (w_db w1)"
proof -
  let ?c = "crates_of app"
  have name: "length name \<le> MAX_DISPLAY_NAME" using valid(6) by (simp add: MAX_DISPLAY_NAME_def)
  note md' = signed_metadata_valid [OF crypto(3,4) valid(1,5) name md]
  note req' = signed_registration_valid [OF crypto(3,4) valid(1-4) req, folded md'(2)]
  obtain h rh where h: "keyed_hash ?c (lookup_pepper app) n = Inr h" "keyed_hash ?c (lookup_pepper app) json = Inr rh"
    using keyed_hash_total [OF crypto(1)] by metis
  have fetch: "recording_fetch_metadata ?c (with_metadata md) d = Inr md" by (simp add: recording_fetch_metadata_def with_metadata_def md'(1) ok_or_def)
  let ?resp = "\<lparr>resp_version = 1, resp_session_id = s, resp_status = ''registered'', resp_expires_at = e\<rparr>"
  let ?run = "\<lambda>orc w. register_session app (with_recording ?c clock (with_metadata md) orc) req w"
  have runs: "\<exists>ct. ?run orc w = registered req w (insert_registered ?c (new_session req md h ct rh) (w_db w))" if "calm orc" for orc w
    by (rule register_session_runs [where orc = "with_recording ?c clock (with_metadata md) orc" and app = app and req = req and md = md
        and json = json and h = h and rh = rh and w = w])
      (use that crypto fresh(1) fetch json h in \<open>auto simp: req'\<close>)
  from runs [OF calm(1), of w] obtain ct where run1: "?run orc w = registered req w (insert_registered ?c (new_session req md h ct rh) (w_db w))"
    by blast
  let ?n = "new_session req md h ct rh"
  let ?row = "new_row (session_seq (w_db w)) t ?n"
  let ?db1 = "(w_db w)\<lparr>session_seq := session_seq (w_db w) + 1, sessions := sessions (w_db w) @ [?row]\<rparr>"
  let ?w1 = "w\<lparr>w_db := ?db1, w_metrics := (w_metrics w)\<lparr>registrations := registrations (w_metrics w) + 1\<rparr>\<rparr>"
  have ins: "insert_registered ?c ?n (w_db w) = (Inr Created, ?db1)"
    by (rule insert_created) (use fresh(2) new h(1) in \<open>auto simp: new_session_def req'\<close>)
  from runs [OF calm(2), of ?w1] obtain ct2 where
    run2: "?run orc' ?w1 = registered req ?w1 (insert_registered ?c (new_session req md h ct2 rh) (w_db ?w1))" by blast
  have "schema_ok ?db1" using insert_stmt.keeps [OF ok, of ?c ?n] ins by simp
  then have again: "insert_registered ?c (new_session req md h ct2 rh) ?db1 = (Inr Identical, ?db1\<lparr>session_seq := session_seq ?db1 + 1\<rparr>)"
    by (intro insert_identical [where row = ?row and t = t]) (use fresh(2) in \<open>simp_all add: new_session_def new_row_def req'\<close>)
  show ?thesis
    by (intro exI [of _ ?w1] exI [of _ "?w1\<lparr>w_db := ?db1\<lparr>session_seq := session_seq ?db1 + 1\<rparr>\<rparr>"] exI [of _ ?row] exI [of _ ?resp])
      (use run1 run2 ins again h md'(3) in \<open>simp add: registered_def new_session_def new_row_def req'\<close>)
qed

subsection \<open>A concrete site\<close>

lemma demo_signers:
  obtains md req where "signed_metadata demo_crates d name key = Inr md" "signed_registration demo_crates key d s n iat e = Inr req"
proof -
  have lit: "literal_total (json_str demo_crates)" by (simp add: literal_total_def demo_crates_def quoted_def)
  let ?m = "\<lparr>md_version = 1, md_domain = d, md_display_name = name, md_public_key = base64url_encode demo_crates (public_key_raw demo_crates key),
    md_signature = []\<rparr>"
  let ?r = "\<lambda>q. \<lparr>reg_version = 1, reg_domain = d, reg_session_id = s, reg_nonce = n, reg_iat = iat, reg_exp = e,
    reg_display_name = [], reg_qr_signature = q, reg_signature = []\<rparr>"
  obtain b where "canonicalize_object (json_str demo_crates) (metadata_fields ?m) = Inr b" using metadata_doc.canonical_exists [OF lit] by blast
  moreover obtain qr where qr: "canonicalize_object (json_str demo_crates) (qr_fields (?r [])) = Inr qr" using qr_doc.canonical_exists [OF lit] by blast
  moreover obtain b' where "canonicalize_object (json_str demo_crates) (registration_fields (?r (ed25519_sign demo_crates key qr))) = Inr b'"
    using registration_doc.canonical_exists [OF lit] by blast
  ultimately show thesis
    by (intro that) (simp_all add: signed_metadata_def signed_registration_def Let_def metadata_fields_def qr_fields_def registration_fields_def)
qed

definition test_app :: AppState where
  "test_app = fst (projr (state_with_pool demo_crates ''seed'' True True (w_db demo_world) TEST_IAT))"

definition test_world :: world where
  "test_world = snd (projr (state_with_pool demo_crates ''seed'' True True (w_db demo_world) TEST_IAT))"

lemma test_state: "state_with_pool demo_crates ''seed'' True True (w_db demo_world) TEST_IAT = Inr (test_app, test_world)"
  "crates_of test_app = demo_crates" "w_db test_world = empty_database"
proof -
  have "AtRestKey_from_bytes demo_crates (replicate 32 (CHR 0x0B)) = Inr (replicate 32 (CHR 0x0B))" by code_simp
  then show "state_with_pool demo_crates ''seed'' True True (w_db demo_world) TEST_IAT = Inr (test_app, test_world)"
    "crates_of test_app = demo_crates" "w_db test_world = empty_database"
    by (simp_all add: test_app_def test_world_def state_with_pool_def test_keys_def Let_def reset_tables_empty)
qed

lemma test_fields: "validate_domain_field TEST_DOMAIN = Inr ()" "validate_id TEST_SESSION = Inr ()" "validate_id TEST_NONCE = Inr ()"
  "validate_window TEST_IAT TEST_EXP = Inr ()" "\<not> trims_to_empty ''Example''"
  "millis_to_utc demo_crates (wrapping_add TEST_EXP REPLAY_GRACE_MS) = Inr 1800000330000"
  by code_simp+

theorem site_registration_succeeds_witness:
  "\<exists>md req w1 w2 resp. signed_metadata demo_crates TEST_DOMAIN ''Example'' ''site'' = Inr md
    \<and> signed_registration demo_crates ''site'' TEST_DOMAIN TEST_SESSION TEST_NONCE TEST_IAT TEST_EXP = Inr req
    \<and> register_session test_app (with_recording demo_crates (frozen_new TEST_IAT) (with_metadata md) demo_oracles) req test_world = (Inr (resp, True), w1)
    \<and> register_session test_app (with_recording demo_crates (frozen_new TEST_IAT) (with_metadata md) demo_oracles) req w1 = (Inr (resp, False), w2)
    \<and> map s_session_id (sessions (w_db w2)) = [TEST_SESSION]"
proof (rule demo_signers [of TEST_DOMAIN "''Example''" "''site''" TEST_SESSION TEST_NONCE TEST_IAT TEST_EXP])
  fix md req
  assume signed: "signed_metadata demo_crates TEST_DOMAIN ''Example'' ''site'' = Inr md"
    "signed_registration demo_crates ''site'' TEST_DOMAIN TEST_SESSION TEST_NONCE TEST_IAT TEST_EXP = Inr req"
  obtain json where json: "json_to_vec demo_crates (Object (registration_json req)) = Some json"
    using demo_json [of "registration_json req"] by (force simp: registration_json_def)
  have now: "frozen_now_ms (frozen_new TEST_IAT) < TEST_EXP" and none: "sessions empty_database = []"
    by (simp_all add: frozen_now_ms_def frozen_new_def TEST_IAT_def TEST_EXP_def empty_database_def)
  from site_registration_succeeds [of test_world demo_oracles demo_oracles test_app "''site''" TEST_DOMAIN TEST_SESSION TEST_NONCE TEST_IAT TEST_EXP
      "''Example''" md req "frozen_new TEST_IAT" 1800000330000 json] signed test_fields json now
  show ?thesis by (auto simp: test_state none schema_ok_empty demo_calm demo_hmac demo_aead demo_base64 demo_ed25519)
qed

subsection \<open>Registration through the site client\<close>

text \<open>
  C5. A registered session rests on the site itself. With the client of the production state, whatever the
  resolver and the network answer, a registration adds a session only after one connection to port 443 of an
  address that was resolved for the request's own domain and is not blocked; the metadata read over that
  connection names that domain and is signed by the key it contains; both signatures of the request
  verify under that key; and the session is stored for that domain with that key.
\<close>

theorem registration_rests_on_site:
  assumes run: "register_session app (with_client (crates_of app) resolve ex orc) request w = (r, w')"
    and change: "sessions (w_db w') \<noteq> sessions (w_db w)"
  shows "\<exists>metadata b qr canonical ips ip sends row.
      fetch_metadata (crates_of app) resolve ex (reg_domain request) = (Inr metadata, Connect ip 443 # sends) \<and> set sends \<subseteq> range Send
    \<and> resolve (reg_domain request) = Inr ips \<and> ip \<in> set ips \<and> \<not> is_blocked_ip ip
    \<and> md_domain metadata = reg_domain request \<and> canonicalize_object (json_str (crates_of app)) (metadata_fields metadata) = Inr b
    \<and> ed25519_verify (crates_of app) (md_public_key metadata) b (md_signature metadata) = Inr ()
    \<and> qr_canonical (crates_of app) request = Inr qr
    \<and> ed25519_verify (crates_of app) (md_public_key metadata) qr (reg_qr_signature request) = Inr ()
    \<and> registration_canonical (crates_of app) request = Inr canonical
    \<and> ed25519_verify (crates_of app) (md_public_key metadata) canonical (reg_signature request) = Inr ()
    \<and> sessions (w_db w') = sessions (w_db w) @ [row] \<and> s_domain row = reg_domain request
    \<and> s_session_id row = reg_session_id request \<and> s_site_public_key row = md_public_key metadata"
proof -
  let ?c = "crates_of app" and ?d = "reg_domain request"
  have "w_db w' \<noteq> w_db w" using change by auto
  then obtain metadata n x where checked: "registration_checked app (with_client ?c resolve ex orc) request metadata n"
    and ins: "insert_registered ?c n (w_db w) = (Inr x, w_db w')"
    by (rule register_session_db [OF run])
  from checked have own: "fst (fetch_metadata ?c resolve ex ?d) = Inr metadata" by (simp add: registration_checked_def with_client_def)
  then obtain evs where fetch: "fetch_metadata ?c resolve ex ?d = (Inr metadata, evs)" by (metis prod.collapse)
  from fetch obtain response where req: "site_request resolve ex ?d METADATA_PATH ''GET'' [] [] MAX_METADATA_BYTES = (Inr response, evs)"
    by (auto simp: fetch_metadata_def split: prod.splits sum.splits)
  from site_request_events [where resolve = resolve and ex = ex and domain = ?d and path = METADATA_PATH and verb = "''GET''" and headers = "[]"
      and body = "[]" and max_body = MAX_METADATA_BYTES] obtain ips ip sends where
    net: "evs = Connect ip 443 # sends" "set sends \<subseteq> range Send" "resolve ?d = Inr ips" "ip \<in> set ips" "\<not> is_blocked_ip ip"
    by (auto simp: req split: list.splits)
  from insert_registered_rows(2) [OF ins change] obtain t where
    row: "sessions (w_db w') = sessions (w_db w) @ [new_row (session_seq (w_db w)) t n]" by blast
  from checked obtain h ct rh where n: "n = new_session request metadata h ct rh" unfolding registration_checked_def by blast
  from checked ssrf_client.fetched(1,3) [OF own] fetch net row show ?thesis
    unfolding registration_checked_def by (fastforce simp: n new_session_def new_row_def)
qed

definition demo_exchange :: exchange where
  "demo_exchange = \<lparr>ex_connect = True, ex_server_name = True, ex_tls = True, ex_write_head = None, ex_write_body = None, ex_flush = True,
     ex_first = Some (''H 200'' @ CRLF @ CRLF @ ''{}''), ex_reads = []\<rparr>"

definition demo_resolve :: "string \<Rightarrow> IpAddr list relay_result" where
  "demo_resolve host = Inr [V4 (Ipv4Addr 127 0 0 1), V4 (Ipv4Addr 93 184 216 34)]"

definition site_crates :: "SiteMetadata \<Rightarrow> crates" where
  "site_crates md = demo_crates\<lparr>json_parse := (\<lambda>_. Some (TMap [(''version'', TI64 1), (''domain'', TStr (md_domain md)),
     (''displayName'', TStr (md_display_name md)), (''publicKey'', TStr (md_public_key md)), (''signature'', TStr (md_signature md))]))\<rparr>"

lemma demo_site_responds:
  assumes "site_url d path = Inr (d, path)" "2 \<le> max_body"
  shows "site_request demo_resolve demo_exchange d path verb hs body max_body
     = (Inr \<lparr>sr_status = 200, sr_body = ''{}''\<rparr>,
        Connect (V4 (Ipv4Addr 93 184 216 34)) 443 # Send (request_head verb path d hs body) # (if body = [] then [] else [Send body]))"
proof -
  have "parse_http_response (header_block ''H 200'' [] @ CRLF @ CRLF @ ''{}'') max_body = Inr \<lparr>sr_status = 200, sr_body = ''{}''\<rparr>"
    by (subst parse_http_response_exact [where w = "''200''" and st = 200])
      (use assms(2) in \<open>simp_all add: second_word_def next_word_def trim_start.simps byte_in_def parse_u16_def digits_value_def header_block_def CRLF_def\<close>)
  moreover have "pick_public_address [V4 (Ipv4Addr 127 0 0 1), V4 (Ipv4Addr 93 184 216 34)] = Inr (V4 (Ipv4Addr 93 184 216 34))"
    "\<not> is_blocked_ip (V4 (Ipv4Addr 93 184 216 34))"
    "pinned_socket (V4 (Ipv4Addr 93 184 216 34)) = (V4 (Ipv4Addr 93 184 216 34), 443)" by code_simp+
  ultimately show ?thesis
    using assms by (simp add: site_request_def demo_resolve_def demo_exchange_def ok_or_def Let_def header_block_def CRLF_def)
qed

lemma demo_site_answers:
  "site_request demo_resolve demo_exchange TEST_DOMAIN METADATA_PATH ''GET'' [] [] MAX_METADATA_BYTES
     = (Inr \<lparr>sr_status = 200, sr_body = ''{}''\<rparr>, [Connect (V4 (Ipv4Addr 93 184 216 34)) 443, Send (request_head ''GET'' METADATA_PATH TEST_DOMAIN [] [])])"
proof -
  have "site_url TEST_DOMAIN METADATA_PATH = Inr (TEST_DOMAIN, METADATA_PATH)" by code_simp
  then show ?thesis by (subst demo_site_responds) (simp_all add: MAX_METADATA_BYTES_def)
qed

lemma site_swap:
  fixes c :: crates and P
  defines "c' \<equiv> c\<lparr>json_parse := P\<rparr>"
  shows "signed_metadata c' = signed_metadata c" "signed_registration c' = signed_registration c" "keyed_hash c' = keyed_hash c"
    "validate_for_domain c' = validate_for_domain c" "hmac_ok c' = hmac_ok c" "aead_ok c' = aead_ok c" "ed25519_ok c' = ed25519_ok c"
    "b64_encode c' = b64_encode c" "b64_decode c' = b64_decode c" "json_to_vec c' = json_to_vec c" "millis_to_utc c' = millis_to_utc c"
  unfolding c'_def fun_eq_iff
  by (simp_all add: signed_metadata_def signed_registration_def base64url_encode_def public_key_raw_def ed25519_sign_def keyed_hash_def
      validate_for_domain_def ed25519_verify_def parse_public_key_def base64url_decode_def hmac_ok_def aead_ok_def ed25519_ok_def
      millis_to_utc_def Let_def cong: option.case_cong if_cong)

lemma site_metadata_fetched:
  assumes "validate_for_domain demo_crates md TEST_DOMAIN = Inr ()"
  shows "fst (fetch_metadata (site_crates md) demo_resolve demo_exchange TEST_DOMAIN) = Inr md"
proof -
  have "md_version md = 1" using assms by (auto simp: validate_for_domain_def PROTOCOL_VERSION_def split: if_splits)
  moreover have "utf8_valid ''{}''" by code_simp
  ultimately have "from_slice (json_parse (site_crates md)) metadata_from_value ''{}'' = Inr md"
    by (simp add: from_slice_def from_str_def site_crates_def metadata_from_value_def struct_fields_def json_int_def ok_or_def del: utf8_valid.simps)
  with assms show ?thesis
    by (simp add: fetch_metadata_def demo_site_answers map_err_def) (simp add: site_crates_def site_swap)
qed

theorem registration_rests_on_site_witness:
  "\<exists>md req w' row. sessions (w_db w') = [demo_row, row] \<and> s_domain row = TEST_DOMAIN \<and> s_site_public_key row = md_public_key md
     \<and> w' = snd (register_session (demo_app\<lparr>crates_of := site_crates md\<rparr>) (with_client (site_crates md) demo_resolve demo_exchange
         (demo_oracles\<lparr>o_now := (\<lambda>_. TEST_IAT)\<rparr>)) req demo_world)"
proof (rule demo_signers [of TEST_DOMAIN "''Example''" "''site''" TEST_SESSION TEST_NONCE TEST_IAT TEST_EXP])
  fix md req
  let ?app = "demo_app\<lparr>crates_of := site_crates md\<rparr>"
  let ?orc = "with_client (site_crates md) demo_resolve demo_exchange (demo_oracles\<lparr>o_now := (\<lambda>_. TEST_IAT)\<rparr>)"
  assume signed: "signed_metadata demo_crates TEST_DOMAIN ''Example'' ''site'' = Inr md"
    "signed_registration demo_crates ''site'' TEST_DOMAIN TEST_SESSION TEST_NONCE TEST_IAT TEST_EXP = Inr req"
  have signed': "signed_registration (site_crates md) ''site'' TEST_DOMAIN TEST_SESSION TEST_NONCE TEST_IAT TEST_EXP = Inr req"
    and swap: "base64_engine (b64_encode (site_crates md)) (b64_decode (site_crates md))" "ed25519_ok (site_crates md) ''site''"
      "hmac_ok (site_crates md)" "aead_ok (site_crates md) key" "keyed_hash (site_crates md) = keyed_hash demo_crates"
      "json_to_vec (site_crates md) = json_to_vec demo_crates" "millis_to_utc (site_crates md) = millis_to_utc demo_crates" for key
    using signed(2) by (simp_all add: site_crates_def site_swap demo_base64 demo_ed25519 demo_hmac demo_aead)
  note md = signed_metadata_valid [OF demo_base64 demo_ed25519 test_fields(1,5) _ signed(1)]
  note req = signed_registration_valid [OF swap(1,2) test_fields(1-4) signed']
  have pk: "md_public_key md = base64url_encode (site_crates md) (public_key_raw (site_crates md) ''site'')"
    using md(2) by (simp add: MAX_DISPLAY_NAME_def base64url_encode_def public_key_raw_def site_crates_def)
  obtain json where json: "json_to_vec demo_crates (Object (registration_json req)) = Some json"
    using demo_json [of "registration_json req"] by (force simp: registration_json_def)
  have calm: "calm ?orc" using demo_calm by (simp add: with_client_def calm_def)
  obtain ct where run: "register_session ?app ?orc req demo_world = registered req demo_world
      (insert_registered (site_crates md) (new_session req md (pad32 TEST_NONCE) ct (pad32 json)) (w_db demo_world))"
    by (rule register_session_runs [OF calm, of ?app req md json "pad32 TEST_NONCE" "pad32 json" demo_world])
      (use swap md(1) json req(7,8) in \<open>auto simp: req(1-6) with_client_def site_metadata_fetched TEST_IAT_def TEST_EXP_def pk MAX_DISPLAY_NAME_def\<close>)
  have ins: "insert_registered (site_crates md) (new_session req md (pad32 TEST_NONCE) ct (pad32 json)) (w_db demo_world)
      = (Inr Created, (w_db demo_world)\<lparr>session_seq := 3, sessions := [demo_row, new_row 2 1800000330000
          (new_session req md (pad32 TEST_NONCE) ct (pad32 json))]\<rparr>)"
    by (subst insert_created [where t = 1800000330000]) (use test_fields(6) in \<open>simp_all add: new_session_def req(2-6) swap demo_db TEST_DOMAIN_def\<close>)
  have change: "sessions (w_db (snd (register_session ?app ?orc req demo_world))) \<noteq> sessions (w_db demo_world)"
    unfolding run ins by (simp add: registered_def demo_db)
  from registration_rests_on_site [of ?app demo_resolve demo_exchange "demo_oracles\<lparr>o_now := (\<lambda>_. TEST_IAT)\<rparr>" req demo_world, simplified,
      OF surjective_pairing change] show ?thesis
    using site_metadata_fetched [OF md(1)] by (auto simp: req(2) demo_db MAX_DISPLAY_NAME_def intro!: exI [of _ md] exI [of _ req])
qed

end
