(* ===== verification/Delivery.thy ===== *)
theory Delivery
  imports Login
begin

text \<open>
  \<^verbatim>\<open>src/delivery/queue.rs\<close>: the loop that posts queued assertions and revocations to the sites. One
  tick claims due jobs and handles them in order; every transaction and every job has its own
  oracles, because each meets the world at a different moment.
\<close>

definition autocommit :: "oracles \<Rightarrow> 'a stmt \<Rightarrow> 'a io" where
  "autocommit orc f = run_tx orc (bnd (sql orc 0 f) (\<lambda>x. ret (Committed x)))"

definition assertion_from_value :: "Value \<Rightarrow> RelayAssertion option" where
  "assertion_from_value v = do {
     fs \<leftarrow> struct_fields [''version'', ''iss'', ''aud'', ''sub'', ''sessionId'', ''nonce'', ''jti'', ''iat'', ''nbf'',
       ''exp'', ''displayName'', ''subjectKeyVersion'', ''kid'', ''signature''] v;
     ver \<leftarrow> field de_i64 (fs ! 0); iss \<leftarrow> field de_string (fs ! 1); aud \<leftarrow> field de_string (fs ! 2);
     sub \<leftarrow> field de_string (fs ! 3); s \<leftarrow> field de_string (fs ! 4); n \<leftarrow> field de_string (fs ! 5);
     jti \<leftarrow> field de_string (fs ! 6); iat \<leftarrow> field de_i64 (fs ! 7); nbf \<leftarrow> field de_i64 (fs ! 8);
     e \<leftarrow> field de_i64 (fs ! 9); name \<leftarrow> field de_string (fs ! 10); kv \<leftarrow> field de_i32 (fs ! 11);
     kid \<leftarrow> field de_string (fs ! 12); sg \<leftarrow> field de_string (fs ! 13);
     Some \<lparr>as_version = ver, as_iss = iss, as_aud = aud, as_sub = sub, as_session_id = s, as_nonce = n, as_jti = jti,
       as_iat = iat, as_nbf = nbf, as_exp = e, as_display_name = name, as_subject_key_version = kv, as_kid = kid,
       as_signature = sg\<rparr> }"

text \<open>\<^verbatim>\<open>state.site.post_json\<close>: the attempt is recorded whatever the site answers.\<close>

definition post_io :: "oracles \<Rightarrow> string \<Rightarrow> string \<Rightarrow> bytes \<Rightarrow> string option \<Rightarrow> SiteResponse io" where
  "post_io orc domain path body key w =
     (o_post orc domain path body key,
      w\<lparr>w_posts := w_posts w @ [\<lparr>sp_domain = domain, sp_path = path, sp_body = body, sp_key = key\<rparr>]\<rparr>)"

definition decrypt_text :: "AppState \<Rightarrow> bytes \<Rightarrow> string relay_result" where
  "decrypt_text app ct =
     and_then (decrypt (crates_of app) (at_rest app) ct) (\<lambda>b.
       if utf8_valid b then Inr b else err InternalError)"

definition accepted_tx :: "AppState \<Rightarrow> oracles \<Rightarrow> DeliveryJob \<Rightarrow> (string \<times> string) option tx_end tx" where
  "accepted_tx app orc job =
     bnd (sql orc 0 (get_matching (j_domain job) (j_session_id job) (j_nonce_hash job))) (\<lambda>row.
       case row of None \<Rightarrow> ret (Dropped None)
       | Some session \<Rightarrow>
         bnd (lift_result (ok_or (Problem InternalError) (s_request_room_ciphertext session))) (\<lambda>room.
         bnd (lift_result (decrypt_text app room)) (\<lambda>room_id.
         bnd (lift_result (decrypt_text app (s_nonce_ciphertext session))) (\<lambda>nonce.
         bnd (sql orc 1 (cas_update (s_id session) (s_version session) ''ASSERTION_DELIVERED'' no_update)) (\<lambda>_.
           ret (Committed (Some (room_id, nonce))))))))"

definition after_assertion_accepted :: "AppState \<Rightarrow> oracles \<Rightarrow> DeliveryJob \<Rightarrow> bytes \<Rightarrow> unit io" where
  "after_assertion_accepted app orc job payload =
     bnd (lift_result (from_slice (json_parse (crates_of app)) assertion_from_value payload)) (\<lambda>assertion.
     bnd (run_tx orc (accepted_tx app orc job)) (\<lambda>found.
       case found of None \<Rightarrow> ret ()
       | Some (room_id, nonce) \<Rightarrow> send_success_result app orc 0 room_id (j_session_id job) nonce (as_sub assertion)))"

definition job_path :: "string \<Rightarrow> string relay_result" where
  "job_path kind =
     (if kind = ''assertion'' then Inr ASSERTION_PATH
      else if kind = ''revocation'' then Inr REVOCATION_PATH
      else err InternalError)"

definition deliver :: "AppState \<Rightarrow> oracles \<Rightarrow> DeliveryJob \<Rightarrow> unit io" where
  "deliver app orc job =
     bnd (lift_result (decrypt (crates_of app) (at_rest app) (j_payload_ciphertext job))) (\<lambda>payload.
     bnd (lift_result (job_path (j_kind job))) (\<lambda>path.
     let idempotency = (if j_kind job = ''assertion'' then Some (j_jti job) else None) in
     bnd (post_io orc (j_domain job) path payload idempotency) (\<lambda>response.
       if sr_status response \<noteq> 202 \<and> sr_status response \<noteq> 200 then lift_result (err RelayUnavailable)
       else if j_kind job = ''assertion'' then after_assertion_accepted app orc job payload
       else ret ())))"

text \<open>The k-th job of a tick uses the oracles 2k+1 to deliver and 2k+2 to record the outcome.\<close>

fun run_jobs :: "AppState \<Rightarrow> (nat \<Rightarrow> oracles) \<Rightarrow> nat \<Rightarrow> DeliveryJob list \<Rightarrow> unit io" where
  "run_jobs app orcs k [] w = (Inr (), w)"
| "run_jobs app orcs k (job # jobs) w =
     (case deliver app (orcs (2 * k + 1)) job w of
        (Inr _, w1) \<Rightarrow>
          bnd (autocommit (orcs (2 * k + 2)) (mark_delivered (j_id job))) (\<lambda>_.
          bnd (inc (\<lambda>m. m\<lparr>deliveries := deliveries m + 1\<rparr>)) (\<lambda>_. run_jobs app orcs (k + 1) jobs)) w1
      | (Inl e, w1) \<Rightarrow>
          if j_attempts job \<ge> 8
          then bnd (autocommit (orcs (2 * k + 2)) (mark_failed (j_id job))) (\<lambda>_. run_jobs app orcs (k + 1) jobs) w1
          else run_jobs app orcs (k + 1) jobs w1)"

definition tick :: "AppState \<Rightarrow> (nat \<Rightarrow> oracles) \<Rightarrow> unit io" where
  "tick app orcs = bnd (autocommit (orcs 0) (claim_due (o_db_now (orcs 0)) 10)) (\<lambda>jobs. run_jobs app orcs 0 jobs)"

definition process_once :: "AppState \<Rightarrow> (nat \<Rightarrow> oracles) \<Rightarrow> unit io" where
  "process_once app orcs = tick app orcs"

text \<open>
  The loop against a list of rounds: the shutdown flag before the tick, the world during the tick,
  and the flag after the wait. An error of a tick is logged and dropped. The list may be longer
  than the loop runs; when it is shorter the loop is still going and the state so far is returned.
\<close>

fun run_loop :: "AppState \<Rightarrow> (bool \<times> (nat \<Rightarrow> oracles) \<times> bool) list \<Rightarrow> world \<Rightarrow> world" where
  "run_loop app [] w = w"
| "run_loop app ((stop_before, orcs, stop_after) # rounds) w =
     (if stop_before then w
      else let w1 = snd (tick app orcs w) in if stop_after then w1 else run_loop app rounds w1)"

end
