(* ===== verification/Relay_System.thy ===== *)
theory Relay_System
  imports Delivery Matrix_Sync Http Config Login_Laws
begin

text \<open>
  The relay as a transition system: the HTTP endpoint, the Matrix callbacks, the delivery worker and
  restarts interleave on one world, each with its own oracles. The worker is split at the points where
  other handlers can run in between: after the claim, after each delivery, after each mark. A database
  transaction is one step. Each step is labelled with the input it takes from outside, so that a run is the list of
  what the relay was really given.
\<close>

subsection \<open>States and steps\<close>

datatype worker = Idle | Delivering "DeliveryJob list" | Marking DeliveryJob string "DeliveryJob list"

record relay =
  rl_world :: world
  rl_limiter :: limiter
  rl_worker :: worker

definition rng_ok :: "oracles \<Rightarrow> bool" where
  "rng_ok orc \<longleftrightarrow> (\<forall>k n. length (o_rng orc k n) = n)"

datatype input =
    HttpRequest oracles "64 word" bytes
  | RoomMessage oracles sdk_room string string msgtype
  | SyncResult oracles bool "string \<Rightarrow> sdk_room option" "sdk_room list"
  | ClaimJobs oracles
  | DeliverJob oracles
  | MarkJob oracles
  | BatchDone
  | Restart bool int

inductive relay_does :: "AppState \<Rightarrow> input \<Rightarrow> relay \<Rightarrow> relay \<Rightarrow> bool" for app where
  http: "site_sessions app orc now_s body (rl_limiter s, rl_world s) = (resp, l, w) \<Longrightarrow>
    relay_does app (HttpRequest orc now_s body) s (s\<lparr>rl_world := w, rl_limiter := l\<rparr>)"
| message: "rng_ok orc \<Longrightarrow> w = on_room_message app orc room event_id sender text (rl_world s) \<Longrightarrow>
    relay_does app (RoomMessage orc room event_id sender text) s (s\<lparr>rl_world := w\<rparr>)"
| sync: "on_sync_result app orc sync_ok get_room invited (rl_world s) = (w, acts) \<Longrightarrow>
    relay_does app (SyncResult orc sync_ok get_room invited) s (s\<lparr>rl_world := w\<rparr>)"
| claim: "rl_worker s = Idle \<Longrightarrow> autocommit orc (claim_due (o_db_now orc) 10) (rl_world s) = (r, w) \<Longrightarrow>
    relay_does app (ClaimJobs orc) s
      (s\<lparr>rl_world := w, rl_worker := (case r of Inl _ \<Rightarrow> Idle | Inr jobs \<Rightarrow> Delivering jobs)\<rparr>)"
| job: "rl_worker s = Delivering (job # jobs) \<Longrightarrow> deliver app orc job (rl_world s) = (r, w) \<Longrightarrow>
    relay_does app (DeliverJob orc) s (s\<lparr>rl_world := w, rl_worker := (case r of
        Inr _ \<Rightarrow> Marking job ''delivered'' jobs
      | Inl _ \<Rightarrow> if j_attempts job \<ge> 8 then Marking job ''failed'' jobs else Delivering jobs)\<rparr>)"
| mark: "rl_worker s = Marking job st jobs \<Longrightarrow> autocommit orc (set_job_status st (j_id job)) (rl_world s) = (r, w) \<Longrightarrow>
    relay_does app (MarkJob orc) s (case r of
        Inl _ \<Rightarrow> s\<lparr>rl_world := w, rl_worker := Idle\<rparr>
      | Inr _ \<Rightarrow> s\<lparr>rl_world := (if st = ''delivered'' then snd (inc (\<lambda>m. m\<lparr>deliveries := deliveries m + 1\<rparr>) w) else w),
                  rl_worker := Delivering jobs\<rparr>)"
| done_jobs: "rl_worker s = Delivering [] \<Longrightarrow> relay_does app BatchDone s (s\<lparr>rl_worker := Idle\<rparr>)"
| restart: "w = rl_world s \<Longrightarrow>
    relay_does app (Restart b t) s \<lparr>rl_world = w\<lparr>w_metrics := zero_metrics, w_sync_ready := b, w_last_sync := t\<rparr>,
      rl_limiter = \<lparr>reg_window = 0, reg_count = 0\<rparr>, rl_worker = Idle\<rparr>"

text \<open>A step, whatever its input.\<close>

definition relay_step :: "AppState \<Rightarrow> relay \<Rightarrow> relay \<Rightarrow> bool" where
  "relay_step app s s' \<longleftrightarrow> (\<exists>i. relay_does app i s s')"

lemma relay_stepI: "relay_does app i s s' \<Longrightarrow> relay_step app s s'"
  by (auto simp: relay_step_def)

lemma relay_stepE:
  assumes "relay_step app s s'"
  obtains i where "relay_does app i s s'"
  using assms by (auto simp: relay_step_def)

definition start :: "world \<Rightarrow> relay" where
  "start w = \<lparr>rl_world = w, rl_limiter = \<lparr>reg_window = 0, reg_count = 0\<rparr>, rl_worker = Idle\<rparr>"

subsection \<open>A tick is a run of the worker\<close>

lemma run_jobs_steps:
  assumes "rl_worker s = Delivering jobs" "run_jobs app orcs k jobs (rl_world s) = (r, w')"
  shows "(relay_step app)\<^sup>*\<^sup>* s (s\<lparr>rl_world := w', rl_worker := Idle\<rparr>)"
  using assms
proof (induction jobs arbitrary: s k)
  case Nil
  then show ?case using relay_stepI [OF relay_does.done_jobs [of s app]] by auto
next
  case (Cons job jobs)
  obtain r1 w1 where d: "deliver app (orcs (Suc (2 * k))) job (rl_world s) = (r1, w1)" by fastforce
  note job = relay_stepI [OF relay_does.job [OF Cons.prems(1) d]]
  have marked: "(relay_step app)\<^sup>*\<^sup>* s (s\<lparr>rl_world := w', rl_worker := Idle\<rparr>)"
    if st: "relay_step app s (s\<lparr>rl_world := w1, rl_worker := Marking job st jobs\<rparr>)"
      and m: "autocommit orc (set_job_status st (j_id job)) w1 = (r2, w2)"
      and rest: "case r2 of Inl e \<Rightarrow> w' = w2 | Inr _ \<Rightarrow> run_jobs app orcs (k + 1) jobs
        (if st = ''delivered'' then snd (inc (\<lambda>m. m\<lparr>deliveries := deliveries m + 1\<rparr>) w2) else w2) = (r, w')" for st orc r2 w2
  proof -
    let ?s = "s\<lparr>rl_world := w1, rl_worker := Marking job st jobs\<rparr>"
    have mark: "relay_step app ?s (case r2 of Inl _ \<Rightarrow> ?s\<lparr>rl_world := w2, rl_worker := Idle\<rparr>
      | Inr _ \<Rightarrow> ?s\<lparr>rl_world := (if st = ''delivered'' then snd (inc (\<lambda>m. m\<lparr>deliveries := deliveries m + 1\<rparr>) w2) else w2),
                  rl_worker := Delivering jobs\<rparr>)"
      by (rule relay_stepI [OF relay_does.mark]) (use m in simp_all)
    show ?thesis
    proof (cases r2)
      case (Inl e)
      with mark st rest show ?thesis by (auto intro: converse_rtranclp_into_rtranclp)
    next
      case (Inr u)
      let ?w = "if st = ''delivered'' then snd (inc (\<lambda>m. m\<lparr>deliveries := deliveries m + 1\<rparr>) w2) else w2"
      let ?s2 = "s\<lparr>rl_world := ?w, rl_worker := Delivering jobs\<rparr>"
      have "(relay_step app)\<^sup>*\<^sup>* ?s2 (s\<lparr>rl_world := w', rl_worker := Idle\<rparr>)"
        using Cons.IH [of ?s2 "k + 1"] rest Inr by simp
      moreover have "relay_step app ?s ?s2" using mark Inr by simp
      ultimately show ?thesis using st by (meson converse_rtranclp_into_rtranclp)
    qed
  qed
  show ?case
  proof (cases r1)
    case (Inr u)
    obtain r2 w2 where m: "autocommit (orcs (2 * k + 2)) (set_job_status ''delivered'' (j_id job)) w1 = (r2, w2)" by fastforce
    show ?thesis
      by (rule marked [OF _ m]) (use job Inr Cons.prems(2) d m in \<open>auto simp: bnd_def mark_delivered_def inc_def split: sum.splits\<close>)
  next
    case (Inl e)
    show ?thesis
    proof (cases "j_attempts job \<ge> 8")
      case True
      obtain r2 w2 where m: "autocommit (orcs (2 * k + 2)) (set_job_status ''failed'' (j_id job)) w1 = (r2, w2)" by fastforce
      show ?thesis
        by (rule marked [OF _ m]) (use job Inl True Cons.prems(2) d m in \<open>auto simp: bnd_def mark_failed_def split: sum.splits\<close>)
    next
      case False
      let ?s = "s\<lparr>rl_world := w1, rl_worker := Delivering jobs\<rparr>"
      have "(relay_step app)\<^sup>*\<^sup>* ?s (s\<lparr>rl_world := w', rl_worker := Idle\<rparr>)"
        using Cons.IH [of ?s "k + 1"] Cons.prems(2) d Inl False by simp
      with job Inl False show ?thesis by (auto intro: converse_rtranclp_into_rtranclp)
    qed
  qed
qed

lemma tick_steps:
  assumes "rl_worker s = Idle" "tick app orcs (rl_world s) = (r, w')"
  shows "(relay_step app)\<^sup>*\<^sup>* s (s\<lparr>rl_world := w', rl_worker := Idle\<rparr>)"
proof -
  obtain r1 w1 where c: "autocommit (orcs 0) (claim_due (o_db_now (orcs 0)) 10) (rl_world s) = (r1, w1)" by fastforce
  note claim = relay_stepI [OF relay_does.claim [OF assms(1) c]]
  show ?thesis
  proof (cases r1)
    case (Inl e)
    with claim assms(2) c show ?thesis by (auto simp: tick_def bnd_def)
  next
    case (Inr jobs)
    let ?s = "s\<lparr>rl_world := w1, rl_worker := Delivering jobs\<rparr>"
    have "(relay_step app)\<^sup>*\<^sup>* ?s (?s\<lparr>rl_world := w', rl_worker := Idle\<rparr>)"
      by (rule run_jobs_steps) (use assms(2) c Inr in \<open>simp_all add: tick_def bnd_def\<close>)
    with claim Inr show ?thesis by (auto intro: converse_rtranclp_into_rtranclp)
  qed
qed

end
