(* ===== verification/Delivery_Properties.thy ===== *)
theory Delivery_Properties
  imports Delivery Login_Laws Relay_Demo
begin

text \<open>
  The properties of \<^verbatim>\<open>src/delivery/queue.rs\<close>: what a tick posts, what becomes of the jobs it claimed, and
  that the queue drains.
\<close>

subsection \<open>What the effects of a job touch\<close>

lemma autocommit_db:
  assumes "autocommit orc f w = (r, w')"
  shows "w_posts w' = w_posts w" "w_db w' = w_db w \<or> (\<exists>x. f (w_db w) = (Inr x, w_db w'))"
  using run_tx_frame(2) [OF assms [unfolded autocommit_def]] run_tx_db [OF assms [unfolded autocommit_def]]
  by (auto simp: eff_simps) (metis prod.collapse)

lemma autocommit_Inr:
  assumes "autocommit orc f w = (Inr x, w')"
  shows "f (w_db w) = (Inr x, w_db w')" "w_posts w' = w_posts w"
  using assms run_tx_frame(2) [OF assms [unfolded autocommit_def]] unfolding autocommit_def
  by (auto elim!: run_tx_Inr simp: eff_simps intro: prod_eqI)

lemma autocommit_calm:
  assumes "calm orc" "f (w_db w) = (Inr x, db)"
  shows "autocommit orc f w = (Inr x, w\<lparr>w_db := db\<rparr>)"
  using assms by (simp add: autocommit_def run_tx_def bnd_def sql_def ret_def calm_def)

lemma accepted_tx_committed:
  assumes "accepted_tx app orc job st = (Inr (Committed x), st')"
  shows "\<exists>session :: SessionRow. tx_db st' = snd (cas_update (s_id session) (s_version session) ''ASSERTION_DELIVERED'' no_update (tx_db st))"
  using assms by (auto simp: accepted_tx_def eff_simps split: option.splits) blast

lemma after_accepted_db:
  assumes "after_assertion_accepted app orc job payload w = (r, w')"
  shows "w_posts w' = w_posts w"
    "w_db w' = w_db w \<or> (\<exists>session :: SessionRow. w_db w' = snd (cas_update (s_id session) (s_version session) ''ASSERTION_DELIVERED'' no_update (w_db w)))"
proof -
  let ?parse = "from_slice (json_parse (crates_of app)) assertion_from_value payload"
  let ?k = "\<lambda>a found. case found of None \<Rightarrow> ret ()
    | Some (room_id, nonce) \<Rightarrow> send_success_result app orc 0 room_id (j_session_id job) nonce (as_sub a)"
  have "w_posts w' = w_posts w \<and> (w_db w' = w_db w \<or>
    (\<exists>session :: SessionRow. w_db w' = snd (cas_update (s_id session) (s_version session) ''ASSERTION_DELIVERED'' no_update (w_db w))))"
  proof (cases ?parse)
    case (Inl e)
    with assms show ?thesis by (simp add: after_assertion_accepted_def lift_then)
  next
    case (Inr a)
    with assms have run: "bnd (run_tx orc (accepted_tx app orc job)) (?k a) w = (r, w')"
      by (simp add: after_assertion_accepted_def lift_then)
    have quiet: "quiet (?k a found)" for found by (auto split: option.splits)
    obtain r1 w1 where tx: "run_tx orc (accepted_tx app orc job) w = (r1, w1)" by fastforce
    have "w_posts w' = w_posts w1"
      using run quiet by (auto simp: bnd_def tx quiet_def split: sum.splits) (metis prod.sel(2))
    with run_tx_frame(2) [OF tx] run_tx_then_quiet [OF run quiet] show ?thesis
      by (auto dest!: accepted_tx_committed)
  qed
  then show "w_posts w' = w_posts w"
    "w_db w' = w_db w \<or> (\<exists>session :: SessionRow. w_db w' = snd (cas_update (s_id session) (s_version session) ''ASSERTION_DELIVERED'' no_update (w_db w)))"
    by blast+
qed

definition post_of :: "AppState \<Rightarrow> DeliveryJob \<Rightarrow> site_post \<Rightarrow> bool" where
  "post_of app job p \<longleftrightarrow> sp_domain p = j_domain job
     \<and> decrypt (crates_of app) (at_rest app) (j_payload_ciphertext job) = Inr (sp_body p)
     \<and> job_path (j_kind job) = Inr (sp_path p)
     \<and> sp_key p = (if j_kind job = ''assertion'' then Some (j_jti job) else None)"

lemma deliver_effect:
  assumes "deliver app orc job w = (r, w')"
  shows "w_db w' = w_db w \<or> (\<exists>session :: SessionRow. w_db w' = snd (cas_update (s_id session) (s_version session) ''ASSERTION_DELIVERED'' no_update (w_db w)))"
    and "w_posts w' = w_posts w \<or> (\<exists>p. post_of app job p \<and> w_posts w' = w_posts w @ [p])"
proof -
  consider (early) "w' = w" | (posted) payload path where
    "decrypt (crates_of app) (at_rest app) (j_payload_ciphertext job) = Inr payload" "job_path (j_kind job) = Inr path"
    by (cases "decrypt (crates_of app) (at_rest app) (j_payload_ciphertext job)"; cases "job_path (j_kind job)")
      (use assms in \<open>auto simp: deliver_def lift_then\<close>)
  then have "(w_db w' = w_db w \<or> (\<exists>session :: SessionRow. w_db w' = snd (cas_update (s_id session) (s_version session) ''ASSERTION_DELIVERED'' no_update (w_db w))))
    \<and> (w_posts w' = w_posts w \<or> (\<exists>p. post_of app job p \<and> w_posts w' = w_posts w @ [p]))"
  proof cases
    case posted
    let ?key = "if j_kind job = ''assertion'' then Some (j_jti job) else None"
    let ?p = "\<lparr>sp_domain = j_domain job, sp_path = path, sp_body = payload, sp_key = ?key\<rparr>"
    let ?w = "w\<lparr>w_posts := w_posts w @ [?p]\<rparr>"
    have p: "post_of app job ?p" using posted by (simp add: post_of_def)
    from assms have "w' = ?w \<or> (\<exists>r. after_assertion_accepted app orc job payload ?w = (r, w'))"
      by (auto simp: deliver_def lift_then posted Let_def bnd_def post_io_def ret_def lift_result_def split: sum.splits if_splits)
    then show ?thesis
    proof
      assume "w' = ?w"
      with p show ?thesis by auto
    next
      assume "\<exists>r. after_assertion_accepted app orc job payload ?w = (r, w')"
      then obtain r where "after_assertion_accepted app orc job payload ?w = (r, w')" ..
      from after_accepted_db [OF this] p show ?thesis by auto
    qed
  qed simp
  then show "w_db w' = w_db w \<or> (\<exists>session :: SessionRow. w_db w' = snd (cas_update (s_id session) (s_version session) ''ASSERTION_DELIVERED'' no_update (w_db w)))"
    and "w_posts w' = w_posts w \<or> (\<exists>p. post_of app job p \<and> w_posts w' = w_posts w @ [p])" by blast+
qed

lemma deliver_jobs:
  assumes "deliver app orc job w = (r, w')"
  shows "delivery_jobs (w_db w') = delivery_jobs (w_db w)" "schema_ok (w_db w) \<Longrightarrow> schema_ok (w_db w')"
  using deliver_effect(1) [OF assms] by (metis cas_frames(2), metis cas_stmt.keeps)

subsection \<open>What a tick posts\<close>

lemma run_jobs_posts:
  "run_jobs app orcs k jobs w = (r, w') \<Longrightarrow>
     \<exists>posts. w_posts w' = w_posts w @ posts \<and> length posts \<le> length jobs \<and> (\<forall>p \<in> set posts. \<exists>job \<in> set jobs. post_of app job p)"
proof (induction jobs arbitrary: k w)
  case (Cons job jobs)
  obtain r1 w1 where d: "deliver app (orcs (Suc (2 * k))) job w = (r1, w1)" by fastforce
  have first: "\<exists>posts. w_posts w1 = w_posts w @ posts \<and> length posts \<le> 1 \<and> (\<forall>p \<in> set posts. post_of app job p)"
    using deliver_effect(2) [OF d] by (auto intro: exI [of _ "[]"] exI [of _ "[_]"])
  have "\<exists>rest. w_posts w' = w_posts w1 @ rest \<and> length rest \<le> length jobs \<and> (\<forall>p \<in> set rest. \<exists>job \<in> set jobs. post_of app job p)"
  proof -
    have "w_posts w' = w_posts w1 \<or> (\<exists>w2. w_posts w2 = w_posts w1 \<and> run_jobs app orcs (k + 1) jobs w2 = (r, w'))"
      using Cons.prems d
      by (auto simp: bnd_def inc_def split: sum.splits if_splits prod.splits dest!: autocommit_db(1))
    then show ?thesis
    proof
      assume "\<exists>w2. w_posts w2 = w_posts w1 \<and> run_jobs app orcs (k + 1) jobs w2 = (r, w')"
      then obtain w2 where w2: "w_posts w2 = w_posts w1" "run_jobs app orcs (k + 1) jobs w2 = (r, w')" by blast
      from Cons.IH [OF w2(2)] show ?thesis unfolding w2(1) .
    qed (rule exI [of _ "[]"], simp)
  qed
  then obtain rest where rest: "w_posts w' = w_posts w1 @ rest" "length rest \<le> length jobs"
    "\<forall>p \<in> set rest. \<exists>job \<in> set jobs. post_of app job p" by blast
  from first obtain posts where "w_posts w1 = w_posts w @ posts" "length posts \<le> 1" "\<forall>p \<in> set posts. post_of app job p" by blast
  with rest show ?case by (intro exI [of _ "posts @ rest"]) auto
qed simp

lemma claimed_post_of [simp]: "post_of app (claimed now j) p = post_of app j p"
  by (simp add: post_of_def claimed_def)

text \<open>
  C22. Only due jobs are posted: one tick of the delivery loop makes at most ten requests, and each one
  goes to the domain and the fixed path of a job that was pending and due when the tick began, carries
  exactly the decrypted payload stored for that job and, for an assertion, its identifier as
  idempotency key. This holds whatever the database and the sites answer.
\<close>

theorem tick_posts_due_jobs:
  assumes "schema_ok (w_db w)" "tick app orcs w = (r, w')"
  shows "\<exists>posts. w_posts w' = w_posts w @ posts \<and> length posts \<le> 10
    \<and> (\<forall>p \<in> set posts. \<exists>j \<in> set (delivery_jobs (w_db w)). job_due (o_db_now (orcs 0)) j \<and> sp_domain p = j_domain j
         \<and> decrypt (crates_of app) (at_rest app) (j_payload_ciphertext j) = Inr (sp_body p)
         \<and> sp_path p = (if j_kind j = ''assertion'' then ''/pseud0/web-login/assertions'' else ''/pseud0/web-login/revocations'')
         \<and> sp_key p = (if j_kind j = ''assertion'' then Some (j_jti j) else None))"
proof -
  let ?now = "o_db_now (orcs 0)"
  have path: "sp_path p = (if j_kind j = ''assertion'' then ''/pseud0/web-login/assertions'' else ''/pseud0/web-login/revocations'')"
    if "post_of app j p" for j p
    using that by (auto simp: post_of_def job_path_def ASSERTION_PATH_def REVOCATION_PATH_def split: if_splits)
  obtain r1 w1 where claim: "autocommit (orcs 0) (claim_due ?now 10) w = (r1, w1)" by fastforce
  show ?thesis
  proof (cases r1)
    case (Inl e)
    with assms(2) claim autocommit_db(1) [OF claim] show ?thesis
      by (auto simp: tick_def bnd_def intro: exI [of _ "[]"])
  next
    case (Inr jobs)
    note c = autocommit_Inr [OF claim [unfolded Inr]]
    from assms(2) claim Inr have run: "run_jobs app orcs 0 jobs w1 = (r, w')" by (simp add: tick_def bnd_def)
    obtain posts where posts: "w_posts w' = w_posts w @ posts" "length posts \<le> length jobs"
      "\<forall>p \<in> set posts. \<exists>job \<in> set jobs. post_of app job p"
      using run_jobs_posts [OF run] c(2) by auto
    from assms(1) c(1) show ?thesis
    proof (rule claim_due_InrE)
      fix ids
      assume *: "jobs = map (claimed ?now) (filter (\<lambda>j. j_id j \<in> ids) (delivery_jobs (w_db w)))"
        "\<And>j. j \<in> set (delivery_jobs (w_db w)) \<Longrightarrow> j_id j \<in> ids \<Longrightarrow> job_due ?now j" "length jobs \<le> 10"
      have each: "\<exists>j \<in> set (delivery_jobs (w_db w)). job_due ?now j \<and> post_of app j p" if "p \<in> set posts" for p
        using posts(3) that *(1,2) by fastforce
      show ?thesis
      proof (intro exI [of _ posts] conjI ballI)
        fix p assume "p \<in> set posts"
        from each [OF this] obtain j where "j \<in> set (delivery_jobs (w_db w))" "job_due ?now j" "post_of app j p" by blast
        with path [OF this(3)] show "\<exists>j \<in> set (delivery_jobs (w_db w)). job_due ?now j \<and> sp_domain p = j_domain j
         \<and> decrypt (crates_of app) (at_rest app) (j_payload_ciphertext j) = Inr (sp_body p)
         \<and> sp_path p = (if j_kind j = ''assertion'' then ''/pseud0/web-login/assertions'' else ''/pseud0/web-login/revocations'')
         \<and> sp_key p = (if j_kind j = ''assertion'' then Some (j_jti j) else None)"
          unfolding post_of_def by blast
      qed (use posts *(3) in simp_all)
    qed
  qed
qed

subsection \<open>The queue drains\<close>

text \<open>What a tick that meets a working database does to a job: settle it by id, or leave it.\<close>

definition settle :: "(int \<Rightarrow> string option) \<Rightarrow> DeliveryJob \<Rightarrow> DeliveryJob" where
  "settle \<sigma> j = (case \<sigma> (j_id j) of None \<Rightarrow> j | Some st \<Rightarrow> j\<lparr>j_status := st\<rparr>)"

definition settles :: "(int \<Rightarrow> string option) \<Rightarrow> DeliveryJob \<Rightarrow> bool" where
  "settles \<sigma> job \<longleftrightarrow> \<sigma> (j_id job) = Some ''delivered''
     \<or> (if j_attempts job \<ge> 8 then \<sigma> (j_id job) = Some ''failed'' else \<sigma> (j_id job) = None)"

lemma settle_then:
  assumes "\<sigma> i = None"
  shows "map (settle \<sigma>) (map (\<lambda>j. if j_id j = i then j\<lparr>j_status := st\<rparr> else j) js) = map (settle (\<sigma>(i \<mapsto> st))) js"
  using assms by (auto simp: settle_def split: option.splits)

lemma run_jobs_calm:
  assumes "\<forall>k. calm (orcs k)" "distinct (map j_id jobs)"
  shows "\<exists>\<sigma> w'. run_jobs app orcs k jobs w = (Inr (), w') \<and> delivery_jobs (w_db w') = map (settle \<sigma>) (delivery_jobs (w_db w))
    \<and> (\<forall>i. \<sigma> i \<noteq> None \<longrightarrow> i \<in> j_id ` set jobs) \<and> (\<forall>job \<in> set jobs. settles \<sigma> job)"
  using assms(2)
proof (induction jobs arbitrary: k w)
  case Nil
  show ?case by (rule exI [of _ Map.empty]) (simp add: settle_def map_idI)
next
  case (Cons job jobs)
  obtain r1 w1 where d: "deliver app (orcs (Suc (2 * k))) job w = (r1, w1)" by fastforce
  have jobs1: "delivery_jobs (w_db w1) = delivery_jobs (w_db w)" by (rule deliver_jobs(1) [OF d])
  have mark: "autocommit (orcs n) (set_job_status st (j_id job)) w1
      = (Inr (), w1\<lparr>w_db := snd (set_job_status st (j_id job) (w_db w1))\<rparr>)" for st n
    by (rule autocommit_calm [OF assms(1) [rule_format]]) (simp add: set_job_status_def)
  consider st where "st = ''delivered'' \<or> (st = ''failed'' \<and> j_attempts job \<ge> 8)" "\<exists>m. run_jobs app orcs k (job # jobs) w
        = run_jobs app orcs (k + 1) jobs (w1\<lparr>w_db := snd (set_job_status st (j_id job) (w_db w1)), w_metrics := m\<rparr>)"
    | "j_attempts job < 8" "run_jobs app orcs k (job # jobs) w = run_jobs app orcs (k + 1) jobs w1"
  proof (cases r1)
    case (Inl e)
    show thesis
    proof (cases "j_attempts job \<ge> 8")
      case True
      then show thesis
        by (intro that(1) [of "''failed''"] exI [of _ "w_metrics w1"]) (simp_all add: d Inl bnd_def mark_failed_def mark)
    qed (use that(2) in \<open>simp add: d Inl\<close>)
  next
    case (Inr u)
    show thesis
      by (intro that(1) [of "''delivered''"] exI [of _ "(w_metrics w1)\<lparr>deliveries := deliveries (w_metrics w1) + 1\<rparr>"])
        (simp_all add: d Inr bnd_def mark_delivered_def mark inc_def)
  qed
  then show ?case
  proof cases
    case (1 st)
    then obtain m where run: "run_jobs app orcs k (job # jobs) w = run_jobs app orcs (k + 1) jobs
      (w1\<lparr>w_db := snd (set_job_status st (j_id job) (w_db w1)), w_metrics := m\<rparr>)" by blast
    from Cons.IH [of "k + 1" "w1\<lparr>w_db := snd (set_job_status st (j_id job) (w_db w1)), w_metrics := m\<rparr>"] Cons.prems
    obtain \<sigma> w' where IH: "run_jobs app orcs (k + 1) jobs (w1\<lparr>w_db := snd (set_job_status st (j_id job) (w_db w1)), w_metrics := m\<rparr>)
        = (Inr (), w')" "delivery_jobs (w_db w') = map (settle \<sigma>) (map (\<lambda>j. if j_id j = j_id job then j\<lparr>j_status := st\<rparr> else j) (delivery_jobs (w_db w)))"
      "\<forall>i. \<sigma> i \<noteq> None \<longrightarrow> i \<in> j_id ` set jobs" "\<forall>job \<in> set jobs. settles \<sigma> job"
      by (auto simp: set_job_status_def jobs1)
    have new: "\<sigma> (j_id job) = None" using IH(3) Cons.prems by auto
    have all: "settles (\<sigma>(j_id job \<mapsto> st)) job'" if "job' \<in> set (job # jobs)" for job'
      using that IH(4) 1(1) Cons.prems by (auto simp: settles_def) (metis image_eqI)+
    show ?thesis
    proof (intro exI [of _ "\<sigma>(j_id job \<mapsto> st)"] exI [of _ w'] conjI)
      show "run_jobs app orcs k (job # jobs) w = (Inr (), w')" by (simp only: run IH(1))
      show "delivery_jobs (w_db w') = map (settle (\<sigma>(j_id job \<mapsto> st))) (delivery_jobs (w_db w))"
        by (simp only: IH(2) settle_then [of \<sigma>, OF new])
      show "\<forall>i. (\<sigma>(j_id job \<mapsto> st)) i \<noteq> None \<longrightarrow> i \<in> j_id ` set (job # jobs)" using IH(3) by auto
      show "\<forall>job' \<in> set (job # jobs). settles (\<sigma>(j_id job \<mapsto> st)) job'" using all by blast
    qed
  next
    case 2
    from Cons.IH [of "k + 1" w1] Cons.prems obtain \<sigma> w' where IH: "run_jobs app orcs (k + 1) jobs w1 = (Inr (), w')"
      "delivery_jobs (w_db w') = map (settle \<sigma>) (delivery_jobs (w_db w))" "\<forall>i. \<sigma> i \<noteq> None \<longrightarrow> i \<in> j_id ` set jobs"
      "\<forall>job \<in> set jobs. settles \<sigma> job" by (auto simp: jobs1)
    moreover have "\<sigma> (j_id job) = None" using IH(3) Cons.prems by auto
    ultimately show ?thesis using 2 by (intro exI [of _ \<sigma>] exI [of _ w']) (auto simp: settles_def)
  qed
qed

definition weight :: "DeliveryJob \<Rightarrow> nat" where
  "weight j = (if j_status j = ''pending'' then max 1 (nat (9 - j_attempts j)) else 0)"

definition backlog :: "database \<Rightarrow> nat" where
  "backlog db = sum_list (map weight (delivery_jobs db))"

lemma weight_settled:
  assumes "job_due now j" "settles \<sigma> (claimed now j)"
  shows "weight (settle \<sigma> (claimed now j)) < weight j"
  using assms by (auto simp: weight_def settles_def settle_def claimed_def job_due_def split: if_splits)

lemma sum_list_less:
  assumes "\<And>x. x \<in> set xs \<Longrightarrow> f x \<le> (g x :: nat)" "y \<in> set xs" "f y < g y"
  shows "sum_list (map f xs) < sum_list (map g xs)"
  using assms
proof (induction xs)
  case (Cons x xs)
  have le: "sum_list (map f xs) \<le> sum_list (map g xs)" using Cons.prems(1) by (intro sum_list_mono) auto
  show ?case
  proof (cases "y = x")
    case True
    with le Cons.prems(3) show ?thesis by simp
  next
    case False
    with Cons.IH Cons.prems have "sum_list (map f xs) < sum_list (map g xs)" by auto
    with Cons.prems(1) [of x] show ?thesis by simp
  qed
qed simp

lemma tick_calm:
  assumes ok: "schema_ok (w_db w)" and calm: "\<forall>k. calm (orcs k)"
    and fits: "\<forall>j \<in> set (delivery_jobs (w_db w)). j_attempts j < i32_max"
  obtains w' ids \<sigma> where "tick app orcs w = (Inr (), w')"
    "delivery_jobs (w_db w') = map (\<lambda>j. if j_id j \<in> ids then settle \<sigma> (claimed (o_db_now (orcs 0)) j) else j) (delivery_jobs (w_db w))"
    "\<forall>j \<in> set (delivery_jobs (w_db w)). j_id j \<in> ids \<longrightarrow> job_due (o_db_now (orcs 0)) j \<and> settles \<sigma> (claimed (o_db_now (orcs 0)) j)"
    "list_ex (job_due (o_db_now (orcs 0))) (delivery_jobs (w_db w)) \<longrightarrow> (\<exists>j \<in> set (delivery_jobs (w_db w)). j_id j \<in> ids)"
    "\<not> list_ex (job_due (o_db_now (orcs 0))) (delivery_jobs (w_db w)) \<longrightarrow> w_db w' = w_db w"
proof -
  let ?now = "o_db_now (orcs 0)" and ?jobs = "delivery_jobs (w_db w)"
  obtain jobs db1 where claim: "claim_due ?now 10 (w_db w) = (Inr jobs, db1)" by (rule claim_due_total [OF fits])
  have tick: "tick app orcs w = run_jobs app orcs 0 jobs (w\<lparr>w_db := db1\<rparr>)"
    using autocommit_calm [OF calm [rule_format, of 0], of "claim_due ?now 10" w jobs db1] claim by (simp add: tick_def bnd_def)
  from ok claim show thesis
  proof (rule claim_due_InrE)
    fix ids
    assume *: "jobs = map (claimed ?now) (filter (\<lambda>j. j_id j \<in> ids) ?jobs)"
      "db1 = (w_db w)\<lparr>delivery_jobs := map (\<lambda>j. if j_id j \<in> ids then claimed ?now j else j) ?jobs\<rparr>"
      "\<And>j. j \<in> set ?jobs \<Longrightarrow> j_id j \<in> ids \<Longrightarrow> job_due ?now j"
      "0 < (10 :: nat) \<Longrightarrow> list_ex (job_due ?now) ?jobs \<Longrightarrow> jobs \<noteq> []"
    have "distinct (map j_id jobs)"
      using ok by (simp add: *(1) schema_ok_def unique_ids_def comp_def claimed_def distinct_map_filter)
    from run_jobs_calm [OF calm this, where app = app and k = 0 and w = "w\<lparr>w_db := db1\<rparr>"] obtain \<sigma> w' where
      run: "run_jobs app orcs 0 jobs (w\<lparr>w_db := db1\<rparr>) = (Inr (), w')"
      and settled: "delivery_jobs (w_db w') = map (settle \<sigma>) (delivery_jobs db1)"
      and only: "\<forall>i. \<sigma> i \<noteq> None \<longrightarrow> i \<in> j_id ` set jobs" and each: "\<forall>job \<in> set jobs. settles \<sigma> job" by auto
    have "\<sigma> (j_id j) = None" if "j_id j \<notin> ids" for j :: DeliveryJob using only that by (force simp: *(1) claimed_def)
    then have jobs': "delivery_jobs (w_db w') = map (\<lambda>j. if j_id j \<in> ids then settle \<sigma> (claimed ?now j) else j) ?jobs"
      by (simp add: settled *(2) settle_def)
    have "jobs = []" if "\<not> list_ex (job_due ?now) ?jobs" using that *(3) by (auto simp: *(1) list_ex_iff filter_empty_conv)
    moreover have "db1 = w_db w" if "jobs = []"
    proof -
      have "map (\<lambda>j. if j_id j \<in> ids then claimed ?now j else j) ?jobs = ?jobs"
        using that by (auto simp: *(1) filter_empty_conv intro!: map_idI)
      then show ?thesis by (simp add: *(2))
    qed
    ultimately have idle: "w_db w' = w_db w" if "\<not> list_ex (job_due ?now) ?jobs" using run that by auto
    show thesis
      by (rule that [of w' ids \<sigma>]) (use tick run jobs' *(1,3,4) each idle in \<open>auto simp: filter_empty_conv\<close>)
  qed
qed

lemma settled_claim:
  assumes "settles \<sigma> (claimed now j)" "j_status j = ''pending''"
  shows "j_status (settle \<sigma> (claimed now j)) = ''delivered''
    \<or> (j_status (settle \<sigma> (claimed now j)) = ''failed'' \<and> 7 \<le> j_attempts j)
    \<or> (j_status (settle \<sigma> (claimed now j)) = ''pending'' \<and> j_attempts (settle \<sigma> (claimed now j)) = j_attempts j + 1
        \<and> j_attempts (settle \<sigma> (claimed now j)) < 8)"
  using assms by (auto simp: settles_def settle_def claimed_def split: if_splits)

lemma settled_claim_same:
  "(settle \<sigma> (claimed now j))\<lparr>j_status := j_status j, j_attempts := j_attempts j, j_next_retry_at := j_next_retry_at j\<rparr> = j"
  by (simp add: settle_def claimed_def split: option.splits)

text \<open>
  C23. Delivery ends: while the database works, every tick succeeds, touches of a job only its status,
  attempt count and retry time, and every claimed job is afterwards delivered, or failed (from the
  eighth attempt on), or still pending with one attempt more. Each tick that finds a due job lowers the
  backlog, which counts the attempts the pending jobs have left: whatever the sites answer, a queue is
  posted a bounded number of times and then empty.
\<close>

theorem delivery_queue_drains:
  assumes "schema_ok (w_db w)" "\<forall>k. calm (orcs k)" "\<forall>j \<in> set (delivery_jobs (w_db w)). j_attempts j < i32_max"
  shows "\<exists>w' f. tick app orcs w = (Inr (), w') \<and> delivery_jobs (w_db w') = map f (delivery_jobs (w_db w))
    \<and> (\<forall>j. (f j)\<lparr>j_status := j_status j, j_attempts := j_attempts j, j_next_retry_at := j_next_retry_at j\<rparr> = j)
    \<and> (\<forall>j \<in> set (delivery_jobs (w_db w)). f j = j \<or> (job_due (o_db_now (orcs 0)) j
         \<and> (j_status (f j) = ''delivered'' \<or> (j_status (f j) = ''failed'' \<and> 7 \<le> j_attempts j)
            \<or> (j_status (f j) = ''pending'' \<and> j_attempts (f j) = j_attempts j + 1 \<and> j_attempts (f j) < 8))))
    \<and> (if list_ex (job_due (o_db_now (orcs 0))) (delivery_jobs (w_db w)) then backlog (w_db w') < backlog (w_db w)
       else w_db w' = w_db w)"
proof -
  let ?now = "o_db_now (orcs 0)" and ?jobs = "delivery_jobs (w_db w)"
  obtain w' ids \<sigma> where run: "tick app orcs w = (Inr (), w')"
    and jobs: "delivery_jobs (w_db w') = map (\<lambda>j. if j_id j \<in> ids then settle \<sigma> (claimed ?now j) else j) ?jobs"
    and mine: "\<forall>j \<in> set ?jobs. j_id j \<in> ids \<longrightarrow> job_due ?now j \<and> settles \<sigma> (claimed ?now j)"
    and some: "list_ex (job_due ?now) ?jobs \<longrightarrow> (\<exists>j \<in> set ?jobs. j_id j \<in> ids)"
    and idle: "\<not> list_ex (job_due ?now) ?jobs \<longrightarrow> w_db w' = w_db w"
    by (rule tick_calm [OF assms, of app])
  let ?f = "\<lambda>j. if j_id j \<in> ids then settle \<sigma> (claimed ?now j) else j"
  have less: "weight (?f j) < weight j" if "j \<in> set ?jobs" "j_id j \<in> ids" for j
    using weight_settled [of ?now j \<sigma>] mine that by simp
  have "backlog (w_db w') < backlog (w_db w)" if due: "list_ex (job_due ?now) ?jobs"
  proof -
    from some due obtain j where j: "j \<in> set ?jobs" "j_id j \<in> ids" by blast
    have le: "(weight \<circ> ?f) x \<le> weight x" if "x \<in> set ?jobs" for x using less [OF that] by (cases "j_id x \<in> ids") simp_all
    have "sum_list (map (weight \<circ> ?f) ?jobs) < sum_list (map weight ?jobs)"
      using sum_list_less [of ?jobs "weight \<circ> ?f" weight, OF le j(1)] less [OF j] by simp
    then show ?thesis by (simp add: backlog_def jobs)
  qed
  moreover have "?f j = j \<or> (job_due ?now j \<and> (j_status (?f j) = ''delivered'' \<or> (j_status (?f j) = ''failed'' \<and> 7 \<le> j_attempts j)
      \<or> (j_status (?f j) = ''pending'' \<and> j_attempts (?f j) = j_attempts j + 1 \<and> j_attempts (?f j) < 8)))" if "j \<in> set ?jobs" for j
    using mine that settled_claim [of \<sigma> ?now j] by (cases "j_id j \<in> ids") (auto simp: job_due_def)
  ultimately show ?thesis
    using run jobs idle settled_claim_same [where \<sigma> = \<sigma> and now = ?now] by (intro exI [of _ w'] exI [of _ ?f] conjI) auto
qed

definition demo_queue :: world where
  "demo_queue = demo_world\<lparr>w_db := snd (enqueue 0 ''assertion'' ''a.org'' ''j'' (replicate 12 CHR ''0'' @ ''#body'') ''s'' [] empty_database)\<rparr>"

lemma demo_queue_schema: "schema_ok (w_db demo_queue)"
  using enqueue_stmt.keeps [OF schema_ok_empty] by (simp add: demo_queue_def)

lemma demo_queue_jobs: "delivery_jobs (w_db demo_queue) = [\<lparr>j_id = 1, j_kind = ''assertion'', j_domain = ''a.org'', j_jti = ''j'',
    j_payload_ciphertext = replicate 12 CHR ''0'' @ ''#body'', j_idempotency_key = ''j'', j_session_id = ''s'', j_nonce_hash = [],
    j_attempts = 0, j_next_retry_at = Some 0, j_status = ''pending''\<rparr>]"
  by (simp add: demo_queue_def enqueue_def empty_database_def)

lemma demo_queue_posted:
  "map sp_body (w_posts (snd (tick demo_app (\<lambda>_. demo_oracles) demo_queue))) = [''body'']"
  by code_simp

theorem tick_posts_due_jobs_witness:
  "\<exists>p. w_posts (snd (tick demo_app (\<lambda>_. demo_oracles) demo_queue)) = [p] \<and> sp_body p = ''body''
     \<and> sp_domain p = ''a.org'' \<and> sp_path p = ''/pseud0/web-login/assertions'' \<and> sp_key p = Some ''j''"
proof -
  obtain p where p: "w_posts (snd (tick demo_app (\<lambda>_. demo_oracles) demo_queue)) = [p]" "sp_body p = ''body''"
    using demo_queue_posted by (auto simp: map_eq_Cons_conv)
  have "w_posts demo_queue = []" by (simp add: demo_queue_def demo_world_def)
  with p tick_posts_due_jobs [OF demo_queue_schema surjective_pairing, of demo_app "\<lambda>_. demo_oracles"]
  show ?thesis by (simp add: demo_queue_jobs)
qed

theorem delivery_queue_drains_witness:
  "\<exists>w'. tick demo_app (\<lambda>_. demo_oracles) demo_queue = (Inr (), w') \<and> backlog (w_db w') < backlog (w_db demo_queue)
     \<and> backlog (w_db demo_queue) = 9"
proof -
  have due: "list_ex (job_due (o_db_now demo_oracles)) (delivery_jobs (w_db demo_queue))"
    by (simp add: demo_queue_jobs job_due_def demo_oracles_def)
  have "backlog (w_db demo_queue) = 9" by (simp add: backlog_def weight_def demo_queue_jobs)
  moreover have "\<forall>k :: nat. calm demo_oracles" using demo_calm by simp
  moreover have "\<forall>j \<in> set (delivery_jobs (w_db demo_queue)). j_attempts j < i32_max" by (simp add: demo_queue_jobs)
  ultimately show ?thesis
    using delivery_queue_drains [OF demo_queue_schema, of "\<lambda>_. demo_oracles" demo_app] due by auto
qed

end
