(* ===== verification/Consent_Properties.thy ===== *)
theory Consent_Properties
  imports Login_Laws Relay_Demo
begin

text \<open>
  The properties of consents and revocations: who can move a session, what an approval or a refusal
  changes, and what a revocation touches.
\<close>

subsection \<open>An approval when nothing outside fails\<close>

definition assertion_job :: "oracles \<Rightarrow> database \<Rightarrow> string \<Rightarrow> string \<Rightarrow> bytes \<Rightarrow> string \<Rightarrow> bytes \<Rightarrow> DeliveryJob" where
  "assertion_job orc db d jti ct s nonce_hash =
     \<lparr>j_id = job_seq db, j_kind = ''assertion'', j_domain = d, j_jti = jti, j_payload_ciphertext = ct, j_idempotency_key = jti,
      j_session_id = s, j_nonce_hash = nonce_hash, j_attempts = 0, j_next_retry_at = Some (o_db_now orc), j_status = ''pending''\<rparr>"

lemma enqueue_new:
  "\<not> list_ex (\<lambda>j. j_jti j = jti) (delivery_jobs db) \<Longrightarrow> delivery_jobs (snd (enqueue (o_db_now orc) ''assertion'' d jti ct s nh db))
     = delivery_jobs db @ [assertion_job orc db d jti ct s nh]"
  by (simp add: enqueue_def assertion_job_def Let_def)

lemma job_seq_frames [frame]:
  "job_seq (snd (reserve_consent_event k t db)) = job_seq db" "job_seq (snd (reserve_assertion_jti k t db)) = job_seq db"
  "job_seq (snd (upsert_grant d h sc uc s n v db)) = job_seq db" "job_seq (snd (cas_update i v' st u db)) = job_seq db"
  by (simp_all add: reserve_defs insert_key_def upsert_grant_def cas_update_def Let_def split: option.splits)

lemma jti_frames [frame]:
  "replay_assertion_jtis (snd (reserve_consent_event k t db)) = replay_assertion_jtis db"
  "replay_assertion_jtis (snd (upsert_grant d h sc uc s n v db)) = replay_assertion_jtis db"
  by (simp_all add: reserve_defs insert_key_def upsert_grant_def Let_def split: option.splits)

lemma upsert_grant_Inr: "\<exists>g. fst (upsert_grant d h sc uc s n v db) = Inr g"
  by (simp add: upsert_grant_def Let_def split: option.splits)

lemma approve_tx_runs:
  assumes calm: "calm orc" and crypto: "hmac_ok (crates_of app)" "aead_ok (crates_of app) (at_rest app)"
    and ok: "schema_ok (tx_db st)" and row: "session \<in> set (sessions (tx_db st))" "s_version session \<noteq> i32_max"
    and sub: "derive_pairwise_sub (crates_of app) (subject_secret app) (s_domain session) (ev_sender event) = Inr sub"
    and sign: "assertion_sign (crates_of app) (signing_key app) (signing_kid app) (s_domain session) sub s n (fresh_jti app orc 2)
       now (min (s_exp session) (wrapping_add now MAX_TTL_MS)) display (subject_key_version app) = Inr a"
    and expiry: "until app (s_exp session) = Inr expiry"
    and jti_new: "fresh_jti app orc 2 \<notin> fst ` set (replay_assertion_jtis (tx_db st))"
    and bytes: "assertion_to_bytes (crates_of app) a = Inr bytes" "at_rest_encrypt app orc 3 bytes = Inr ct"
  obtains st' where "approve_tx app orc event s n (Some display) nonce_hash now session st = (Inr (Committed ConsentAccepted), st')"
    "tx_metrics st' = tx_metrics st"
proof -
  obtain subject_hash where h: "keyed_hash (crates_of app) (lookup_pepper app) sub = Inr subject_hash"
    by (rule keyed_hash_total [OF crypto(1)])
  obtain subject_ct where c0: "at_rest_encrypt app orc 0 sub = Inr subject_ct" by (rule at_rest_total [OF crypto(2) calm])
  obtain user_ct where c1: "at_rest_encrypt app orc 1 (ev_sender event) = Inr user_ct" by (rule at_rest_total [OF crypto(2) calm])
  obtain display_ct where c4: "at_rest_encrypt app orc 4 display = Inr display_ct" by (rule at_rest_total [OF crypto(2) calm])
  let ?jti = "fresh_jti app orc 2"
  define db1 where "db1 = snd (upsert_grant (s_domain session) subject_hash subject_ct user_ct s nonce_hash (subject_key_version app) (tx_db st))"
  define db2 where "db2 = snd (reserve_assertion_jti ?jti expiry db1)"
  have r0: "upsert_grant (s_domain session) subject_hash subject_ct user_ct s nonce_hash (subject_key_version app) (tx_db st)
      = (fst (upsert_grant (s_domain session) subject_hash subject_ct user_ct s nonce_hash (subject_key_version app) (tx_db st)), db1)"
    by (simp add: db1_def)
  obtain g where g: "fst (upsert_grant (s_domain session) subject_hash subject_ct user_ct s nonce_hash (subject_key_version app) (tx_db st)) = Inr g"
    using upsert_grant_Inr by blast
  have r1: "reserve_assertion_jti ?jti expiry db1 = (Inr (), db2)"
    using jti_new by (simp add: prod_eq_iff db2_def db1_def assertion_jtis.refused_unless_new frame)
  have ok2: "schema_ok db2" unfolding db2_def db1_def using ok by (intro assertion_jtis.keeps upsert_stmt.keeps)
  have mem2: "session \<in> set (sessions db2)" using row(1) by (simp add: db1_def db2_def frame)
  note cas = cas_update_once(1) [OF ok2 mem2 row(2), of "''CONSENT_RECEIVED''" "consent_update event display_ct ?jti ct"]
  have sql: "o_sql orc k" for k using calm by (simp add: calm_def)
  have enq: "fst (enqueue t kind d jti p s' nh db) = Inr ()" for t kind d jti p s' nh db by (simp add: enqueue_def Let_def)
  show thesis
    by (rule that, use r0 g r1 cas in \<open>simp add: approve_tx_def bnd_def lift_result_def sql_def sql sub h c0 c1 c4 bytes expiry sign
      case_prod_unfold enq ret_def Let_def consent_update_def ok_or_def del: One_nat_def\<close>) simp
qed

subsection \<open>What a committed consent did\<close>

lemma approve_tx_jobs:
  assumes "approve_tx app orc event s n name nonce_hash now session st = (Inr x, st')"
  obtains display sub a bytes ct where
    "name = Some display" "derive_pairwise_sub (crates_of app) (subject_secret app) (s_domain session) (ev_sender event) = Inr sub"
    "assertion_sign (crates_of app) (signing_key app) (signing_kid app) (s_domain session) sub s n (fresh_jti app orc 2)
       now (min (s_exp session) (wrapping_add now MAX_TTL_MS)) display (subject_key_version app) = Inr a"
    "assertion_to_bytes (crates_of app) a = Inr bytes" "at_rest_encrypt app orc 3 bytes = Inr ct"
    "fresh_jti app orc 2 \<notin> fst ` set (replay_assertion_jtis (tx_db st))"
    "delivery_jobs (tx_db st') = delivery_jobs (tx_db st) @ (if list_ex (\<lambda>j. j_jti j = fresh_jti app orc 2) (delivery_jobs (tx_db st))
       then [] else [assertion_job orc (tx_db st) (s_domain session) (fresh_jti app orc 2) ct s nonce_hash])"
  using assms
proof (rule approve_tx_committed)
  fix display sub subject_hash subject_ct user_ct a expiry bytes assertion_ct display_ct db1 db2 db3 updated
  let ?jti = "fresh_jti app orc 2"
  assume *: "name = Some display"
    "derive_pairwise_sub (crates_of app) (subject_secret app) (s_domain session) (ev_sender event) = Inr sub"
    "db1 = snd (upsert_grant (s_domain session) subject_hash subject_ct user_ct s nonce_hash (subject_key_version app) (tx_db st))"
    "assertion_sign (crates_of app) (signing_key app) (signing_kid app) (s_domain session) sub s n ?jti
       now (min (s_exp session) (wrapping_add now MAX_TTL_MS)) display (subject_key_version app) = Inr a"
    "reserve_assertion_jti ?jti expiry db1 = (Inr (), db2)" "assertion_to_bytes (crates_of app) a = Inr bytes"
    "at_rest_encrypt app orc 3 bytes = Inr assertion_ct"
    "cas_update (s_id session) (s_version session) ''CONSENT_RECEIVED'' (consent_update event display_ct ?jti assertion_ct) db2
      = (Inr updated, db3)"
    "tx_db st' = snd (enqueue (o_db_now orc) ''assertion'' (s_domain session) ?jti assertion_ct s nonce_hash db3)"
  have db2: "db2 = snd (reserve_assertion_jti ?jti expiry db1)" using *(5) by simp
  have db3: "db3 = snd (cas_update (s_id session) (s_version session) ''CONSENT_RECEIVED''
      (consent_update event display_ct ?jti assertion_ct) db2)" using *(8) by simp
  have same: "delivery_jobs db3 = delivery_jobs (tx_db st)" "job_seq db3 = job_seq (tx_db st)"
    unfolding db3 db2 *(3) by (simp_all add: frame)
  have "?jti \<notin> fst ` set (replay_assertion_jtis (tx_db st))"
    using assertion_jtis.refused_unless_new [of ?jti expiry db1] *(3,5) by (simp add: frame)
  then show thesis
    by (rule that [OF *(1,2,4,6,7)]) (use same *(9) in \<open>simp add: enqueue_def Let_def assertion_job_def\<close>)
qed

lemma consent_change:
  assumes run: "process_consent app orc event s n t approved name ch k sg w = (r, w')" and change: "w_db w' \<noteq> w_db w"
  obtains session challenge_hash signed expiry st1 x st where
    "session \<in> set (sessions (w_db w))" "s_session_id session = s"
    "keyed_hash (crates_of app) (lookup_pepper app) n = Inr (s_nonce_hash session)"
    "keyed_hash (crates_of app) (lookup_pepper app) ch = Inr challenge_hash" "s_challenge_hash session = Some challenge_hash"
    "consent_signed_bytes (crates_of app) approved ch name n s t = Inr signed"
    "verify_consent_signature (crates_of app) k signed sg = Inr ()"
    "o_now orc 0 \<le> s_exp session" "sent_at_in_qr_window t (s_iat session) (s_exp session)"
    "\<forall>e. s_challenge_expires_at session = Some e \<longrightarrow> t \<le> e \<and> o_now orc 0 \<le> e"
    "stored_text app (s_request_sender_ciphertext session) = Some (ev_sender event)"
    "stored_text app (s_request_room_ciphertext session) = Some (ev_room_id event)"
    "reserve_consent_event (ev_event_id event) expiry (w_db w) = (Inr (), tx_db st1)" "w_db w' = tx_db st"
    "approved \<longrightarrow> approve_tx app orc event s n name (s_nonce_hash session) (o_now orc 0) session st1 = (Inr (Committed x), st)"
    "\<not> approved \<longrightarrow> (\<exists>b. cas_update (s_id session) (s_version session) ''REFUSED''
        (no_update\<lparr>u_consent_event_id := Some (ev_event_id event)\<rparr>) (tx_db st1) = (Inr b, tx_db st))"
proof -
  from process_consent_db [OF run] change obtain nonce_hash challenge_hash signed x st where
    pre: "keyed_hash (crates_of app) (lookup_pepper app) n = Inr nonce_hash"
      "keyed_hash (crates_of app) (lookup_pepper app) ch = Inr challenge_hash"
      "consent_signed_bytes (crates_of app) approved ch name n s t = Inr signed"
      "verify_consent_signature (crates_of app) k signed sg = Inr ()"
    and tx: "consent_tx app orc event s n t approved name nonce_hash challenge_hash (o_now orc 0) (start_tx w) = (Inr (Committed x), st)"
    and db: "w_db w' = tx_db st" by blast
  from tx show thesis
  proof (rule consent_tx_committed)
    fix session expiry st1
    assume *: "fst (get_by_session_and_nonce s nonce_hash (tx_db (start_tx w))) = Inr (Some session)"
      "o_now orc 0 \<le> s_exp session" "sent_at_in_qr_window t (s_iat session) (s_exp session)"
      "\<forall>e. s_challenge_expires_at session = Some e \<longrightarrow> t \<le> e \<and> o_now orc 0 \<le> e"
      "s_challenge_hash session = Some challenge_hash"
      "stored_text app (s_request_sender_ciphertext session) = Some (ev_sender event)"
      "stored_text app (s_request_room_ciphertext session) = Some (ev_room_id event)"
      "reserve_consent_event (ev_event_id event) expiry (tx_db (start_tx w)) = (Inr (), tx_db st1)"
      "approved \<longrightarrow> approve_tx app orc event s n name nonce_hash (o_now orc 0) session st1 = (Inr (Committed x), st)"
      "\<not> approved \<longrightarrow> x = ConsentRefused \<and> (\<exists>b. cas_update (s_id session) (s_version session) ''REFUSED''
        (no_update\<lparr>u_consent_event_id := Some (ev_event_id event)\<rparr>) (tx_db st1) = (Inr b, tx_db st))"
    from get_by_session_and_nonce_memD [OF *(1)] have mem: "session \<in> set (sessions (w_db w))" "s_session_id session = s"
      "s_nonce_hash session = nonce_hash" by simp_all
    show thesis
      by (rule that [of session challenge_hash signed expiry st1 st x]) (use * mem pre db in simp_all)
  qed
qed

lemma consent_event_consumed:
  assumes "process_consent app orc event s n t approved name ch k sg w = (r, w')" "w_db w' \<noteq> w_db w"
  shows "ev_event_id event \<notin> fst ` set (replay_consent_event_ids (w_db w))"
  using assms
proof (rule consent_change)
  fix expiry st1
  assume "reserve_consent_event (ev_event_id event) expiry (w_db w) = (Inr (), tx_db st1)"
  then show ?thesis using consent_events.refused_unless_new [of "ev_event_id event" expiry "w_db w"] by simp
qed

text \<open>
  C6. Who can consent: a consent changes the database only when its P-256 signature verifies over the
  canonical bytes of exactly the fields it carries, it names a session registered under that session
  id and nonce, it quotes that session's own challenge, it is sent and received before the session and
  the challenge expire, it comes from the room and the sender that asked for the challenge, and its
  event was never used for a consent before.
\<close>

theorem consent_authenticated:
  assumes "process_consent app orc event s n t approved name ch k sg w = (r, w')" "w_db w' \<noteq> w_db w"
  shows "\<exists>session challenge_hash signed.
      session \<in> set (sessions (w_db w)) \<and> s_session_id session = s
    \<and> keyed_hash (crates_of app) (lookup_pepper app) n = Inr (s_nonce_hash session)
    \<and> keyed_hash (crates_of app) (lookup_pepper app) ch = Inr challenge_hash \<and> s_challenge_hash session = Some challenge_hash
    \<and> consent_signed_bytes (crates_of app) approved ch name n s t = Inr signed
    \<and> verify_consent_signature (crates_of app) k signed sg = Inr ()
    \<and> o_now orc 0 \<le> s_exp session \<and> sent_at_in_qr_window t (s_iat session) (s_exp session)
    \<and> (case s_challenge_expires_at session of None \<Rightarrow> True | Some e \<Rightarrow> t \<le> e \<and> o_now orc 0 \<le> e)
    \<and> stored_text app (s_request_sender_ciphertext session) = Some (ev_sender event)
    \<and> stored_text app (s_request_room_ciphertext session) = Some (ev_room_id event)
    \<and> ev_event_id event \<notin> fst ` set (replay_consent_event_ids (w_db w))"
proof -
  note new = consent_event_consumed [OF assms]
  from assms show ?thesis by (rule consent_change) (use new in \<open>auto split: option.splits\<close>)
qed

lemma signed_assertion_fields:
  assumes "assertion_sign c key kid aud sub s n jti iat exp name v = Inr a"
  shows "as_aud a = aud" "as_sub a = sub" "as_session_id a = s" "as_nonce a = n" "as_jti a = jti" "as_iat a = iat" "as_nbf a = iat"
    "as_exp a = exp" "as_display_name a = name" "\<exists>b. assertion_canonical c a = Inr b \<and> as_signature a = ed25519_sign c key b"
  using assms by (auto elim!: assertion_sign_InrE simp: unsigned_assertion_def)

definition assertion_queued :: "AppState \<Rightarrow> oracles \<Rightarrow> InboundEvent \<Rightarrow> string \<Rightarrow> string \<Rightarrow> string option \<Rightarrow> SessionRow \<Rightarrow> database \<Rightarrow> database \<Rightarrow> bool" where
  "assertion_queued app orc event s n name session db db' \<longleftrightarrow>
     (\<exists>sub a b bytes ct.
        derive_pairwise_sub (crates_of app) (subject_secret app) (s_domain session) (ev_sender event) = Inr sub
      \<and> as_aud a = s_domain session \<and> as_sub a = sub \<and> as_session_id a = s \<and> as_nonce a = n \<and> name = Some (as_display_name a)
      \<and> as_jti a = fresh_jti app orc 2 \<and> as_iat a = o_now orc 0 \<and> as_nbf a = o_now orc 0
      \<and> as_exp a = min (s_exp session) (wrapping_add (o_now orc 0) 300000)
      \<and> assertion_canonical (crates_of app) a = Inr b \<and> as_signature a = ed25519_sign (crates_of app) (signing_key app) b
      \<and> assertion_to_bytes (crates_of app) a = Inr bytes \<and> at_rest_encrypt app orc 3 bytes = Inr ct
      \<and> delivery_jobs db' = delivery_jobs db @ (if list_ex (\<lambda>j. j_jti j = as_jti a) (delivery_jobs db) then []
           else [assertion_job orc db (s_domain session) (as_jti a) ct s (s_nonce_hash session)]))"

lemma approved_queues:
  assumes tx: "approve_tx app orc event s n name (s_nonce_hash session) (o_now orc 0) session st1 = (Inr x, st)"
    and st1: "tx_db st1 = snd (reserve_consent_event e expiry db)"
  shows "assertion_queued app orc event s n name session db (tx_db st)"
  using tx
proof (rule approve_tx_jobs)
  fix display sub a bytes ct
  assume *: "name = Some display" "derive_pairwise_sub (crates_of app) (subject_secret app) (s_domain session) (ev_sender event) = Inr sub"
    and sign: "assertion_sign (crates_of app) (signing_key app) (signing_kid app) (s_domain session) sub s n (fresh_jti app orc 2)
       (o_now orc 0) (min (s_exp session) (wrapping_add (o_now orc 0) MAX_TTL_MS)) display (subject_key_version app) = Inr a"
    and rest: "assertion_to_bytes (crates_of app) a = Inr bytes" "at_rest_encrypt app orc 3 bytes = Inr ct"
      "delivery_jobs (tx_db st) = delivery_jobs (tx_db st1) @ (if list_ex (\<lambda>j. j_jti j = fresh_jti app orc 2) (delivery_jobs (tx_db st1))
       then [] else [assertion_job orc (tx_db st1) (s_domain session) (fresh_jti app orc 2) ct s (s_nonce_hash session)])"
  have jobs: "delivery_jobs (tx_db st1) = delivery_jobs db" "assertion_job orc (tx_db st1) = assertion_job orc db"
    by (simp_all add: st1 frame assertion_job_def fun_eq_iff)
  note fields = signed_assertion_fields [OF sign]
  from fields(10) obtain b where b: "assertion_canonical (crates_of app) a = Inr b"
    "as_signature a = ed25519_sign (crates_of app) (signing_key app) b" by blast
  show ?thesis
    unfolding assertion_queued_def
    by (intro exI [of _ sub] exI [of _ a] exI [of _ b] exI [of _ bytes] exI [of _ ct])
      (simp add: * b fields(1-9) rest(1,2) rest(3) [unfolded jobs] MAX_TTL_MS_def)
qed

lemma approve_tx_row:
  assumes tx: "approve_tx app orc event s n name nonce_hash now session st = (Inr x, st')"
    and ok: "schema_ok (tx_db st)" and row: "session \<in> set (sessions (tx_db st))"
  obtains display_ct ct where "schema_ok (tx_db st')"
    "sessions (tx_db st') = map (\<lambda>x. if x = session then apply_update ''CONSENT_RECEIVED''
       (consent_update event display_ct (fresh_jti app orc 2) ct) session else x) (sessions (tx_db st))"
  using tx
proof (rule approve_tx_committed)
  fix subject_hash subject_ct user_ct expiry ct display_ct db1 db2 db3 updated
  let ?u = "consent_update event display_ct (fresh_jti app orc 2) ct"
  assume db1: "db1 = snd (upsert_grant (s_domain session) subject_hash subject_ct user_ct s nonce_hash (subject_key_version app) (tx_db st))"
    and db2: "reserve_assertion_jti (fresh_jti app orc 2) expiry db1 = (Inr (), db2)"
    and cas: "cas_update (s_id session) (s_version session) ''CONSENT_RECEIVED'' ?u db2 = (Inr updated, db3)"
    and enq: "tx_db st' = snd (enqueue (o_db_now orc) ''assertion'' (s_domain session) (fresh_jti app orc 2) ct s nonce_hash db3)"
  have db2': "db2 = snd (reserve_assertion_jti (fresh_jti app orc 2) expiry db1)" using db2 by simp
  have db3': "db3 = snd (cas_update (s_id session) (s_version session) ''CONSENT_RECEIVED'' ?u db2)" using cas by simp
  have ok2: "schema_ok db2" unfolding db2' db1 using ok by (intro assertion_jtis.keeps upsert_stmt.keeps)
  have upd: "fst (cas_update (s_id session) (s_version session) ''CONSENT_RECEIVED'' ?u db2) = Inr updated" using cas by simp
  have same: "sessions db2 = sessions (tx_db st)" by (simp add: db2' db1 frame)
  have "schema_ok (tx_db st')" unfolding enq db3' by (intro enqueue_stmt.keeps cas_stmt.keeps ok2)
  moreover have "sessions (tx_db st') = map (\<lambda>x. if x = session then apply_update ''CONSENT_RECEIVED'' ?u session else x) (sessions (tx_db st))"
    using cas_update_InrD(2) [OF ok2 _ upd] row by (simp add: enq db3' same frame)
  ultimately show thesis by (rule that)
qed

text \<open>
  C7. What a consent changes. An approval queues one assertion for the session's own domain, signed by
  the relay, about the pairwise subject of the event's sender, for that session, nonce and display
  name, valid from now and at most five minutes and never beyond the session; a clash of the freshly
  drawn identifier with a queued job queues nothing. A refusal queues nothing and grants nothing: it
  only marks the session refused by that event.
\<close>

theorem consent_effect:
  assumes "schema_ok (w_db w)" "process_consent app orc event s n t approved name ch k sg w = (r, w')" "w_db w' \<noteq> w_db w"
  shows "\<exists>session \<in> set (sessions (w_db w)). s_session_id session = s
    \<and> (if approved then assertion_queued app orc event s n name session (w_db w) (w_db w')
       else delivery_jobs (w_db w') = delivery_jobs (w_db w) \<and> grants (w_db w') = grants (w_db w)
         \<and> sessions (w_db w') = map (\<lambda>x. if x = session then session\<lparr>s_state := ''REFUSED'', s_version := s_version session + 1,
             s_consent_event_id := Some (ev_event_id event)\<rparr> else x) (sessions (w_db w)))"
  using assms(2,3)
proof (rule consent_change)
  fix session expiry st1 x st
  let ?u = "no_update\<lparr>u_consent_event_id := Some (ev_event_id event)\<rparr>"
  assume mem: "session \<in> set (sessions (w_db w))" "s_session_id session = s"
    and res: "reserve_consent_event (ev_event_id event) expiry (w_db w) = (Inr (), tx_db st1)" and db: "w_db w' = tx_db st"
    and yes: "approved \<longrightarrow> approve_tx app orc event s n name (s_nonce_hash session) (o_now orc 0) session st1 = (Inr (Committed x), st)"
    and no: "\<not> approved \<longrightarrow> (\<exists>b. cas_update (s_id session) (s_version session) ''REFUSED'' ?u (tx_db st1) = (Inr b, tx_db st))"
  have st1: "tx_db st1 = snd (reserve_consent_event (ev_event_id event) expiry (w_db w))" using res by simp
  show ?thesis
  proof (cases approved)
    case True
    with yes approved_queues [OF _ st1] mem db show ?thesis by auto
  next
    case False
    have ok1: "schema_ok (tx_db st1)" unfolding st1 by (rule consent_events.keeps [OF assms(1)])
    have mem1: "session \<in> set (sessions (tx_db st1))" using mem by (simp add: st1 frame)
    from False no obtain b where upd: "fst (cas_update (s_id session) (s_version session) ''REFUSED'' ?u (tx_db st1)) = Inr b"
      and st: "tx_db st = snd (cas_update (s_id session) (s_version session) ''REFUSED'' ?u (tx_db st1))" by (metis fst_conv snd_conv)
    have row: "apply_update ''REFUSED'' ?u session = session\<lparr>s_state := ''REFUSED'', s_version := s_version session + 1,
             s_consent_event_id := Some (ev_event_id event)\<rparr>"
      by (simp add: apply_update_def no_update_def coalesce_def)
    have "sessions (tx_db st) = map (\<lambda>x. if x = session then apply_update ''REFUSED'' ?u session else x) (sessions (w_db w))"
      unfolding st cas_update_InrD(2) [OF ok1 mem1 upd] by (simp add: st1 frame)
    moreover have "delivery_jobs (tx_db st) = delivery_jobs (w_db w)" "grants (tx_db st) = grants (w_db w)"
      unfolding st by (simp_all add: st1 frame)
    ultimately show ?thesis
      by (intro bexI [OF _ mem(1)]) (simp only: False mem(2) db row if_False simp_thms)
  qed
qed

lemma consent_commits:
  assumes ok: "schema_ok (w_db w)" and calm: "calm orc"
    and crypto: "hmac_ok (crates_of app)" "aead_ok (crates_of app) (at_rest app)"
    and row: "session \<in> set (sessions (w_db w))" "s_version session \<noteq> i32_max"
    and only: "fst (get_by_session_and_nonce (s_session_id session) (s_nonce_hash session) (w_db w)) = Inr (Some session)"
    and hashes: "keyed_hash (crates_of app) (lookup_pepper app) n = Inr (s_nonce_hash session)"
      "keyed_hash (crates_of app) (lookup_pepper app) ch = Inr h" "s_challenge_hash session = Some h"
    and sig: "consent_signed_bytes (crates_of app) True ch (Some display) n (s_session_id session) t = Inr msg"
      "verify_consent_signature (crates_of app) k msg sg = Inr ()"
    and live: "o_now orc 0 \<le> s_exp session" "sent_at_in_qr_window t (s_iat session) (s_exp session)"
      "case s_challenge_expires_at session of None \<Rightarrow> True | Some e \<Rightarrow> t \<le> e \<and> o_now orc 0 \<le> e"
    and same: "stored_text app (s_request_sender_ciphertext session) = Some (ev_sender event)"
      "stored_text app (s_request_room_ciphertext session) = Some (ev_room_id event)"
    and expiry: "until app (s_exp session) = Inr expiry"
    and event_new: "ev_event_id event \<notin> fst ` set (replay_consent_event_ids (w_db w))"
    and jti_new: "fresh_jti app orc 2 \<notin> fst ` set (replay_assertion_jtis (w_db w))"
    and sub: "derive_pairwise_sub (crates_of app) (subject_secret app) (s_domain session) (ev_sender event) = Inr sub"
    and sign: "assertion_sign (crates_of app) (signing_key app) (signing_kid app) (s_domain session) sub (s_session_id session) n
       (fresh_jti app orc 2) (o_now orc 0) (min (s_exp session) (wrapping_add (o_now orc 0) MAX_TTL_MS)) display
       (subject_key_version app) = Inr a"
    and bytes: "assertion_to_bytes (crates_of app) a = Inr payload"
  obtains st1 st where "process_consent app orc event (s_session_id session) n t True (Some display) ch k sg w
      = (Inr Sent, w\<lparr>w_db := tx_db st, w_metrics := (w_metrics w)\<lparr>consents := consents (w_metrics w) + 1\<rparr>\<rparr>)"
    "approve_tx app orc event (s_session_id session) n (Some display) (s_nonce_hash session) (o_now orc 0) session st1
      = (Inr (Committed ConsentAccepted), st)" "tx_db st1 = snd (reserve_consent_event (ev_event_id event) expiry (w_db w))"
proof -
  obtain ct where ct: "at_rest_encrypt app orc 3 payload = Inr ct" by (rule at_rest_total [OF crypto(2) calm])
  define db1 where "db1 = snd (reserve_consent_event (ev_event_id event) expiry (w_db w))"
  have res: "reserve_consent_event (ev_event_id event) expiry (w_db w) = (Inr (), db1)"
    using event_new by (simp add: prod_eq_iff db1_def consent_events.refused_unless_new)
  let ?st1 = "(start_tx w)\<lparr>tx_db := db1\<rparr>"
  obtain st where approve: "approve_tx app orc event (s_session_id session) n (Some display) (s_nonce_hash session) (o_now orc 0) session ?st1
      = (Inr (Committed ConsentAccepted), st)" and metrics: "tx_metrics st = w_metrics w"
  proof (rule approve_tx_runs [OF calm crypto _ _ row(2) sub sign expiry _ bytes ct, of ?st1])
    show "schema_ok (tx_db ?st1)" using consent_events.keeps [OF ok] by (simp add: db1_def)
    show "session \<in> set (sessions (tx_db ?st1))" using row(1) by (simp add: db1_def frame)
    show "fresh_jti app orc 2 \<notin> fst ` set (replay_assertion_jtis (tx_db ?st1))" using jti_new by (simp add: db1_def frame)
  qed auto
  have look: "get_by_session_and_nonce (s_session_id session) (s_nonce_hash session) (w_db w) = (Inr (Some session), w_db w)"
    using only by (simp add: prod_eq_iff)
  have sql: "o_sql orc k" for k using calm by (simp add: calm_def)
  have "consent_tx app orc event (s_session_id session) n t True (Some display) (s_nonce_hash session) h (o_now orc 0) (start_tx w)
      = (Inr (Committed ConsentAccepted), st)"
    using live same expiry hashes(3) res approve
    by (cases "s_challenge_expires_at session") (simp_all add: consent_tx_def bnd_def sql_def sql look lift_result_def
        counting_conflicts_def ok_or_def)
  then have "run_tx orc (consent_tx app orc event (s_session_id session) n t True (Some display) (s_nonce_hash session) h (o_now orc 0)) w
      = (Inr ConsentAccepted, w\<lparr>w_db := tx_db st\<rparr>)"
    using calm metrics by (simp add: run_tx_def calm_def)
  then have "process_consent app orc event (s_session_id session) n t True (Some display) ch k sg w
      = (Inr Sent, w\<lparr>w_db := tx_db st, w_metrics := (w_metrics w)\<lparr>consents := consents (w_metrics w) + 1\<rparr>\<rparr>)"
    using hashes sig by (simp add: process_consent_def Let_def bnd_def lift_result_def inc_def ret_def)
  from that [OF this approve] show thesis by (simp add: db1_def)
qed

text \<open>
  C21. A consent is accepted: when the signature verifies, the challenge, room and sender are the stored
  ones, nothing has expired, the event and the drawn identifier are new and neither the database nor
  the primitives fail, the approval is accepted and its assertion queued. Nothing is asked of the
  state of the session: a session that was refused, revoked or already approved is approved (again)
  by a consent with a new event id.
\<close>

theorem consent_accepted:
  assumes ok: "schema_ok (w_db w)" and calm: "calm orc"
    and crypto: "hmac_ok (crates_of app)" "aead_ok (crates_of app) (at_rest app)"
    and row: "session \<in> set (sessions (w_db w))" "s_version session \<noteq> i32_max"
    and only: "fst (get_by_session_and_nonce (s_session_id session) (s_nonce_hash session) (w_db w)) = Inr (Some session)"
    and hashes: "keyed_hash (crates_of app) (lookup_pepper app) n = Inr (s_nonce_hash session)"
      "keyed_hash (crates_of app) (lookup_pepper app) ch = Inr h" "s_challenge_hash session = Some h"
    and sig: "consent_signed_bytes (crates_of app) True ch (Some display) n (s_session_id session) t = Inr msg"
      "verify_consent_signature (crates_of app) k msg sg = Inr ()"
    and live: "o_now orc 0 \<le> s_exp session" "sent_at_in_qr_window t (s_iat session) (s_exp session)"
      "case s_challenge_expires_at session of None \<Rightarrow> True | Some e \<Rightarrow> t \<le> e \<and> o_now orc 0 \<le> e"
    and same: "stored_text app (s_request_sender_ciphertext session) = Some (ev_sender event)"
      "stored_text app (s_request_room_ciphertext session) = Some (ev_room_id event)"
    and expiry: "until app (s_exp session) = Inr expiry"
    and event_new: "ev_event_id event \<notin> fst ` set (replay_consent_event_ids (w_db w))"
    and jti_new: "fresh_jti app orc 2 \<notin> fst ` set (replay_assertion_jtis (w_db w))"
    and sub: "derive_pairwise_sub (crates_of app) (subject_secret app) (s_domain session) (ev_sender event) = Inr sub"
    and sign: "assertion_sign (crates_of app) (signing_key app) (signing_kid app) (s_domain session) sub (s_session_id session) n
       (fresh_jti app orc 2) (o_now orc 0) (min (s_exp session) (wrapping_add (o_now orc 0) MAX_TTL_MS)) display
       (subject_key_version app) = Inr a"
    and bytes: "assertion_to_bytes (crates_of app) a = Inr payload"
  shows "\<exists>w'. process_consent app orc event (s_session_id session) n t True (Some display) ch k sg w = (Inr Sent, w')
    \<and> assertion_queued app orc event (s_session_id session) n (Some display) session (w_db w) (w_db w')
    \<and> consents (w_metrics w') = consents (w_metrics w) + 1"
proof (rule consent_commits [OF assms])
  fix st1 st
  assume run: "process_consent app orc event (s_session_id session) n t True (Some display) ch k sg w
      = (Inr Sent, w\<lparr>w_db := tx_db st, w_metrics := (w_metrics w)\<lparr>consents := consents (w_metrics w) + 1\<rparr>\<rparr>)"
    and tx: "approve_tx app orc event (s_session_id session) n (Some display) (s_nonce_hash session) (o_now orc 0) session st1
      = (Inr (Committed ConsentAccepted), st)" "tx_db st1 = snd (reserve_consent_event (ev_event_id event) expiry (w_db w))"
  from run approved_queues [OF tx] show ?thesis by simp
qed

subsection \<open>The concrete session\<close>

definition demo_challenge :: string where "demo_challenge = replicate 22 CHR ''c''"

text \<open>The session of the demo after its challenge was issued and, in the end, refused.\<close>

definition demo_refused_row :: SessionRow where
  "demo_refused_row = demo_row\<lparr>s_state := ''REFUSED'', s_version := 2, s_request_event_id := Some ''$1'',
     s_request_room_ciphertext := Some (replicate 12 CHR ''0'' @ ''#!r''), s_request_sender_ciphertext := Some (replicate 12 CHR ''0'' @ ''#@a''),
     s_challenge_hash := Some (pad32 demo_challenge), s_challenge_expires_at := Some 200, s_consent_event_id := Some ''$2''\<rparr>"

definition demo_refused :: world where
  "demo_refused = demo_world\<lparr>w_db := empty_database\<lparr>session_seq := 2, sessions := [demo_refused_row],
     replay_consent_event_ids := [(''$2'', 30200)]\<rparr>\<rparr>"

definition demo_key :: string where "demo_key = encode_p256_did_key demo_crates (CHR 0x02 # replicate 32 CHR 0x07)"

definition demo_signature :: "bool \<Rightarrow> string option \<Rightarrow> string" where
  "demo_signature approved name = base64url_encode demo_crates (pad64 (pad32
     (projr (consent_signed_bytes demo_crates approved demo_challenge name demo_nonce demo_sid 100))))"

lemma demo_refused_simps [simp]:
  "s_session_id demo_refused_row = demo_sid" "s_nonce_hash demo_refused_row = pad32 demo_nonce" "s_version demo_refused_row = 2"
  "s_challenge_hash demo_refused_row = Some (pad32 demo_challenge)" "s_exp demo_refused_row = 200" "s_iat demo_refused_row = 50"
  "s_domain demo_refused_row = ''a.org''" "s_challenge_expires_at demo_refused_row = Some 200"
  by (simp_all add: demo_refused_row_def)

lemma demo_refused_schema: "schema_ok (w_db demo_refused)"
  by (simp add: demo_refused_def schema_ok_def empty_database_def unique_ids_def demo_refused_row_def)

lemma demo_refused_stored:
  "stored_text demo_app (s_request_sender_ciphertext demo_refused_row) = Some ''@a''"
  "stored_text demo_app (s_request_room_ciphertext demo_refused_row) = Some ''!r''"
  by code_simp+

lemma demo_signed: "\<exists>b. consent_signed_bytes demo_crates approved ch name demo_nonce demo_sid t = Inr b"
  using consent_doc.canonical_exists [of quoted "(approved, ch, name, demo_nonce, demo_sid, t)"]
  by (auto simp: consent_signed_bytes_doc literal_total_def demo_crates_def quoted_def)

lemma demo_key_signs: "verify_consent_signature demo_crates demo_key b (base64url_encode demo_crates (pad64 (pad32 b))) = Inr ()"
proof -
  have "decode_p256_did_key demo_crates demo_key = Inr (CHR 0x02 # replicate 32 CHR 0x07)"
    by (simp add: demo_key_def demo_crates_def encode_p256_did_key_def decode_p256_did_key_def MULTICODEC_P256_def starts_with_def)
  moreover have "\<not> looks_like_der (pad64 m)" for m by (simp add: pad64_def looks_like_der_def)
  ultimately show ?thesis
    by (simp add: verify_consent_signature_def base64url_roundtrip [OF demo_base64]) (simp add: demo_crates_def)
qed

lemma demo_signature_ok:
  assumes "consent_signed_bytes demo_crates approved demo_challenge name demo_nonce demo_sid 100 = Inr b"
  shows "verify_consent_signature demo_crates demo_key b (demo_signature approved name) = Inr ()"
  by (simp add: demo_signature_def assms demo_key_signs)

lemma demo_lookup: "get_by_session_and_nonce demo_sid (pad32 demo_nonce) (w_db demo_refused) = (Inr (Some demo_refused_row), w_db demo_refused)"
  by (simp add: get_by_session_and_nonce_def demo_refused_def query_opt_def)

lemma demo_refusal_change:
  "w_db (snd (process_consent demo_app demo_oracles (demo_event ''$3'') demo_sid demo_nonce 100 False None demo_challenge demo_key
     (demo_signature False None) demo_refused)) \<noteq> w_db demo_refused"
proof -
  obtain b where b: "consent_signed_bytes demo_crates False demo_challenge None demo_nonce demo_sid 100 = Inr b"
    using demo_signed by blast
  define db1 where "db1 = snd (reserve_consent_event ''$3'' 30200 (w_db demo_refused))"
  let ?u = "no_update\<lparr>u_consent_event_id := Some ''$3''\<rparr>"
  define db2 where "db2 = snd (cas_update (s_id demo_refused_row) 2 ''REFUSED'' ?u db1)"
  have res: "reserve_consent_event ''$3'' 30200 (w_db demo_refused) = (Inr (), db1)"
    by (simp add: prod_eq_iff consent_events.refused_unless_new demo_refused_def db1_def)
  have "schema_ok db1" "demo_refused_row \<in> set (sessions db1)"
    using consent_events.keeps [OF demo_refused_schema] by (simp_all add: db1_def frame) (simp add: demo_refused_def)
  from cas_update_once(1) [OF this]
  have cas: "cas_update (s_id demo_refused_row) 2 ''REFUSED'' ?u db1 = (Inr True, db2)"
    by (simp add: prod_eq_iff db2_def)
  have "consent_tx demo_app demo_oracles (demo_event ''$3'') demo_sid demo_nonce 100 False None (pad32 demo_nonce) (pad32 demo_challenge) 100
      (start_tx demo_refused) = (Inr (Committed ConsentRefused), (start_tx demo_refused)\<lparr>tx_db := db2\<rparr>)"
    by (simp add: consent_tx_def bnd_def sql_def demo_lookup lift_result_def ok_or_def demo_refused_stored res cas counting_conflicts_def ret_def)
  then have "run_tx demo_oracles (consent_tx demo_app demo_oracles (demo_event ''$3'') demo_sid demo_nonce 100 False None (pad32 demo_nonce)
      (pad32 demo_challenge) 100) demo_refused = (Inr ConsentRefused, demo_refused\<lparr>w_db := db2\<rparr>)"
    by (simp add: run_tx_def)
  then have "w_db (snd (process_consent demo_app demo_oracles (demo_event ''$3'') demo_sid demo_nonce 100 False None demo_challenge demo_key
     (demo_signature False None) demo_refused)) = db2"
    using send_failure_quiet [of demo_app demo_oracles 1 "''!r''" demo_sid demo_nonce "''request_cancelled''"]
    by (simp add: process_consent_def Let_def bnd_def lift_result_def b demo_signature_ok [OF b] quiet_def)
  moreover have "keys_le db1 db2" unfolding db2_def by (rule keys_grow)
  then have "''$3'' \<in> fst ` set (replay_consent_event_ids db2)"
    using consent_events.reserve_keys [of "''$3''" 30200 "w_db demo_refused"] by (auto simp: keys_le_def replay_keys_def db1_def)
  ultimately show ?thesis by (auto simp: demo_refused_def)
qed

theorem consent_authenticated_witness:
  "\<exists>msg. consent_signed_bytes demo_crates False demo_challenge None demo_nonce demo_sid 100 = Inr msg
     \<and> verify_consent_signature demo_crates demo_key msg (demo_signature False None) = Inr ()
     \<and> ''$3'' \<notin> fst ` set (replay_consent_event_ids (w_db demo_refused))"
  using consent_authenticated [OF surjective_pairing demo_refusal_change] by auto

theorem consent_effect_witness:
  "delivery_jobs (w_db (snd (process_consent demo_app demo_oracles (demo_event ''$3'') demo_sid demo_nonce 100 False None
     demo_challenge demo_key (demo_signature False None) demo_refused))) = delivery_jobs (w_db demo_refused)"
  using consent_effect [OF demo_refused_schema surjective_pairing demo_refusal_change] by auto

lemma demo_consent_facts:
  obtains b mac a p where "consent_signed_bytes demo_crates True demo_challenge (Some ''Al'') demo_nonce demo_sid 100 = Inr b"
    "verify_consent_signature demo_crates demo_key b (demo_signature True (Some ''Al'')) = Inr ()"
    "derive_pairwise_sub demo_crates (subject_secret demo_app) ''a.org'' ''@a'' = Inr (base64url_encode demo_crates mac)" "length mac = 32"
    "assertion_sign demo_crates (signing_key demo_app) (signing_kid demo_app) ''a.org'' (base64url_encode demo_crates mac) demo_sid demo_nonce
      (fresh_jti demo_app demo_oracles 2) 100 (min 200 (wrapping_add 100 MAX_TTL_MS)) ''Al'' (subject_key_version demo_app) = Inr a"
    "assertion_to_bytes demo_crates a = Inr p"
proof -
  obtain b where b: "consent_signed_bytes demo_crates True demo_challenge (Some ''Al'') demo_nonce demo_sid 100 = Inr b"
    using demo_signed by blast
  obtain mac where sub: "derive_pairwise_sub demo_crates (subject_secret demo_app) ''a.org'' ''@a'' = Inr (base64url_encode demo_crates mac)"
    and mac: "length mac = 32"
    by (rule derive_sub_total [OF demo_base64 demo_hmac, of "subject_secret demo_app" "''a.org''" "''@a''"]) (simp_all add: demo_app_def)
  let ?sub = "base64url_encode demo_crates mac" and ?jti = "fresh_jti demo_app demo_oracles 2"
  let ?u = "unsigned_assertion (signing_kid demo_app) ''a.org'' ?sub demo_sid demo_nonce ?jti 100 200 ''Al'' (subject_key_version demo_app)"
  obtain c where c: "assertion_canonical demo_crates ?u = Inr c"
    using assertion_doc.canonical_exists [of quoted ?u] by (auto simp: assertion_canonical_def literal_total_def demo_crates_def quoted_def)
  have "validate_signature_b64 (ed25519_sign demo_crates (signing_key demo_app) c) = Inr ()"
    using base64_engine.enc_signature [OF demo_base64] demo_ed25519 [of "signing_key demo_app"]
    by (simp add: ed25519_sign_def base64url_encode_def ed25519_ok_def)
  moreover have "validate_site_account_id ?sub = Inr ()"
    using base64_engine.enc_account [OF demo_base64 mac] by (simp add: base64url_encode_def)
  moreover have "validate_kid (signing_kid demo_app) = Inr ()" "validate_id demo_sid = Inr ()" "validate_id demo_nonce = Inr ()"
    "validate_display_name ''Al'' True = Inr ()" by code_simp+
  moreover have ttl: "min 200 (wrapping_add 100 MAX_TTL_MS) = 200" by (simp add: wrapping_add_def MAX_TTL_MS_def)
  ultimately obtain a where a: "assertion_sign demo_crates (signing_key demo_app) (signing_kid demo_app) ''a.org'' ?sub demo_sid demo_nonce
      ?jti 100 (min 200 (wrapping_add 100 MAX_TTL_MS)) ''Al'' (subject_key_version demo_app) = Inr a" using c by (simp add: assertion_sign_eq)
  obtain p where "assertion_to_bytes demo_crates a = Inr p"
    using demo_json by (force simp: assertion_to_bytes_def ok_or_def split: option.splits)
  from that [OF b demo_signature_ok [OF b] sub mac a this] show thesis .
qed

lemma demo_refused_tables: "w_db demo_refused = empty_database\<lparr>session_seq := 2, sessions := [demo_refused_row],
     replay_consent_event_ids := [(''$2'', 30200)]\<rparr>" "consents (w_metrics demo_refused) = 0" "replay_assertion_jtis empty_database = []"
  by (simp_all add: demo_refused_def demo_world_def demo_metrics_def empty_database_def)

theorem consent_accepted_witness:
  "s_state demo_refused_row = ''REFUSED'' \<and> (\<exists>w'. process_consent demo_app demo_oracles (demo_event ''$3'') demo_sid demo_nonce 100 True
     (Some ''Al'') demo_challenge demo_key (demo_signature True (Some ''Al'')) demo_refused = (Inr Sent, w')
     \<and> consents (w_metrics w') = 1)"
proof (rule demo_consent_facts)
  fix b mac a p
  assume facts: "consent_signed_bytes demo_crates True demo_challenge (Some ''Al'') demo_nonce demo_sid 100 = Inr b"
    "verify_consent_signature demo_crates demo_key b (demo_signature True (Some ''Al'')) = Inr ()"
    "derive_pairwise_sub demo_crates (subject_secret demo_app) ''a.org'' ''@a'' = Inr (base64url_encode demo_crates mac)" "length mac = 32"
    "assertion_sign demo_crates (signing_key demo_app) (signing_kid demo_app) ''a.org'' (base64url_encode demo_crates mac) demo_sid demo_nonce
      (fresh_jti demo_app demo_oracles 2) 100 (min 200 (wrapping_add 100 MAX_TTL_MS)) ''Al'' (subject_key_version demo_app) = Inr a"
    "assertion_to_bytes demo_crates a = Inr p"
  have "\<exists>w'. process_consent demo_app demo_oracles (demo_event ''$3'') (s_session_id demo_refused_row) demo_nonce 100 True
     (Some ''Al'') demo_challenge demo_key (demo_signature True (Some ''Al'')) demo_refused = (Inr Sent, w')
     \<and> assertion_queued demo_app demo_oracles (demo_event ''$3'') (s_session_id demo_refused_row) demo_nonce (Some ''Al'')
         demo_refused_row (w_db demo_refused) (w_db w')
     \<and> consents (w_metrics w') = consents (w_metrics demo_refused) + 1"
    by (rule consent_accepted [OF demo_refused_schema demo_calm, where expiry = 30200 and h = "pad32 demo_challenge"])
      (use facts in \<open>simp_all add: demo_hmac demo_aead demo_refused_stored demo_lookup [unfolded demo_refused_tables] demo_refused_tables\<close>)
  then show ?thesis by (auto simp: demo_refused_tables demo_refused_row_def)
qed

end
