(* ===== verification/Revocation_Properties.thy ===== *)
theory Revocation_Properties
  imports Login_Laws Relay_Demo
begin

text \<open>
  The properties of revocations in \<^verbatim>\<open>src/services/login.rs\<close>: who can revoke a grant and what a
  revocation changes.
\<close>

lemma mark_revoked_one:
  assumes "schema_ok db" "grant \<in> set (grants db)" "g_revoked_at grant = None"
  shows "grants (snd (mark_revoked now (g_id grant) db)) = map (\<lambda>g. if g = grant then grant\<lparr>g_revoked_at := Some now\<rparr> else g) (grants db)"
proof -
  have "g = grant" if "g \<in> set (grants db)" "g_id g = g_id grant" for g
    using that assms(1,2) by (auto simp: schema_ok_def unique_ids_def distinct_map inj_on_def)
  with assms(3) show ?thesis by (auto simp: mark_revoked_def)
qed

lemma signed_revocation_fields:
  assumes "revocation_sign c key kid aud sub jti iat why = Inr rv"
  shows "rv_aud rv = aud" "rv_sub rv = sub" "rv_jti rv = jti" "rv_reason rv = why"
    "\<exists>b. revocation_canonical c rv = Inr b \<and> rv_signature rv = ed25519_sign c key b"
  using assms by (auto simp: revocation_sign_def Let_def result_simps revocation_canonical_def revocation_fields_def)

lemma revocation_job_frames [frame]:
  "job_seq (snd (mark_revoked now i db)) = job_seq db" "job_seq (snd (reserve_revocation_jti k t db)) = job_seq db"
  by (simp_all add: mark_revoked_def reserve_defs insert_key_def)

text \<open>
  C13. Only its owner revokes a grant: a revocation changes the database only when it names a session
  registered under that session id and nonce, and the grant of that session's domain for the named
  account exists, was given by the very sender of the event and is not revoked. It then marks exactly
  that grant revoked and queues one revocation for that domain about that account, signed by the
  relay (none when the drawn identifier is already queued); every other grant stays.
\<close>

theorem revocation_by_owner_only:
  assumes ok: "schema_ok (w_db w)" and run: "process_revocation app orc event s n account why w = (r, w')"
    and change: "w_db w' \<noteq> w_db w"
  shows "\<exists>session grant rv b bytes ct.
      session \<in> set (sessions (w_db w)) \<and> s_session_id session = s
    \<and> keyed_hash (crates_of app) (lookup_pepper app) n = Inr (s_nonce_hash session)
    \<and> grant \<in> set (grants (w_db w)) \<and> g_domain grant = s_domain session
    \<and> keyed_hash (crates_of app) (lookup_pepper app) account = Inr (g_subject_hash grant)
    \<and> decrypt (crates_of app) (at_rest app) (g_matrix_user_ciphertext grant) = Inr (ev_sender event)
    \<and> g_revoked_at grant = None
    \<and> grants (w_db w') = map (\<lambda>g. if g = grant then grant\<lparr>g_revoked_at := Some (o_db_now orc)\<rparr> else g) (grants (w_db w))
    \<and> rv_aud rv = s_domain session \<and> rv_sub rv = account \<and> rv_jti rv = fresh_jti app orc 0
    \<and> revocation_canonical (crates_of app) rv = Inr b \<and> rv_signature rv = ed25519_sign (crates_of app) (signing_key app) b
    \<and> revocation_to_bytes (crates_of app) rv = Inr bytes \<and> at_rest_encrypt app orc 1 bytes = Inr ct
    \<and> delivery_jobs (w_db w') = delivery_jobs (w_db w) @ (if list_ex (\<lambda>j. j_jti j = rv_jti rv) (delivery_jobs (w_db w)) then []
        else [\<lparr>j_id = job_seq (w_db w), j_kind = ''revocation'', j_domain = s_domain session, j_jti = rv_jti rv,
          j_payload_ciphertext = ct, j_idempotency_key = rv_jti rv, j_session_id = s, j_nonce_hash = s_nonce_hash session,
          j_attempts = 0, j_next_retry_at = Some (o_db_now orc), j_status = ''pending''\<rparr>])"
proof -
  from process_revocation_db [OF run] change obtain nonce_hash subject_hash x st where
    h: "keyed_hash (crates_of app) (lookup_pepper app) n = Inr nonce_hash"
      "keyed_hash (crates_of app) (lookup_pepper app) account = Inr subject_hash"
    and tx: "revocation_tx app orc event s account (unwrap_or ''user_requested'' why) nonce_hash subject_hash (start_tx w)
      = (Inr (Committed x), st)" and db: "w_db w' = tx_db st" by blast
  from tx show ?thesis
  proof (cases rule: revocation_tx_committed)
    case again
    with db change show ?thesis by simp
  next
    case (revoked session grant expiry rv bytes ct db1 db2 db3)
    have s: "session \<in> set (sessions (w_db w))" "s_session_id session = s" "s_nonce_hash session = nonce_hash"
      using get_by_session_and_nonce_memD [OF revoked(1)] by simp_all
    have g: "grant \<in> set (grants (w_db w))" "g_domain grant = s_domain session" "g_subject_hash grant = subject_hash"
      using find_active_grant_memD [OF revoked(2)] by simp_all
    have db2: "db2 = snd (reserve_revocation_jti (fresh_jti app orc 0) expiry db1)" using revoked(7) by simp
    have gr: "grants (w_db w') = map (\<lambda>g. if g = grant then grant\<lparr>g_revoked_at := Some (o_db_now orc)\<rparr> else g) (grants (w_db w))"
      using mark_revoked_one [OF ok g(1) revoked(4), of "o_db_now orc"] by (simp add: db revoked(12,11,5) db2 frame)
    have same: "delivery_jobs db2 = delivery_jobs (w_db w)" "job_seq db2 = job_seq (w_db w)"
      by (simp_all add: db2 revoked(5) frame)
    note fields = signed_revocation_fields [OF revoked(8)]
    from fields(5) obtain b where b: "revocation_canonical (crates_of app) rv = Inr b"
      "rv_signature rv = ed25519_sign (crates_of app) (signing_key app) b" by blast
    have jobs: "delivery_jobs (w_db w') = delivery_jobs (w_db w) @ (if list_ex (\<lambda>j. j_jti j = rv_jti rv) (delivery_jobs (w_db w)) then []
        else [\<lparr>j_id = job_seq (w_db w), j_kind = ''revocation'', j_domain = s_domain session, j_jti = rv_jti rv,
          j_payload_ciphertext = ct, j_idempotency_key = rv_jti rv, j_session_id = s, j_nonce_hash = s_nonce_hash session,
          j_attempts = 0, j_next_retry_at = Some (o_db_now orc), j_status = ''pending''\<rparr>])"
      by (simp add: db revoked(12,11) frame enqueue_def Let_def same fields(3) s(3))
    show ?thesis
      by (intro exI [of _ session] exI [of _ grant] exI [of _ rv] exI [of _ b] exI [of _ bytes] exI [of _ ct])
        (simp only: s g h gr jobs b fields revoked simp_thms)
  qed
qed

subsection \<open>A concrete revocation\<close>

definition demo_grant :: GrantRow where
  "demo_grant = \<lparr>g_id = 1, g_domain = ''a.org'', g_subject_hash = pad32 ''acc'', g_subject_ciphertext = [],
     g_matrix_user_ciphertext = replicate 12 CHR ''0'' @ ''#@a'', g_session_id = demo_sid, g_nonce_hash = pad32 demo_nonce,
     g_subject_key_version = 1, g_revoked_at = None\<rparr>"

definition demo_granted :: world where
  "demo_granted = demo_world\<lparr>w_db := empty_database\<lparr>session_seq := 2, sessions := [demo_row], grant_seq := 2, grants := [demo_grant]\<rparr>\<rparr>"

lemma demo_revocation_change:
  "w_db (snd (process_revocation demo_app demo_oracles (demo_event ''$4'') demo_sid demo_nonce ''acc'' None demo_granted)) \<noteq> w_db demo_granted"
proof -
  have look: "get_by_session_and_nonce demo_sid (pad32 demo_nonce) (w_db demo_granted) = (Inr (Some demo_row), w_db demo_granted)"
    "find_active_grant ''a.org'' (pad32 ''acc'') (w_db demo_granted) = (Inr (Some demo_grant), w_db demo_granted)"
    by (simp_all add: get_by_session_and_nonce_def find_active_grant_def demo_granted_def query_opt_def demo_grant_def)
  have owner: "decrypt demo_crates (at_rest demo_app) (g_matrix_user_ciphertext demo_grant) = Inr ''@a''"
    "require (utf8_valid ''@a'') (Problem InternalError) = Inr ()" by code_simp+
  define jti where "jti = fresh_jti demo_app demo_oracles 0"
  define db1 where "db1 = snd (mark_revoked 100 1 (w_db demo_granted))"
  have r1: "mark_revoked 100 1 (w_db demo_granted) = (Inr (), db1)" by (simp add: db1_def mark_revoked_def)
  have "replay_revocation_jtis db1 = []" by (simp add: db1_def mark_revoked_def demo_granted_def empty_database_def)
  then obtain db2 where r2: "reserve_revocation_jti jti 30100 db1 = (Inr (), db2)" and "db2 = snd (reserve_revocation_jti jti 30100 db1)"
    using revocation_jtis.refused_unless_new [of jti 30100 db1] by (metis empty_iff image_empty list.set(1) prod.collapse)
  have u: "until demo_app 100 = Inr 30100"
    by (simp add: until_def millis_to_utc_def wrapping_add_def REPLAY_GRACE_MS_def demo_crates_def in_i64_def)
  have key: "jti \<in> fst ` set (replay_revocation_jtis db2)" and mem: "demo_row \<in> set (sessions db2)" and ok2: "schema_ok db2"
    using revocation_jtis.reserve_keys [of jti 30100 db1] \<open>db2 = _\<close>
    by (auto simp: db1_def frame demo_granted_def intro!: revocation_jtis.keeps revoke_stmt.keeps)
      (simp add: schema_ok_def empty_database_def unique_ids_def demo_grant_def)
  obtain rv where rv: "revocation_sign demo_crates (signing_key demo_app) (signing_kid demo_app) ''a.org'' ''acc'' jti 100 ''user_requested'' = Inr rv"
  proof -
    let ?u = "\<lparr>rv_version = PROTOCOL_VERSION, rv_iss = RELAY_ORIGIN, rv_aud = ''a.org'', rv_sub = ''acc'', rv_jti = jti, rv_iat = 100,
      rv_reason = ''user_requested'', rv_kid = signing_kid demo_app, rv_signature = []\<rparr>"
    obtain b where "revocation_canonical demo_crates ?u = Inr b"
      using revocation_doc.canonical_exists [of quoted ?u] by (auto simp: revocation_canonical_def literal_total_def demo_crates_def quoted_def)
    then show thesis by (intro that) (simp add: revocation_sign_def)
  qed
  obtain p where p: "revocation_to_bytes demo_crates rv = Inr p"
    using demo_json by (force simp: revocation_to_bytes_def ok_or_def split: option.splits)
  obtain ct where ct: "at_rest_encrypt demo_app demo_oracles 1 p = Inr ct"
    using at_rest_total [OF _ demo_calm, of demo_app 1 p] demo_aead by auto
  define db3 where "db3 = snd (enqueue 100 ''revocation'' ''a.org'' jti ct demo_sid (pad32 demo_nonce) db2)"
  have r3: "enqueue 100 ''revocation'' ''a.org'' jti ct demo_sid (pad32 demo_nonce) db2 = (Inr (), db3)"
    by (simp add: db3_def enqueue_def Let_def)
  define db4 where "db4 = snd (cas_update 1 0 ''REVOKED'' no_update db3)"
  have "schema_ok db3" "demo_row \<in> set (sessions db3)"
    using ok2 mem by (auto simp: db3_def frame intro: enqueue_stmt.keeps)
  from cas_update_once(1) [OF this] have r4: "cas_update 1 0 ''REVOKED'' no_update db3 = (Inr True, db4)"
    by (simp add: db4_def prod_eq_iff)
  have "o_db_now demo_oracles = 100" "g_revoked_at demo_grant = None" "g_id demo_grant = 1"
    by (simp_all add: demo_oracles_def demo_grant_def)
  then have "revocation_tx demo_app demo_oracles (demo_event ''$4'') demo_sid ''acc'' ''user_requested'' (pad32 demo_nonce) (pad32 ''acc'')
      (start_tx demo_granted) = (Inr (Committed Sent), (start_tx demo_granted)\<lparr>tx_db := db4\<rparr>)"
    using r1 r2 r3 r4 rv p ct owner u jti_def
    by (simp add: revocation_tx_def bnd_def sql_def lift_result_def look ret_def Let_def del: One_nat_def demo_app_simps(2) utf8_valid.simps)
  then have "w_db (snd (process_revocation demo_app demo_oracles (demo_event ''$4'') demo_sid demo_nonce ''acc'' None demo_granted)) = db4"
    by (simp add: process_revocation_def Let_def bnd_def lift_result_def run_tx_def unwrap_or_def)
  moreover have "keys_le db2 db4" unfolding db3_def db4_def by (intro keys_le_trans [OF keys_grow(9) keys_grow(6)])
  with key have "jti \<in> fst ` set (replay_revocation_jtis db4)" by (auto simp: keys_le_def replay_keys_def)
  ultimately show ?thesis by (auto simp: demo_granted_def empty_database_def)
qed

lemma demo_granted_schema: "schema_ok (w_db demo_granted)"
  by (simp add: demo_granted_def schema_ok_def empty_database_def unique_ids_def demo_grant_def)

theorem revocation_by_owner_only_witness:
  "map g_revoked_at (grants (w_db (snd (process_revocation demo_app demo_oracles (demo_event ''$4'') demo_sid demo_nonce ''acc'' None
     demo_granted)))) = [Some 100]"
  using revocation_by_owner_only [OF demo_granted_schema surjective_pairing demo_revocation_change]
  by (auto simp: demo_granted_def demo_oracles_def)

end
