(* ===== verification/Relay_Invariant.thy ===== *)
theory Relay_Invariant
  imports Relay_System Registration_Properties Delivery_Properties Consent_Properties Revocation_Properties
begin

text \<open>
  The invariant of the running relay. Every stored session is well-formed and everything it refers to
  is recorded in the replay tables; every queued job carries a document the relay signed for that job's
  domain; everything posted to a site is such a document. Each kind of step is shown to keep it.
\<close>

subsection \<open>Well-formed sessions\<close>

definition session_states :: "string set" where
  "session_states = {''SITE_REGISTERED'', ''CHALLENGE_SENT'', ''CONSENT_RECEIVED'', ''REFUSED'', ''ASSERTION_DELIVERED'', ''REVOKED''}"

definition row_ok :: "SessionRow \<Rightarrow> bool" where
  "row_ok r \<longleftrightarrow> validate_domain_field (s_domain r) = Inr () \<and> validate_id (s_session_id r) = Inr ()
     \<and> s_iat r < s_exp r \<and> s_exp r - s_iat r \<le> 300000
     \<and> s_state r \<in> session_states \<and> 0 \<le> s_version r \<and> s_version r \<le> i32_max
     \<and> (s_request_event_id r = None \<longleftrightarrow> s_challenge_hash r = None)
     \<and> (s_request_room_ciphertext r = None \<longleftrightarrow> s_challenge_hash r = None)
     \<and> (s_request_sender_ciphertext r = None \<longleftrightarrow> s_challenge_hash r = None)
     \<and> (s_challenge_expires_at r = None \<longleftrightarrow> s_challenge_hash r = None)
     \<and> (\<forall>e. s_challenge_expires_at r = Some e \<longrightarrow> e \<le> s_exp r)
     \<and> (s_challenge_hash r = None \<longrightarrow> s_consent_event_id r = None)
     \<and> (s_assertion_jti r = None \<longleftrightarrow> s_assertion_ciphertext r = None)
     \<and> (s_assertion_jti r \<noteq> None \<longrightarrow> s_consent_event_id r \<noteq> None)"

definition opt_in :: "'a option \<Rightarrow> 'a set \<Rightarrow> bool" where
  "opt_in x S \<longleftrightarrow> (\<forall>v. x = Some v \<longrightarrow> v \<in> S)"

definition refs_ok :: "database \<Rightarrow> SessionRow \<Rightarrow> bool" where
  "refs_ok db r \<longleftrightarrow> opt_in (s_request_event_id r) (fst ` set (replay_request_event_ids db))
     \<and> opt_in (s_challenge_hash r) (fst ` set (replay_challenge_hashes db))
     \<and> opt_in (s_consent_event_id r) (fst ` set (replay_consent_event_ids db))
     \<and> opt_in (s_assertion_jti r) (fst ` set (replay_assertion_jtis db))"

definition row_inv :: "database \<Rightarrow> SessionRow \<Rightarrow> bool" where
  "row_inv db r \<longleftrightarrow> row_ok r \<and> refs_ok db r"

lemma row_inv_mono: "row_inv db r \<Longrightarrow> keys_le db db' \<Longrightarrow> row_inv db' r"
  by (auto simp: row_inv_def refs_ok_def opt_in_def keys_le_def replay_keys_def)

subsection \<open>Signed payloads\<close>

definition signed_assertion :: "AppState \<Rightarrow> string \<Rightarrow> string \<Rightarrow> bytes \<Rightarrow> bool" where
  "signed_assertion app domain jti body \<longleftrightarrow> (\<exists>a b. assertion_to_bytes (crates_of app) a = Inr body \<and> as_aud a = domain \<and> as_jti a = jti
     \<and> assertion_canonical (crates_of app) a = Inr b \<and> as_signature a = ed25519_sign (crates_of app) (signing_key app) b)"

definition signed_revocation :: "AppState \<Rightarrow> string \<Rightarrow> bytes \<Rightarrow> bool" where
  "signed_revocation app domain body \<longleftrightarrow> (\<exists>rv b. revocation_to_bytes (crates_of app) rv = Inr body \<and> rv_aud rv = domain
     \<and> revocation_canonical (crates_of app) rv = Inr b \<and> rv_signature rv = ed25519_sign (crates_of app) (signing_key app) b)"

definition payload_ok :: "AppState \<Rightarrow> DeliveryJob \<Rightarrow> bool" where
  "payload_ok app j \<longleftrightarrow> (\<exists>body. decrypt (crates_of app) (at_rest app) (j_payload_ciphertext j) = Inr body
     \<and> ((j_kind j = ''assertion'' \<and> signed_assertion app (j_domain j) (j_jti j) body)
        \<or> (j_kind j = ''revocation'' \<and> signed_revocation app (j_domain j) body)))"

definition post_ok :: "AppState \<Rightarrow> site_post \<Rightarrow> bool" where
  "post_ok app p \<longleftrightarrow>
     (sp_path p = ASSERTION_PATH \<and> (\<exists>jti. sp_key p = Some jti \<and> signed_assertion app (sp_domain p) jti (sp_body p)))
     \<or> (sp_path p = REVOCATION_PATH \<and> sp_key p = None \<and> signed_revocation app (sp_domain p) (sp_body p))"

lemma posted_payload: "payload_ok app j \<Longrightarrow> post_of app j p \<Longrightarrow> post_ok app p"
  by (auto simp: payload_ok_def post_of_def post_ok_def job_path_def split: if_splits)

definition job_inv :: "AppState \<Rightarrow> database \<Rightarrow> DeliveryJob \<Rightarrow> bool" where
  "job_inv app db j \<longleftrightarrow> payload_ok app j \<and> j_status j \<in> {''pending'', ''delivered'', ''failed''} \<and> j_idempotency_key j = j_jti j
     \<and> 0 \<le> j_attempts j
     \<and> j_jti j \<in> (if j_kind j = ''assertion'' then fst ` set (replay_assertion_jtis db) else fst ` set (replay_revocation_jtis db))"

lemma job_inv_mono: "job_inv app db j \<Longrightarrow> keys_le db db' \<Longrightarrow> job_inv app db' j"
  by (auto simp: job_inv_def keys_le_def replay_keys_def)

definition db_inv :: "AppState \<Rightarrow> database \<Rightarrow> bool" where
  "db_inv app db \<longleftrightarrow> schema_ok db \<and> (\<forall>r \<in> set (sessions db). row_inv db r) \<and> (\<forall>j \<in> set (delivery_jobs db). job_inv app db j)"

lemma db_inv_step:
  assumes "db_inv app db" "schema_ok db'" "keys_le db db'"
    and "\<And>r. r \<in> set (sessions db') \<Longrightarrow> r \<in> set (sessions db) \<or> row_inv db' r"
    and "\<And>j. j \<in> set (delivery_jobs db') \<Longrightarrow> j \<in> set (delivery_jobs db) \<or> job_inv app db' j"
  shows "db_inv app db'"
  using assms row_inv_mono [OF _ assms(3)] job_inv_mono [OF _ assms(3)] unfolding db_inv_def by blast

lemma cas_rows:
  assumes "schema_ok db" "session \<in> set (sessions db)" "x \<in> set (sessions (snd (cas_update (s_id session) (s_version session) st u db)))"
  shows "x \<in> set (sessions db) \<or> (x = apply_update st u session \<and> s_version session \<noteq> i32_max)"
proof -
  have "y = session" if "y \<in> set (sessions db)" "s_id y = s_id session" for y
    using that assms(1,2) by (auto simp: schema_ok_def unique_ids_def distinct_map inj_on_def)
  with assms(2,3) show ?thesis
    by (auto simp: cas_update_def Let_def list_ex_iff split: if_splits)
qed

lemma state_only_row:
  assumes "row_inv db r" "st \<in> session_states" "s_version r \<noteq> i32_max"
  shows "row_inv db (apply_update st no_update r)"
  using assms by (auto simp: row_inv_def row_ok_def refs_ok_def apply_update_def no_update_def coalesce_def)

subsection \<open>Requests\<close>

lemma challenged_row:
  assumes "row_inv db session" "s_challenge_hash session = None" "s_version session \<noteq> i32_max" "keys_le db db'"
    and "ev_event_id event \<in> fst ` set (replay_request_event_ids db')" "h \<in> fst ` set (replay_challenge_hashes db')"
  shows "row_inv db' (apply_update ''CHALLENGE_SENT'' (request_update app orc event session now h room_ct sender_ct) session)"
proof -
  have "row_inv db' session" using assms(1,4) by (rule row_inv_mono)
  with assms(2,3,5,6) challenge_expires_le [of now "s_exp session"] show ?thesis
    by (auto simp: row_inv_def row_ok_def refs_ok_def opt_in_def apply_update_def request_update_def no_update_def coalesce_def
        session_states_def)
qed

lemma request_keeps:
  assumes inv: "db_inv app (w_db w)" and run: "process_request app orc event s n t d w = (r, w')"
  shows "db_inv app (w_db w')"
proof (cases "w_db w' = w_db w")
  case True
  with inv show ?thesis by simp
next
  case False
  with process_request_db [OF run] obtain nonce_hash x st where
    tx: "request_tx app orc event s n t d nonce_hash (o_now orc 0) (start_tx w) = (Inr (Committed x), st)"
    and db: "w_db w' = tx_db st" by blast
  from tx show ?thesis
  proof (cases rule: request_tx_committed)
    case again
    with db False show ?thesis by simp
  next
    case (fresh session expiry challenge h room_ct sender_ct)
    let ?e = "ev_event_id event"
    define db1 where "db1 = snd (reserve_request_event ?e expiry (w_db w))"
    define db2 where "db2 = snd (reserve_challenge_hash h expiry db1)"
    let ?u = "request_update app orc event session (o_now orc 0) h room_ct sender_ct"
    have db3: "w_db w' = snd (cas_update (s_id session) (s_version session) ''CHALLENGE_SENT'' ?u db2)"
      using fresh(12) db by (simp add: db1_def db2_def)
    have le: "keys_le (w_db w) db1" "keys_le db1 db2" "keys_le db2 (w_db w')"
      unfolding db1_def db2_def db3 by (rule keys_grow)+
    have mem: "session \<in> set (sessions (w_db w))" using get_matching_memD [OF fresh(1)] by simp
    have ok: "schema_ok (w_db w)" "row_inv (w_db w) session" using inv mem by (simp_all add: db_inv_def)
    have ok2: "schema_ok db2" unfolding db2_def db1_def using ok(1) by (intro challenge_hashes.keeps request_events.keeps)
    have mem2: "session \<in> set (sessions db2)" using mem by (simp add: db1_def db2_def frame)
    have used: "?e \<in> fst ` set (replay_request_event_ids (w_db w'))" "h \<in> fst ` set (replay_challenge_hashes (w_db w'))"
      using request_events.reserve_keys [of ?e expiry "w_db w"] challenge_hashes.reserve_keys [of h expiry db1] le
      by (auto simp: db1_def [symmetric] db2_def [symmetric] keys_le_def replay_keys_def)
    show ?thesis
    proof (rule db_inv_step [OF inv])
      show "schema_ok (w_db w')" unfolding db3 by (rule cas_stmt.keeps [OF ok2])
      show le': "keys_le (w_db w) (w_db w')" using le keys_le_trans by blast
      fix x assume "x \<in> set (sessions (w_db w'))"
      with cas_rows [OF ok2 mem2] challenged_row [OF ok(2) fresh(4) _ le' used]
      show "x \<in> set (sessions (w_db w)) \<or> row_inv (w_db w') x" unfolding db3 by (fastforce simp: db1_def db2_def frame)
    qed (simp add: db3 frame db1_def db2_def)
  qed
qed

subsection \<open>Consents\<close>

lemma at_rest_decrypts:
  assumes "aead_ok (crates_of app) (at_rest app)" "rng_ok orc" "at_rest_encrypt app orc k p = Inr ct"
  shows "decrypt (crates_of app) (at_rest app) ct = Inr p"
  using decrypt_encrypt [OF assms(1), of "o_rng orc k NONCE_LEN" p ct] assms(2,3)
  by (simp add: at_rest_encrypt_def rng_ok_def NONCE_LEN_def)

lemma consented_row:
  assumes "row_inv db session" "s_challenge_hash session \<noteq> None" "s_version session \<noteq> i32_max" "keys_le db db'"
    and "ev_event_id event \<in> fst ` set (replay_consent_event_ids db')"
  shows "row_inv db' (apply_update ''REFUSED'' (no_update\<lparr>u_consent_event_id := Some (ev_event_id event)\<rparr>) session)"
    and "jti \<in> fst ` set (replay_assertion_jtis db') \<Longrightarrow>
      row_inv db' (apply_update ''CONSENT_RECEIVED'' (consent_update event display_ct jti ct) session)"
proof -
  have "row_inv db' session" using assms(1,4) by (rule row_inv_mono)
  with assms(2,3,5) show "row_inv db' (apply_update ''REFUSED'' (no_update\<lparr>u_consent_event_id := Some (ev_event_id event)\<rparr>) session)"
    and "jti \<in> fst ` set (replay_assertion_jtis db') \<Longrightarrow>
      row_inv db' (apply_update ''CONSENT_RECEIVED'' (consent_update event display_ct jti ct) session)"
    by (auto simp: row_inv_def row_ok_def refs_ok_def opt_in_def apply_update_def no_update_def coalesce_def consent_update_def
        session_states_def)
qed

lemma enqueue_jobs:
  assumes "j \<in> set (delivery_jobs (snd (enqueue now kind d jti p s n db)))"
  shows "j \<in> set (delivery_jobs db) \<or> (j_kind j = kind \<and> j_domain j = d \<and> j_jti j = jti \<and> j_payload_ciphertext j = p
    \<and> j_status j = ''pending'' \<and> j_idempotency_key j = jti \<and> j_attempts j = 0)"
  using assms by (auto simp: enqueue_def Let_def split: if_splits)

lemma approve_keeps:
  assumes inv: "db_inv app (tx_db st)" and aead: "aead_ok (crates_of app) (at_rest app)" and rng: "rng_ok orc"
    and mem: "session \<in> set (sessions (tx_db st))" and ch: "s_challenge_hash session \<noteq> None"
    and used: "ev_event_id event \<in> fst ` set (replay_consent_event_ids (tx_db st))"
    and run: "approve_tx app orc event s n name nonce_hash now session st = (Inr x, st')"
  shows "db_inv app (tx_db st')"
  using run
proof (rule approve_tx_committed)
  fix display sub subject_hash subject_ct user_ct a expiry bytes ct display_ct db1 db2 db3 updated
  let ?jti = "fresh_jti app orc 2" and ?db' = "tx_db st'"
  assume db1: "db1 = snd (upsert_grant (s_domain session) subject_hash subject_ct user_ct s nonce_hash (subject_key_version app) (tx_db st))"
    and sign: "assertion_sign (crates_of app) (signing_key app) (signing_kid app) (s_domain session) sub s n ?jti
       now (min (s_exp session) (wrapping_add now MAX_TTL_MS)) display (subject_key_version app) = Inr a"
    and res: "reserve_assertion_jti ?jti expiry db1 = (Inr (), db2)"
    and bytes: "assertion_to_bytes (crates_of app) a = Inr bytes" "at_rest_encrypt app orc 3 bytes = Inr ct"
    and cas: "cas_update (s_id session) (s_version session) ''CONSENT_RECEIVED'' (consent_update event display_ct ?jti ct) db2 = (Inr updated, db3)"
    and enq: "?db' = snd (enqueue (o_db_now orc) ''assertion'' (s_domain session) ?jti ct s nonce_hash db3)"
  have db2: "db2 = snd (reserve_assertion_jti ?jti expiry db1)" using res by simp
  have db3: "db3 = snd (cas_update (s_id session) (s_version session) ''CONSENT_RECEIVED'' (consent_update event display_ct ?jti ct) db2)"
    using cas by simp
  have le: "keys_le (tx_db st) db1" "keys_le db1 db2" "keys_le db2 db3" "keys_le db3 ?db'"
    unfolding db1 db2 db3 enq by (rule keys_grow)+
  then have le': "keys_le (tx_db st) ?db'" "keys_le db2 ?db'" using keys_le_trans by blast+
  have ok: "schema_ok (tx_db st)" "row_inv (tx_db st) session" using inv mem by (simp_all add: db_inv_def)
  have ok2: "schema_ok db2" unfolding db2 db1 using ok(1) by (intro assertion_jtis.keeps upsert_stmt.keeps)
  have mem2: "session \<in> set (sessions db2)" using mem by (simp add: db1 db2 frame)
  have keys: "ev_event_id event \<in> fst ` set (replay_consent_event_ids ?db')" "?jti \<in> fst ` set (replay_assertion_jtis ?db')"
    using used le' assertion_jtis.reserve_keys [of ?jti expiry db1] by (auto simp: db2 [symmetric] keys_le_def replay_keys_def)
  have "signed_assertion app (s_domain session) ?jti bytes"
    using signed_assertion_fields [OF sign] bytes(1) by (auto simp: signed_assertion_def)
  then have new: "job_inv app ?db' j" if "j_kind j = ''assertion''" "j_domain j = s_domain session" "j_jti j = ?jti"
    "j_payload_ciphertext j = ct" "j_status j = ''pending''" "j_idempotency_key j = ?jti" "j_attempts j = 0" for j
    using that keys(2) at_rest_decrypts [OF aead rng bytes(2)] by (auto simp: job_inv_def payload_ok_def)
  show "db_inv app ?db'"
  proof (rule db_inv_step [OF inv _ le'(1)])
    show "schema_ok ?db'" unfolding enq db3 by (intro enqueue_stmt.keeps cas_stmt.keeps ok2)
    fix x assume "x \<in> set (sessions ?db')"
    then have "x \<in> set (sessions db3)" by (simp add: enq frame)
    with cas_rows [OF ok2 mem2] consented_row(2) [OF ok(2) ch _ le'(1) keys]
    show "x \<in> set (sessions (tx_db st)) \<or> row_inv ?db' x" unfolding db3 by (fastforce simp: db1 db2 frame)
  next
    fix j assume "j \<in> set (delivery_jobs ?db')"
    from enqueue_jobs [OF this [unfolded enq]] new show "j \<in> set (delivery_jobs (tx_db st)) \<or> job_inv app ?db' j"
      by (auto simp: db3 db2 db1 frame)
  qed
qed

lemma reserve_consent_keeps:
  assumes "db_inv app db" "reserve_consent_event e t db = (r, db')"
  shows "db_inv app db'"
proof -
  have db': "db' = snd (reserve_consent_event e t db)" using assms(2) by simp
  show ?thesis
    unfolding db' by (rule db_inv_step [OF assms(1)])
      (use assms(1) in \<open>auto simp: frame keys_grow db_inv_def intro: consent_events.keeps\<close>)
qed

lemma consent_keeps:
  assumes inv: "db_inv app (w_db w)" and aead: "aead_ok (crates_of app) (at_rest app)" and rng: "rng_ok orc"
    and run: "process_consent app orc event s n t approved name ch k sg w = (r, w')"
  shows "db_inv app (w_db w')"
proof (cases "w_db w' = w_db w")
  case True
  with inv show ?thesis by simp
next
  case False
  with run show ?thesis
  proof (rule consent_change)
    fix session h expiry st1 x st
    let ?u = "no_update\<lparr>u_consent_event_id := Some (ev_event_id event)\<rparr>"
    assume mem: "session \<in> set (sessions (w_db w))" and h: "s_challenge_hash session = Some h"
      and res: "reserve_consent_event (ev_event_id event) expiry (w_db w) = (Inr (), tx_db st1)" and db: "w_db w' = tx_db st"
      and yes: "approved \<longrightarrow> approve_tx app orc event s n name (s_nonce_hash session) (o_now orc 0) session st1 = (Inr (Committed x), st)"
      and no: "\<not> approved \<longrightarrow> (\<exists>b. cas_update (s_id session) (s_version session) ''REFUSED'' ?u (tx_db st1) = (Inr b, tx_db st))"
    have st1: "tx_db st1 = snd (reserve_consent_event (ev_event_id event) expiry (w_db w))" using res by simp
    have inv1: "db_inv app (tx_db st1)" using inv res by (rule reserve_consent_keeps)
    have mem1: "session \<in> set (sessions (tx_db st1))" using mem by (simp add: st1 frame)
    have used: "ev_event_id event \<in> fst ` set (replay_consent_event_ids (tx_db st1))"
      using consent_events.reserve_keys [of "ev_event_id event" expiry "w_db w"] by (simp add: st1)
    show ?thesis
    proof (cases approved)
      case True
      with yes have "approve_tx app orc event s n name (s_nonce_hash session) (o_now orc 0) session st1 = (Inr (Committed x), st)" by simp
      with approve_keeps [OF inv1 aead rng mem1 _ used this] h db show ?thesis by simp
    next
      case False
      with no have st: "tx_db st = snd (cas_update (s_id session) (s_version session) ''REFUSED'' ?u (tx_db st1))" by (metis snd_conv)
      have ok1: "schema_ok (tx_db st1)" "row_inv (tx_db st1) session" using inv1 mem1 by (simp_all add: db_inv_def)
      have le: "keys_le (tx_db st1) (tx_db st)" unfolding st by (rule keys_grow)
      with used have used': "ev_event_id event \<in> fst ` set (replay_consent_event_ids (tx_db st))"
        by (auto simp: keys_le_def replay_keys_def)
      show ?thesis unfolding db
      proof (rule db_inv_step [OF inv1 _ le])
        show "schema_ok (tx_db st)" unfolding st by (rule cas_stmt.keeps [OF ok1(1)])
        fix y assume "y \<in> set (sessions (tx_db st))"
        with cas_rows [OF ok1(1) mem1] consented_row(1) [OF ok1(2) _ _ le used'] h
        show "y \<in> set (sessions (tx_db st1)) \<or> row_inv (tx_db st) y" unfolding st by fastforce
      qed (simp add: st frame)
    qed
  qed
qed

subsection \<open>Revocations\<close>

lemma revocation_keeps:
  assumes inv: "db_inv app (w_db w)" and aead: "aead_ok (crates_of app) (at_rest app)" and rng: "rng_ok orc"
    and run: "process_revocation app orc event s n account why w = (r, w')"
  shows "db_inv app (w_db w')"
proof (cases "w_db w' = w_db w")
  case True
  with inv show ?thesis by simp
next
  case False
  with process_revocation_db [OF run] obtain nonce_hash subject_hash x st where
    tx: "revocation_tx app orc event s account (unwrap_or ''user_requested'' why) nonce_hash subject_hash (start_tx w) = (Inr (Committed x), st)"
    and db: "w_db w' = tx_db st" by blast
  from tx show ?thesis
  proof (cases rule: revocation_tx_committed)
    case again
    with db False show ?thesis by simp
  next
    case (revoked session grant expiry rv bytes ct db1 db2 db3)
    let ?jti = "fresh_jti app orc 0"
    have db2: "db2 = snd (reserve_revocation_jti ?jti expiry db1)" using revoked(7) by simp
    have db4: "w_db w' = snd (cas_update (s_id session) (s_version session) ''REVOKED'' no_update db3)" using revoked(12) db by simp
    have le: "keys_le (w_db w) db1" "keys_le db1 db2" "keys_le db2 db3" "keys_le db3 (w_db w')"
      using revoked(5,11) unfolding db2 db4 by (simp_all add: keys_grow)
    then have le': "keys_le (w_db w) (w_db w')" "keys_le db2 (w_db w')" using keys_le_trans by blast+
    have mem: "session \<in> set (sessions (w_db w))" using get_by_session_and_nonce_memD [OF revoked(1)] by simp
    have ok: "schema_ok (w_db w)" "row_inv (w_db w) session" using inv mem by (simp_all add: db_inv_def)
    have ok3: "schema_ok db3" unfolding revoked(11) db2 revoked(5)
      by (intro enqueue_stmt.keeps revocation_jtis.keeps revoke_stmt.keeps) (simp add: ok)
    have mem3: "session \<in> set (sessions db3)" using mem by (simp add: revoked(11,5) db2 frame)
    have key: "?jti \<in> fst ` set (replay_revocation_jtis (w_db w'))"
      using le' revocation_jtis.reserve_keys [of ?jti expiry db1] by (auto simp: db2 [symmetric] keys_le_def replay_keys_def)
    have "signed_revocation app (s_domain session) bytes"
      using signed_revocation_fields [OF revoked(8)] revoked(9) by (auto simp: signed_revocation_def)
    then have new: "job_inv app (w_db w') j" if "j_kind j = ''revocation''" "j_domain j = s_domain session" "j_jti j = ?jti"
      "j_payload_ciphertext j = ct" "j_status j = ''pending''" "j_idempotency_key j = ?jti" "j_attempts j = 0" for j
      using that key at_rest_decrypts [OF aead rng revoked(10)] by (auto simp: job_inv_def payload_ok_def)
    show ?thesis
    proof (rule db_inv_step [OF inv _ le'(1)])
      show "schema_ok (w_db w')" unfolding db4 by (rule cas_stmt.keeps [OF ok3])
      fix y assume "y \<in> set (sessions (w_db w'))"
      with cas_rows [OF ok3 mem3] state_only_row [OF row_inv_mono [OF ok(2) le'(1)], of "''REVOKED''"]
      show "y \<in> set (sessions (w_db w)) \<or> row_inv (w_db w') y"
        unfolding db4 by (fastforce simp: revoked(11,5) db2 frame session_states_def)
    next
      fix j assume "j \<in> set (delivery_jobs (w_db w'))"
      then have "j \<in> set (delivery_jobs db3)" by (simp add: db4 frame)
      from enqueue_jobs [OF this [unfolded revoked(11)]] new show "j \<in> set (delivery_jobs (w_db w)) \<or> job_inv app (w_db w') j"
        by (auto simp: db2 revoked(5) frame)
    qed
  qed
qed

subsection \<open>Registrations\<close>

lemma registered_row:
  assumes "registration_checked app orc request metadata n"
  shows "row_inv db (new_row i t n)"
proof -
  from assms have "registration_validate request = Inr ()"
    "n_domain n = reg_domain request" "n_session_id n = reg_session_id request" "n_iat n = reg_iat request" "n_exp n = reg_exp request"
    by (auto simp: registration_checked_def new_session_def)
  then show ?thesis
    by (auto simp: row_inv_def row_ok_def refs_ok_def opt_in_def new_row_def session_states_def registration_validate_def
        result_simps validate_window_iff split: if_splits)
qed

lemma insert_registered_new:
  assumes "insert_registered c n db = (r, db')" "x \<in> set (sessions db')"
  shows "x \<in> set (sessions db) \<or> (\<exists>t. x = new_row (session_seq db) t n)"
  using assms by (auto simp: insert_registered_def Let_def get_by_session_def split: sum.splits if_splits option.splits)

lemma insert_registered_jobs: "insert_registered c n db = (r, db') \<Longrightarrow> delivery_jobs db' = delivery_jobs db"
  by (auto simp: insert_registered_def Let_def get_by_session_def split: sum.splits if_splits option.splits)

lemma register_keeps:
  assumes inv: "db_inv app (w_db w)" and run: "register_session app orc request w = (r, w')"
  shows "db_inv app (w_db w')"
proof (cases "w_db w' = w_db w")
  case True
  with inv show ?thesis by simp
next
  case False
  with run show ?thesis
  proof (rule register_session_db)
    fix metadata n x
    assume checked: "registration_checked app orc request metadata n"
      and ins: "insert_registered (crates_of app) n (w_db w) = (Inr x, w_db w')"
    have db: "w_db w' = snd (insert_registered (crates_of app) n (w_db w))" using ins by simp
    have jobs: "delivery_jobs (w_db w') = delivery_jobs (w_db w)" by (rule insert_registered_jobs [OF ins])
    show ?thesis
    proof (rule db_inv_step [OF inv])
      show "schema_ok (w_db w')" unfolding db using inv by (intro insert_stmt.keeps) (simp add: db_inv_def)
      show "keys_le (w_db w) (w_db w')" unfolding db by (rule keys_grow)
      fix y assume "y \<in> set (sessions (w_db w'))"
      with insert_registered_new [OF ins] registered_row [OF checked]
      show "y \<in> set (sessions (w_db w)) \<or> row_inv (w_db w') y" by blast
    qed (simp add: jobs)
  qed
qed

subsection \<open>Deliveries\<close>

lemma cas_delivered_keeps:
  assumes inv: "db_inv app db"
  shows "db_inv app (snd (cas_update i v ''ASSERTION_DELIVERED'' no_update db))" (is "db_inv app ?db'")
proof (rule db_inv_step [OF inv])
  show "schema_ok ?db'" using inv by (intro cas_stmt.keeps) (simp add: db_inv_def)
  show le: "keys_le db ?db'" by (rule keys_grow)
  fix x assume "x \<in> set (sessions ?db')"
  then have "x \<in> set (sessions db) \<or> (\<exists>y \<in> set (sessions db). x = apply_update ''ASSERTION_DELIVERED'' no_update y \<and> s_version y \<noteq> i32_max)"
    by (auto simp: cas_update_def Let_def list_ex_iff split: if_splits)
  moreover have "row_inv ?db' y" if "y \<in> set (sessions db)" for y using inv that row_inv_mono [OF _ le] by (simp add: db_inv_def)
  ultimately show "x \<in> set (sessions db) \<or> row_inv ?db' x"
    using state_only_row by (fastforce simp: session_states_def)
qed (simp add: frame)

lemma deliver_keeps:
  assumes "db_inv app (w_db w)" "deliver app orc job w = (r, w')"
  shows "db_inv app (w_db w')"
  using deliver_effect(1) [OF assms(2)] assms(1) cas_delivered_keeps by auto

lemma job_inv_changes [simp]:
  "payload_ok app (claimed now j) = payload_ok app j" "job_inv app db j \<Longrightarrow> job_inv app db (claimed now j)"
  "st \<in> {''delivered'', ''failed''} \<Longrightarrow> job_inv app db j \<Longrightarrow> job_inv app db (j\<lparr>j_status := st\<rparr>)"
  by (auto simp: job_inv_def payload_ok_def claimed_def)

lemma claim_keeps:
  assumes inv: "db_inv app db" and run: "claim_due now limit db = (Inr jobs, db')"
  shows "db_inv app db'" and "\<forall>j \<in> set jobs. payload_ok app j"
proof -
  have ok: "schema_ok db" using inv by (simp add: db_inv_def)
  from ok run have "db_inv app db' \<and> (\<forall>j \<in> set jobs. payload_ok app j)"
  proof (rule claim_due_InrE)
    fix ids
    assume *: "jobs = map (claimed now) (filter (\<lambda>j. j_id j \<in> ids) (delivery_jobs db))"
      "db' = db\<lparr>delivery_jobs := map (\<lambda>j. if j_id j \<in> ids then claimed now j else j) (delivery_jobs db)\<rparr>"
    have le: "keys_le db db'" using keys_grow(10) [of db now limit] run by simp
    have old: "job_inv app db' j" if "j \<in> set (delivery_jobs db)" for j
      using inv that job_inv_mono [OF _ le] by (simp add: db_inv_def)
    have "db_inv app db'"
      by (rule db_inv_step [OF inv _ le])
        (use claim_stmt.keeps [OF ok, of now limit] run old in \<open>auto simp: *(2)\<close>)
    moreover have "\<forall>j \<in> set jobs. payload_ok app j" using inv by (auto simp: *(1) db_inv_def job_inv_def)
    ultimately show ?thesis by blast
  qed
  then show "db_inv app db'" and "\<forall>j \<in> set jobs. payload_ok app j" by blast+
qed

lemma mark_keeps:
  assumes inv: "db_inv app db" and "st \<in> {''delivered'', ''failed''}"
  shows "db_inv app (snd (set_job_status st i db))" (is "db_inv app ?db'")
proof (rule db_inv_step [OF inv])
  show "schema_ok ?db'" using inv by (intro status_stmt.keeps) (simp add: db_inv_def)
  show le: "keys_le db ?db'" by (rule keys_grow)
  have "job_inv app ?db' j" if "j \<in> set (delivery_jobs db)" for j using inv that job_inv_mono [OF _ le] by (simp add: db_inv_def)
  then show "j \<in> set (delivery_jobs db) \<or> job_inv app ?db' j" if "j \<in> set (delivery_jobs ?db')" for j
    using that assms(2) by (auto simp: set_job_status_def split: if_splits)
qed (simp add: frame)

subsection \<open>The relay\<close>

definition worker_inv :: "AppState \<Rightarrow> worker \<Rightarrow> bool" where
  "worker_inv app wk \<longleftrightarrow> (case wk of Idle \<Rightarrow> True | Delivering jobs \<Rightarrow> (\<forall>j \<in> set jobs. payload_ok app j)
     | Marking job st jobs \<Rightarrow> st \<in> {''delivered'', ''failed''} \<and> (\<forall>j \<in> set jobs. payload_ok app j))"

definition relay_inv :: "AppState \<Rightarrow> relay \<Rightarrow> bool" where
  "relay_inv app s \<longleftrightarrow> db_inv app (w_db (rl_world s)) \<and> worker_inv app (rl_worker s)
     \<and> (\<forall>p \<in> set (w_posts (rl_world s)). post_ok app p)"

text \<open>What a handler keeps: the database invariant, and the log of posts untouched.\<close>

definition safe_handler :: "AppState \<Rightarrow> world \<Rightarrow> world \<Rightarrow> bool" where
  "safe_handler app w w' \<longleftrightarrow> (db_inv app (w_db w) \<longrightarrow> db_inv app (w_db w')) \<and> w_posts w' = w_posts w"

lemma bnd_run_tx_posts:
  assumes "bnd (run_tx orc body) k w = (r, w')" "\<And>x. quiet (k x)"
  shows "w_posts w' = w_posts w"
proof -
  obtain r1 w1 where t: "run_tx orc body w = (r1, w1)" by fastforce
  have "w_posts w' = w_posts w1"
    using assms by (auto simp: bnd_def t quiet_def split: sum.splits) (metis prod.sel(2))
  with run_tx_frame(2) [OF t] show ?thesis by simp
qed

lemma process_posts:
  "process_request app orc event s n t d w = (r, w') \<Longrightarrow> w_posts w' = w_posts w"
  "process_consent app orc event s n t approved name ch k sg w = (r, w') \<Longrightarrow> w_posts w' = w_posts w"
  "process_revocation app orc event s n account why w = (r, w') \<Longrightarrow> w_posts w' = w_posts w"
  by (auto simp: process_request_def process_consent_def process_revocation_def Let_def lift_then
      split: sum.splits option.splits consent_outcome.splits dest!: bnd_run_tx_posts run_tx_frame(2) intro!: quiet_bnd)

lemma dispatch_safe:
  assumes "aead_ok (crates_of app) (at_rest app)" "rng_ok orc"
  shows "safe_handler app w (snd (dispatch app orc event message w))"
proof (cases message)
  case (Request s n t d)
  obtain r w' where run: "process_request app orc event s n t d w = (r, w')" by fastforce
  with request_keeps [OF _ run] process_posts(1) [OF run] Request show ?thesis by (simp add: safe_handler_def dispatch_def)
next
  case (Consent s n t a name ch k sg)
  obtain r w' where run: "process_consent app orc event s n t a name ch k sg w = (r, w')" by fastforce
  with consent_keeps [OF _ assms run] process_posts(2) [OF run] Consent show ?thesis by (simp add: safe_handler_def dispatch_def)
next
  case (Revocation s n t account why)
  obtain r w' where run: "process_revocation app orc event s n account why w = (r, w')" by fastforce
  with revocation_keeps [OF _ assms run] process_posts(3) [OF run] Revocation show ?thesis by (simp add: safe_handler_def dispatch_def)
qed (simp_all add: safe_handler_def dispatch_def ret_def)

lemma message_safe:
  assumes "aead_ok (crates_of app) (at_rest app)" "rng_ok orc"
  shows "safe_handler app w (on_room_message app orc room event_id sender text w)"
  using dispatch_safe [OF assms]
  by (auto simp: on_room_message_def dispatch_text_def handle_inbound_def bnd_def inc_def ret_def
      split: option.splits sum.splits) (simp_all add: safe_handler_def)

lemma register_posts: "register_session app orc request w = (r, w') \<Longrightarrow> w_posts w' = w_posts w"
  by (auto simp: register_session_def Let_def lift_then fetch_or_reject_then lift_result_def register_finish_quiet
      split: sum.splits if_splits dest!: bnd_run_tx_posts)

lemma http_safe:
  assumes "site_sessions app orc now_s body (l, w) = (resp, l', w')"
  shows "safe_handler app w w'"
proof -
  have "w' = w \<or> (\<exists>request r w1 m. register_session app orc request w = (r, w1) \<and> (w' = w1 \<or> w' = w1\<lparr>w_metrics := m\<rparr>))"
    using assms by (auto simp: site_sessions_def Let_def split: if_splits sum.splits prod.splits)
  then show ?thesis by (auto simp: safe_handler_def dest: register_keeps register_posts)
qed

lemma relay_inv_world:
  assumes "relay_inv app s" "safe_handler app (rl_world s) w" "worker_inv app (rl_worker s')" "rl_world s' = w"
  shows "relay_inv app s'"
  using assms by (simp add: relay_inv_def safe_handler_def)

lemma autocommit_safe:
  assumes "autocommit orc f w = (r, w')" "\<And>x db'. db_inv app (w_db w) \<Longrightarrow> f (w_db w) = (Inr x, db') \<Longrightarrow> db_inv app db'"
  shows "safe_handler app w w'"
  using autocommit_db [OF assms(1)] assms(2) by (auto simp: safe_handler_def)

lemma step_keeps_inv:
  assumes aead: "aead_ok (crates_of app) (at_rest app)" and step: "relay_does app i s s'" and inv: "relay_inv app s"
  shows "relay_inv app s'"
proof -
  have wk: "worker_inv app (rl_worker s)" using inv by (simp add: relay_inv_def)
  from step show ?thesis
  proof cases
    case (http orc now_s body resp l w)
    show ?thesis by (rule relay_inv_world [OF inv http_safe [OF http(3)]]) (use wk http(2) in simp_all)
  next
    case (message orc w room event_id sender content)
    show ?thesis by (rule relay_inv_world [OF inv message_safe [OF aead message(3)]]) (use wk message(2,4) in simp_all)
  next
    case (sync orc sync_ok get_room invited w acts)
    then have "safe_handler app (rl_world s) w"
      by (auto simp: on_sync_result_def safe_handler_def split: if_splits prod.splits sum.splits)
    then show ?thesis by (rule relay_inv_world [OF inv]) (use wk sync(2) in simp_all)
  next
    case (claim orc r w)
    have safe: "safe_handler app (rl_world s) w"
      using claim(4) by (rule autocommit_safe) (use claim_keeps(1) in blast)
    have "worker_inv app (case r of Inl _ \<Rightarrow> Idle | Inr jobs \<Rightarrow> Delivering jobs)"
    proof (cases r)
      case (Inr jobs)
      from claim_keeps(2) [OF _ autocommit_Inr(1) [OF claim(4) [unfolded Inr]]] inv Inr show ?thesis
        by (simp add: relay_inv_def worker_inv_def)
    qed (simp add: worker_inv_def)
    then show ?thesis by (intro relay_inv_world [OF inv safe]) (use claim(2) in simp_all)
  next
    case (job job jobs orc r w)
    have ok: "payload_ok app job" "\<forall>j \<in> set jobs. payload_ok app j" using inv job(3) by (simp_all add: relay_inv_def worker_inv_def)
    have "\<forall>p \<in> set (w_posts w). post_ok app p"
      using deliver_effect(2) [OF job(4)] posted_payload [OF ok(1)] inv by (auto simp: relay_inv_def)
    moreover have "db_inv app (w_db w)" using deliver_keeps [OF _ job(4)] inv by (simp add: relay_inv_def)
    ultimately show ?thesis using ok job(2) by (auto simp: relay_inv_def worker_inv_def split: sum.splits)
  next
    case (mark job st jobs orc r w)
    have st: "st \<in> {''delivered'', ''failed''}" and jobs: "\<forall>j \<in> set jobs. payload_ok app j"
      using inv mark(3) by (simp_all add: relay_inv_def worker_inv_def)
    have "safe_handler app (rl_world s) w"
      using mark(4) by (rule autocommit_safe) (use mark_keeps [OF _ st] in \<open>metis snd_conv\<close>)
    then have "relay_inv app (s\<lparr>rl_world := w, rl_worker := Idle\<rparr>)" "relay_inv app (s\<lparr>rl_world := w, rl_worker := Delivering jobs\<rparr>)"
      using relay_inv_world [OF inv] jobs by (simp_all add: worker_inv_def)
    with mark(2) show ?thesis by (auto simp: relay_inv_def inc_def split: sum.splits)
  next
    case done_jobs
    with inv show ?thesis by (simp add: relay_inv_def worker_inv_def)
  next
    case (restart w b t)
    with inv show ?thesis by (simp add: relay_inv_def worker_inv_def)
  qed
qed

end
