(* ===== verification/Statement_Invariant.thy ===== *)
theory Statement_Invariant
  imports Relay_Invariant
begin

text \<open>
  A property of the tables that every statement of the services keeps is kept by their transactions and by
  every handler, whatever commits, fails or is dropped. The contract lists the statements; the clients of the
  locale are the handlers.
\<close>

locale statement_invariant =
  fixes I :: "database \<Rightarrow> bool"
  assumes reserves: "I db \<Longrightarrow> I (snd (reserve_request_event k t db))" "I db \<Longrightarrow> I (snd (reserve_challenge_hash h t db))"
      "I db \<Longrightarrow> I (snd (reserve_consent_event k t db))" "I db \<Longrightarrow> I (snd (reserve_assertion_jti k t db))"
      "I db \<Longrightarrow> I (snd (reserve_revocation_jti k t db))"
    and updates: "I db \<Longrightarrow> I (snd (cas_update i v st u db))" "I db \<Longrightarrow> I (snd (upsert_grant d h sc uc s n v db))"
      "I db \<Longrightarrow> I (snd (mark_revoked now i db))" "I db \<Longrightarrow> I (snd (enqueue now kind d jti p s n db))"
      "I db \<Longrightarrow> I (snd (insert_registered c ns db))"
begin

lemma lookups: "I db \<Longrightarrow> I (snd (get_matching d s n db))" "I db \<Longrightarrow> I (snd (get_by_session_and_nonce s n db))"
  "I db \<Longrightarrow> I (snd (find_active_grant d h db))"
  by simp_all

lemmas keep_intros = keeps_bnd keeps_lift keeps_ret keeps_counting keeps_sql reserves updates lookups

lemma approve_tx_keeps: "keeps_db I (approve_tx app orc event s n name nonce_hash now session)"
  unfolding approve_tx_def Let_def by (intro keep_intros)

lemma transactions_keep:
  "keeps_db I (request_tx app orc event s n t d nonce_hash now)"
  "keeps_db I (consent_tx app orc event s n t approved name nonce_hash challenge_hash now)"
  "keeps_db I (revocation_tx app orc event s account why nonce_hash subject_hash)"
  "keeps_db I (register_tx app orc new)" "keeps_db I (accepted_tx app orc job)"
  unfolding request_tx_def consent_tx_def revocation_tx_def register_tx_def accepted_tx_def Let_def
  by (auto intro!: keep_intros approve_tx_keeps split: option.splits)

lemma run_tx_then_keeps:
  assumes "bnd (run_tx orc body) k w = (r, w')" "\<And>x. quiet (k x)" "keeps_db I body" "I (w_db w)"
  shows "I (w_db w')"
proof -
  obtain r1 w1 where t: "run_tx orc body w = (r1, w1)" by fastforce
  have "w_db w' = w_db w1"
    using assms(1,2) by (auto simp: bnd_def t quiet_def split: sum.splits) (metis prod.sel(2))
  with run_tx_keeps [OF assms(3,4) t] show ?thesis by simp
qed

lemma login_keeps:
  "process_request app orc event s n t d w = (r, w') \<Longrightarrow> I (w_db w) \<Longrightarrow> I (w_db w')"
  "process_consent app orc event s n t approved name ch k sg w = (r, w') \<Longrightarrow> I (w_db w) \<Longrightarrow> I (w_db w')"
  "process_revocation app orc event s n account why w = (r, w') \<Longrightarrow> I (w_db w) \<Longrightarrow> I (w_db w')"
proof -
  show "process_request app orc event s n t d w = (r, w') \<Longrightarrow> I (w_db w) \<Longrightarrow> I (w_db w')"
    by (auto simp: process_request_def Let_def lift_then split: sum.splits option.splits
        dest!: run_tx_then_keeps intro!: quiet_bnd transactions_keep)
  show "process_consent app orc event s n t approved name ch k sg w = (r, w') \<Longrightarrow> I (w_db w) \<Longrightarrow> I (w_db w')"
    by (auto simp: process_consent_def Let_def lift_then split: sum.splits consent_outcome.splits
        dest!: run_tx_then_keeps intro!: quiet_bnd transactions_keep)
  show "process_revocation app orc event s n account why w = (r, w') \<Longrightarrow> I (w_db w) \<Longrightarrow> I (w_db w')"
    using run_tx_keeps [OF transactions_keep(3), of w orc] by (auto simp: process_revocation_def Let_def lift_then split: sum.splits)
qed

lemma message_keeps:
  assumes "I (w_db w)"
  shows "I (w_db (on_room_message app orc room event_id sender content w))"
proof -
  have "I (w_db (snd (dispatch app orc event m w)))" for event m
    using login_keeps assms by (cases m) (simp_all add: dispatch_def ret_def, (metis prod.collapse)+)
  then show ?thesis
    using assms by (auto simp: on_room_message_def dispatch_text_def handle_inbound_def bnd_def inc_def ret_def split: option.splits sum.splits)
qed

lemma http_keeps:
  assumes "site_sessions app orc now_s body (l, w) = (resp, l', w')" "I (w_db w)"
  shows "I (w_db w')"
proof -
  have "w' = w \<or> (\<exists>request r w1 m. register_session app orc request w = (r, w1) \<and> (w' = w1 \<or> w' = w1\<lparr>w_metrics := m\<rparr>))"
    using assms(1) by (auto simp: site_sessions_def Let_def split: if_splits sum.splits prod.splits)
  moreover have "I (w_db w1)" if "register_session app orc request w = (r, w1)" for request r w1
    using that
  proof (cases rule: register_session_cases)
    case (checked metadata n)
    show ?thesis by (rule run_tx_then_keeps [OF checked(2) register_finish_quiet transactions_keep(4) assms(2)])
  qed (use assms(2) in simp)
  ultimately show ?thesis using assms(2) by auto
qed

lemma delivery_keeps: "deliver app orc job w = (r, w') \<Longrightarrow> I (w_db w) \<Longrightarrow> I (w_db w')"
  using deliver_effect(1) [of app orc job w r w'] updates(1) by auto

lemma sync_keeps: "on_sync_result app orc sync_ok get_room invited w = (w', acts) \<Longrightarrow> w_db w' = w_db w \<and> w_posts w' = w_posts w"
  by (auto simp: on_sync_result_def split: if_splits prod.splits sum.splits)

end

lemma autocommit_keeps:
  assumes "autocommit orc f w = (r, w')" "I (w_db w)" "\<And>db. I db \<Longrightarrow> I (snd (f db))"
  shows "I (w_db w')"
  using autocommit_db(2) [OF assms(1)] assms(2) assms(3) [of "w_db w"] by auto

end
