(* ===== verification/Relay_Runs.thy ===== *)
theory Relay_Runs
  imports Statement_Invariant
begin

text \<open>
  Runs of the relay: the contract of an invariant of a transition system, met by the relay with two
  invariants, the well-formedness of \<^verbatim>\<open>Relay_Invariant\<close> and the growth of the replay tables.
\<close>

locale transition_system =
  fixes step :: "'s \<Rightarrow> 's \<Rightarrow> bool" and inv :: "'s \<Rightarrow> bool"
  assumes preserved: "step s s' \<Longrightarrow> inv s \<Longrightarrow> inv s'"
begin

lemma reachable: "step\<^sup>*\<^sup>* s s' \<Longrightarrow> inv s \<Longrightarrow> inv s'"
  by (induction rule: rtranclp_induct) (auto intro: preserved)

end

text \<open>The runs of a labelled transition system, with the list of their labels.\<close>

inductive trace :: "('l \<Rightarrow> 's \<Rightarrow> 's \<Rightarrow> bool) \<Rightarrow> 's \<Rightarrow> 'l list \<Rightarrow> 's \<Rightarrow> bool" for step where
  empty: "trace step s [] s"
| extend: "trace step s ls s1 \<Longrightarrow> step l s1 s2 \<Longrightarrow> trace step s (ls @ [l]) s2"

lemma trace_first:
  assumes "step l s s1" "trace step s1 ls s2"
  shows "trace step s (l # ls) s2"
  using assms(2,1)
proof (induction rule: trace.induct)
  case (empty s')
  then show ?case using trace.extend [OF trace.empty, of step l s s'] by simp
next
  case (extend s' ls s3 l' s4)
  then show ?case using trace.extend [of step s "l # ls" s3 l' s4] by simp
qed

lemma trace_append:
  assumes "trace step s1 ls s2" "trace step s2 ls' s3"
  shows "trace step s1 (ls @ ls') s3"
  using assms(2,1)
proof (induction rule: trace.induct)
  case (extend s ls' s3 l s4)
  then show ?case using trace.extend [of step s1 "ls @ ls'" s3 l s4] by simp
qed simp

lemma steps_trace: "(\<lambda>s s'. \<exists>l. step l s s')\<^sup>*\<^sup>* s s' \<longleftrightarrow> (\<exists>ls. trace step s ls s')"
proof
  show "\<exists>ls. trace step s ls s'" if "(\<lambda>s s'. \<exists>l. step l s s')\<^sup>*\<^sup>* s s'"
    using that by (induction rule: rtranclp_induct) (blast intro: trace.intros)+
  show "(\<lambda>s s'. \<exists>l. step l s s')\<^sup>*\<^sup>* s s'" if "\<exists>ls. trace step s ls s'"
  proof -
    from that obtain ls where "trace step s ls s'" ..
    then show ?thesis by (induction rule: trace.induct) (auto intro: rtranclp.rtrancl_into_rtrancl)
  qed
qed

lemma relay_steps_trace: "(relay_step app)\<^sup>*\<^sup>* s s' \<longleftrightarrow> (\<exists>is. trace (relay_does app) s is s')"
proof -
  have "relay_step app = (\<lambda>s s'. \<exists>i. relay_does app i s s')" by (simp add: fun_eq_iff relay_step_def)
  then show ?thesis by (simp add: steps_trace)
qed

interpretation relay_safe: transition_system "relay_step app" "\<lambda>s. aead_ok (crates_of app) (at_rest app) \<longrightarrow> relay_inv app s" for app
  by unfold_locales (auto elim!: relay_stepE intro: step_keeps_inv)

subsection \<open>Replay keys are never forgotten\<close>

interpretation memory: statement_invariant "keys_le db0" for db0
  by unfold_locales (blast intro: keys_le_trans keys_grow)+

interpretation relay_memory: transition_system "relay_step app" "\<lambda>s. keys_le db0 (w_db (rl_world s))" for app db0
proof
  fix s s'
  assume "relay_step app s s'" and le: "keys_le db0 (w_db (rl_world s))"
  then obtain i where "relay_does app i s s'" by (elim relay_stepE)
  from this le show "keys_le db0 (w_db (rl_world s'))"
  proof (induction rule: relay_does.induct)
    case (claim s orc r w)
    have "keys_le db0 (w_db w)" by (rule autocommit_keeps [where I = "keys_le db0", OF claim(2,3)]) (blast intro: keys_le_trans keys_grow)
    then show ?case by simp
  next
    case (mark s job st jobs orc r w)
    have "keys_le db0 (w_db w)" by (rule autocommit_keeps [where I = "keys_le db0", OF mark(2,3)]) (blast intro: keys_le_trans keys_grow)
    then show ?case by (auto simp: inc_def split: sum.splits)
  qed (auto intro: memory.http_keeps memory.message_keeps memory.delivery_keeps dest: memory.sync_keeps)
qed

subsection \<open>The initial state\<close>

lemma start_inv: "relay_inv app (start (initial_world cfg now empty_database))"
  by (simp add: relay_inv_def start_def initial_world_def db_inv_def schema_ok_empty worker_inv_def) (simp add: empty_database_def)

lemma reachable_inv:
  assumes "aead_ok (crates_of app) (at_rest app)" "(relay_step app)\<^sup>*\<^sup>* (start (initial_world cfg now empty_database)) s"
  shows "relay_inv app s"
  using relay_safe.reachable [OF assms(2)] assms(1) start_inv by blast

end
