(* ===== verification/Relay_Agreement.thy ===== *)
theory Relay_Agreement
  imports Relay_Runs
begin

text \<open>
  Agreement between the sites and the users: where an item of a running system comes from, as a contract of
  labelled transition systems, and the two uses of it here. Assertions enter the delivery queue only in a step that
  handles a user's consent; posts are made only from the queue. The step is a step of the given run, and what
  is said of its room, sender and text is said of the input of that step.
\<close>

locale provenance =
  fixes step :: "'l \<Rightarrow> 's \<Rightarrow> 's \<Rightarrow> bool" and items :: "'s \<Rightarrow> 'i set" and created :: "'l \<Rightarrow> 's \<Rightarrow> 'i \<Rightarrow> bool"
  assumes from_step: "step l s s' \<Longrightarrow> x \<in> items s' \<Longrightarrow> x \<in> items s \<or> created l s x"
begin

lemma origin_of_item:
  assumes "trace step s0 ls s" "x \<in> items s"
  shows "x \<in> items s0 \<or> (\<exists>ls1 l ls2 s1 s2. ls = ls1 @ l # ls2 \<and> trace step s0 ls1 s1 \<and> step l s1 s2 \<and> created l s1 x \<and> trace step s2 ls2 s)"
  using assms
proof (induction rule: trace.induct)
  case (extend s ls s1 l s2)
  from from_step [OF extend.hyps(2) extend.prems] show ?case
  proof
    assume "x \<in> items s1"
    from extend.IH [OF this] show ?thesis
    proof
      assume "\<exists>ls1 l ls2 s' s''. ls = ls1 @ l # ls2 \<and> trace step s ls1 s' \<and> step l s' s'' \<and> created l s' x \<and> trace step s'' ls2 s1"
      then obtain ls1 l0 ls2 s' s'' where "ls = ls1 @ l0 # ls2" "trace step s ls1 s'" "step l0 s' s''" "created l0 s' x"
        "trace step s'' ls2 s1" by blast
      with trace.extend [of step s'' ls2 s1 l s2] extend.hyps(2) show ?thesis
        by (intro disjI2 exI [of _ ls1] exI [of _ l0] exI [of _ "ls2 @ [l]"]) auto
    qed simp
  next
    assume "created l s1 x"
    with extend.hyps trace.empty [of step s2] show ?thesis by (intro disjI2 exI [of _ ls] exI [of _ l] exI [of _ "[]"]) auto
  qed
qed simp

end

subsection \<open>What the queue carries\<close>

definition content :: "DeliveryJob \<Rightarrow> string \<times> string \<times> string \<times> bytes" where
  "content j = (j_kind j, j_domain j, j_jti j, j_payload_ciphertext j)"

lemma content_same [simp]: "content (claimed now j) = content j" "content (j\<lparr>j_status := st\<rparr>) = content j"
  by (simp_all add: content_def claimed_def)

fun worker_jobs :: "worker \<Rightarrow> DeliveryJob set" where
  "worker_jobs Idle = {}"
| "worker_jobs (Delivering jobs) = set jobs"
| "worker_jobs (Marking job st jobs) = set jobs"

definition queued :: "database \<Rightarrow> (string \<times> string \<times> string \<times> bytes) set" where
  "queued db = {c \<in> content ` set (delivery_jobs db). fst c = ''assertion''}"

definition carried :: "relay \<Rightarrow> (string \<times> string \<times> string \<times> bytes) set" where
  "carried s = queued (w_db (rl_world s)) \<union> {c \<in> content ` worker_jobs (rl_worker s). fst c = ''assertion''}"

subsection \<open>Consent\<close>

definition consent_given :: "AppState \<Rightarrow> world \<Rightarrow> string \<Rightarrow> string \<Rightarrow> MatrixMessage \<Rightarrow> RelayAssertion \<Rightarrow> bool" where
  "consent_given app w room_id sender message a \<longleftrightarrow>
     (\<exists>session \<in> set (sessions (w_db w)). \<exists>t challenge key_id signature signed h.
        message = Consent (as_session_id a) (as_nonce a) t True (Some (as_display_name a)) challenge key_id signature
      \<and> consent_signed_bytes (crates_of app) True challenge (Some (as_display_name a)) (as_nonce a) (as_session_id a) t = Inr signed
      \<and> verify_consent_signature (crates_of app) key_id signed signature = Inr ()
      \<and> s_domain session = as_aud a \<and> s_session_id session = as_session_id a
      \<and> keyed_hash (crates_of app) (lookup_pepper app) (as_nonce a) = Inr (s_nonce_hash session)
      \<and> keyed_hash (crates_of app) (lookup_pepper app) challenge = Inr h \<and> s_challenge_hash session = Some h
      \<and> stored_text app (s_request_sender_ciphertext session) = Some sender
      \<and> stored_text app (s_request_room_ciphertext session) = Some room_id
      \<and> derive_pairwise_sub (crates_of app) (subject_secret app) (as_aud a) sender = Inr (as_sub a)
      \<and> as_exp a \<le> s_exp session)"

definition holds_assertion :: "AppState \<Rightarrow> RelayAssertion \<Rightarrow> string \<times> string \<times> string \<times> bytes \<Rightarrow> bool" where
  "holds_assertion app a c \<longleftrightarrow> (\<exists>body ct. c = (''assertion'', as_aud a, as_jti a, ct)
     \<and> assertion_to_bytes (crates_of app) a = Inr body \<and> decrypt (crates_of app) (at_rest app) ct = Inr body)"

text \<open>
  A room of the relay and one user alone, in terms of what the SDK reports: encrypted, its joined members exactly the
  two of them, neither a guest.
\<close>

definition private_room :: "sdk_room \<Rightarrow> string \<Rightarrow> string \<Rightarrow> bool" where
  "private_room room relay user \<longleftrightarrow> encryption_state room = Encrypted \<and> user \<noteq> relay
     \<and> (\<exists>members. active_members room = Some members
          \<and> map fst (filter snd members) \<in> {[relay, user], [user, relay]})
     \<and> \<not> contains_str ''guest'' user \<and> \<not> contains_str ''guest'' relay"

lemma checked_snapshot_private:
  assumes "snapshot room sender relay = Inr snap" "check_room snap = Inr ()"
  shows "private_room room (effective_relay relay) sender"
  using assms by (auto simp: check_room_pair snapshot_def private_room_def result_simps)

text \<open>The message of one input, received in a given world: an unused approval, signed by its sender, behind the assertion.\<close>

definition consent_message :: "AppState \<Rightarrow> world \<Rightarrow> sdk_room \<Rightarrow> string \<Rightarrow> string \<Rightarrow> msgtype \<Rightarrow> RelayAssertion \<Rightarrow> bool" where
  "consent_message app w room event_id sender text a \<longleftrightarrow>
     private_room room (effective_relay (relay_user_id app)) sender
   \<and> event_id \<notin> fst ` set (replay_consent_event_ids (w_db w))
   \<and> (\<exists>body message. clear_text text = Some body \<and> matrix_decode (crates_of app) body = Inr message
        \<and> consent_given app w (r_id room) sender message a)"

definition consent_input :: "AppState \<Rightarrow> input \<Rightarrow> relay \<Rightarrow> RelayAssertion \<Rightarrow> bool" where
  "consent_input app i s a \<longleftrightarrow> (\<exists>orc room event_id sender text. i = RoomMessage orc room event_id sender text
     \<and> consent_message app (rl_world s) room event_id sender text a)"

subsection \<open>What each handler adds to the queue\<close>

lemma request_queue:
  assumes "process_request app orc event s n t d w = (r, w')"
  shows "queued (w_db w') = queued (w_db w)"
proof (cases "w_db w' = w_db w")
  case False
  with process_request_db [OF assms] obtain nonce_hash x st where
    tx: "request_tx app orc event s n t d nonce_hash (o_now orc 0) (start_tx w) = (Inr (Committed x), st)"
    and db: "w_db w' = tx_db st" by blast
  from tx show ?thesis
  proof (cases rule: request_tx_committed)
    case (fresh session expiry challenge h room_ct sender_ct)
    have "delivery_jobs (tx_db st) = delivery_jobs (w_db w)"
      using arg_cong [OF fresh(12), of "\<lambda>x. delivery_jobs (snd x)"] by (simp add: frame)
    then show ?thesis by (simp add: db queued_def)
  qed (use db in \<open>simp add: queued_def\<close>)
qed simp

lemma revocation_queue:
  assumes "process_revocation app orc event s n account why w = (r, w')"
  shows "queued (w_db w') = queued (w_db w)"
proof (cases "w_db w' = w_db w")
  case False
  with process_revocation_db [OF assms] obtain nonce_hash subject_hash x st where
    tx: "revocation_tx app orc event s account (unwrap_or ''user_requested'' why) nonce_hash subject_hash (start_tx w) = (Inr (Committed x), st)"
    and db: "w_db w' = tx_db st" by blast
  from tx show ?thesis
  proof (cases rule: revocation_tx_committed)
    case (revoked session grant expiry rv bytes ct db1 db2 db3)
    have db2: "db2 = snd (reserve_revocation_jti (fresh_jti app orc 0) expiry db1)" using revoked(7) by simp
    have "delivery_jobs (tx_db st) = delivery_jobs db3"
      using arg_cong [OF revoked(12), of delivery_jobs] by (simp add: frame)
    moreover have "queued db3 = queued db2" by (auto simp: revoked(11) queued_def enqueue_def Let_def content_def)
    moreover have "delivery_jobs db2 = delivery_jobs (w_db w)" by (simp add: db2 revoked(5) frame)
    ultimately show ?thesis by (simp add: db queued_def)
  qed (use db in \<open>simp add: queued_def\<close>)
qed simp

lemma consent_queue:
  assumes aead: "aead_ok (crates_of app) (at_rest app)" and rng: "rng_ok orc"
    and run: "process_consent app orc event s n t approved name ch k sg w = (r, w')" and new: "c \<in> queued (w_db w')" "c \<notin> queued (w_db w)"
  shows "\<exists>a. consent_given app w (ev_room_id event) (ev_sender event) (Consent s n t approved name ch k sg) a \<and> holds_assertion app a c
    \<and> ev_event_id event \<notin> fst ` set (replay_consent_event_ids (w_db w))"
proof -
  have change: "w_db w' \<noteq> w_db w" using new by auto
  note unused = consent_event_consumed [OF run change]
  from run change show ?thesis
  proof (rule consent_change)
    fix session h signed expiry st1 x st
    assume mem: "session \<in> set (sessions (w_db w))" "s_session_id session = s"
      and hash: "keyed_hash (crates_of app) (lookup_pepper app) n = Inr (s_nonce_hash session)"
        "keyed_hash (crates_of app) (lookup_pepper app) ch = Inr h" "s_challenge_hash session = Some h"
      and sig: "consent_signed_bytes (crates_of app) approved ch name n s t = Inr signed" "verify_consent_signature (crates_of app) k signed sg = Inr ()"
      and who: "stored_text app (s_request_sender_ciphertext session) = Some (ev_sender event)"
        "stored_text app (s_request_room_ciphertext session) = Some (ev_room_id event)"
      and res: "reserve_consent_event (ev_event_id event) expiry (w_db w) = (Inr (), tx_db st1)" and db: "w_db w' = tx_db st"
      and yes: "approved \<longrightarrow> approve_tx app orc event s n name (s_nonce_hash session) (o_now orc 0) session st1 = (Inr (Committed x), st)"
      and no: "\<not> approved \<longrightarrow> (\<exists>b. cas_update (s_id session) (s_version session) ''REFUSED''
        (no_update\<lparr>u_consent_event_id := Some (ev_event_id event)\<rparr>) (tx_db st1) = (Inr b, tx_db st))"
    have st1: "tx_db st1 = snd (reserve_consent_event (ev_event_id event) expiry (w_db w))" using res by simp
    have approved
    proof (rule ccontr)
      assume "\<not> approved"
      with no have "delivery_jobs (tx_db st) = delivery_jobs (tx_db st1)" by (metis cas_frames snd_conv)
      with new db show False by (simp add: queued_def st1 frame)
    qed
    with yes approved_queues [OF _ st1] have "assertion_queued app orc event s n name session (w_db w) (tx_db st)" by blast
    then obtain a bytes ct where
      sub: "derive_pairwise_sub (crates_of app) (subject_secret app) (s_domain session) (ev_sender event) = Inr (as_sub a)"
      and a: "as_aud a = s_domain session" "as_session_id a = s" "as_nonce a = n" "name = Some (as_display_name a)"
        "as_exp a = min (s_exp session) (wrapping_add (o_now orc 0) 300000)"
      and bytes: "assertion_to_bytes (crates_of app) a = Inr bytes" "at_rest_encrypt app orc 3 bytes = Inr ct"
      and jobs: "delivery_jobs (tx_db st) = delivery_jobs (w_db w) @ (if list_ex (\<lambda>j. j_jti j = as_jti a) (delivery_jobs (w_db w)) then []
        else [assertion_job orc (w_db w) (s_domain session) (as_jti a) ct s (s_nonce_hash session)])"
      unfolding assertion_queued_def by metis
    from new jobs db have "c = (''assertion'', as_aud a, as_jti a, ct)"
      by (auto simp: queued_def content_def assertion_job_def a(1) split: if_splits)
    with bytes at_rest_decrypts [OF aead rng bytes(2)] have "holds_assertion app a c" by (simp add: holds_assertion_def)
    moreover have "consent_given app w (ev_room_id event) (ev_sender event) (Consent s n t approved name ch k sg) a"
      unfolding consent_given_def using mem hash sig who sub a \<open>approved\<close> by (intro bexI [OF _ mem(1)]) auto
    ultimately show ?thesis using unused by blast
  qed
qed

lemma message_dispatched:
  obtains (ignored) m where "on_room_message app orc room event_id sender msg w = w\<lparr>w_metrics := m\<rparr>"
  | (dispatched) event message where "on_room_message app orc room event_id sender msg w = snd (dispatch app orc event message w)"
      "private_room room (effective_relay (relay_user_id app)) sender" "ev_event_id event = event_id" "ev_sender event = sender"
      "ev_room_id event = r_id room" "clear_text msg = Some (ev_body event)" "matrix_decode (crates_of app) (ev_body event) = Inr message"
proof -
  have keep: "\<exists>m. w = w\<lparr>w_metrics := m\<rparr>" by (rule exI [of _ "w_metrics w"]) simp
  show thesis
  proof (cases "clear_text msg")
    case None
    with keep ignored show thesis by (auto simp: on_room_message_def)
  next
    case (Some body)
    show thesis
    proof (cases "snapshot room sender (relay_user_id app)")
      case (Inl e)
      with Some keep ignored show thesis by (auto simp: on_room_message_def)
    next
      case (Inr snap)
      let ?e = "\<lparr>ev_event_id = event_id, ev_room_id = r_id room, ev_sender = sender, ev_decrypted = (encryption_state room = Encrypted),
        ev_redacted = False, ev_body = body, ev_room = snap\<rparr>"
      have run: "on_room_message app orc room event_id sender msg w = snd (handle_inbound app orc ?e w)"
        using Some Inr by (simp add: on_room_message_def dispatch_text_def)
      show thesis
      proof (cases "ev_decrypted ?e \<and> ev_sender ?e \<noteq> relay_user_id app \<and> is_ok (check_room snap) \<and> is_ok (matrix_decode (crates_of app) body)")
        case True
        then obtain message where "matrix_decode (crates_of app) body = Inr message" "check_room snap = Inr ()" by (auto simp: is_ok_iff)
        with checked_snapshot_private [OF Inr] True run Some show thesis by (intro dispatched [of ?e message]) (simp_all add: handle_inbound_def)
      next
        case False
        with run keep show thesis
          by (auto simp: handle_inbound_def bnd_def inc_def ret_def is_ok_def split: sum.splits if_splits intro: ignored)
      qed
    qed
  qed
qed

lemma message_queue:
  assumes "aead_ok (crates_of app) (at_rest app)" "rng_ok orc" "s' = s\<lparr>rl_world := on_room_message app orc room event_id sender msg (rl_world s)\<rparr>"
    and new: "c \<in> queued (w_db (rl_world s'))" "c \<notin> queued (w_db (rl_world s))"
  shows "\<exists>a. consent_message app (rl_world s) room event_id sender msg a \<and> holds_assertion app a c"
proof (rule message_dispatched [of app orc room event_id sender msg "rl_world s"])
  fix event message
  let ?w = "rl_world s"
  assume run: "on_room_message app orc room event_id sender msg ?w = snd (dispatch app orc event message ?w)"
    and facts: "private_room room (effective_relay (relay_user_id app)) sender" "ev_event_id event = event_id" "ev_sender event = sender"
      "ev_room_id event = r_id room" "clear_text msg = Some (ev_body event)" "matrix_decode (crates_of app) (ev_body event) = Inr message"
  have new': "c \<in> queued (w_db (snd (dispatch app orc event message ?w)))" using new(1) assms(3) run by simp
  show ?thesis
  proof (cases message)
    case (Request s n t d)
    with new' new(2) request_queue [OF surjective_pairing] show ?thesis by (simp add: dispatch_def)
  next
    case (Revocation s n t account why)
    with new' new(2) revocation_queue [OF surjective_pairing] show ?thesis by (simp add: dispatch_def)
  next
    case (Consent s n t approved name ch k sg)
    with new' have "c \<in> queued (w_db (snd (process_consent app orc event s n t approved name ch k sg ?w)))" by (simp add: dispatch_def)
    from consent_queue [OF assms(1,2) surjective_pairing this new(2)] obtain a where
      "consent_given app ?w (ev_room_id event) (ev_sender event) message a" "holds_assertion app a c" "ev_event_id event \<notin> fst ` set (replay_consent_event_ids (w_db ?w))"
      unfolding Consent by blast
    then show ?thesis using facts unfolding consent_message_def by metis
  qed (use new' new(2) in \<open>simp_all add: dispatch_def ret_def\<close>)
qed (use new assms(3) in simp)

lemma http_queue:
  assumes "site_sessions app orc now_s body (l, w) = (resp, l', w')"
  shows "queued (w_db w') = queued (w_db w)"
proof -
  have "w' = w \<or> (\<exists>request r w1 m. register_session app orc request w = (r, w1) \<and> (w' = w1 \<or> w' = w1\<lparr>w_metrics := m\<rparr>))"
    using assms by (auto simp: site_sessions_def Let_def split: if_splits sum.splits prod.splits)
  moreover have "delivery_jobs (w_db w1) = delivery_jobs (w_db w)" if "register_session app orc request w = (r, w1)" for request r w1
  proof (cases "w_db w1 = w_db w")
    case False
    with that show ?thesis by (rule register_session_db) (rule insert_registered_jobs)
  qed simp
  ultimately show ?thesis by (auto simp: queued_def)
qed

lemma deliver_queue: "deliver app orc job w = (r, w') \<Longrightarrow> queued (w_db w') = queued (w_db w)"
  using deliver_effect(1) [of app orc job w r w'] by (auto simp: queued_def frame)

lemma map_content:
  assumes "\<And>j. content (f j) = content j" "delivery_jobs db' = map f (delivery_jobs db)"
  shows "queued db' = queued db"
  using assms by (simp add: queued_def image_image)

lemma claim_queue:
  assumes "claim_due now limit db = (Inr jobs, db')"
  shows "queued db' = queued db" and "content ` set jobs \<subseteq> content ` set (delivery_jobs db)"
proof -
  let ?claim = "\<lambda>j. j\<lparr>j_attempts := j_attempts j + 1, j_next_retry_at := Some (now + 5000)\<rparr>"
  have same: "content (?claim j) = content j" for j by (simp add: content_def)
  from assms obtain P where *: "jobs = map ?claim (filter P (delivery_jobs db))"
    "delivery_jobs db' = map (\<lambda>j. if P j then ?claim j else j) (delivery_jobs db)"
    by (auto simp: claim_due_def Let_def split: if_splits)
  show "queued db' = queued db" by (rule map_content [OF _ *(2)]) (simp add: same)
  show "content ` set jobs \<subseteq> content ` set (delivery_jobs db)" by (auto simp: *(1) same)
qed

lemma mark_queue: "queued (snd (set_job_status st i db)) = queued db"
  by (rule map_content [of "\<lambda>j. if j_id j = i then j\<lparr>j_status := st\<rparr> else j"]) (simp_all add: set_job_status_def)

lemma autocommit_queue:
  assumes "autocommit orc f w = (r, w')" "\<And>x db'. f (w_db w) = (Inr x, db') \<Longrightarrow> queued db' = queued (w_db w)"
  shows "queued (w_db w') = queued (w_db w)"
  using autocommit_db(2) [OF assms(1)] assms(2) by auto

subsection \<open>Provenance of queued assertions and of posts\<close>

lemma carried_step:
  assumes aead: "aead_ok (crates_of app) (at_rest app)" and step: "relay_does app i s s'" and new: "c \<in> carried s'"
  shows "c \<in> carried s \<or> (\<exists>a. consent_input app i s a \<and> holds_assertion app a c)"
  using step
proof cases
  case (http orc now_s body resp l w)
  with http_queue [OF http(3)] new show ?thesis by (simp add: carried_def)
next
  case (message orc w room event_id sender msg)
  with message_queue [OF aead message(3), where s' = s' and s = s and room = room and event_id = event_id and sender = sender and msg = msg and c = c] new
  show ?thesis by (auto simp: carried_def consent_input_def)
next
  case (sync orc sync_ok get_room invited w acts)
  then have "w_db w = w_db (rl_world s)" by (auto simp: on_sync_result_def split: if_splits prod.splits sum.splits)
  with sync new show ?thesis by (simp add: carried_def)
next
  case (claim orc r w)
  have "queued (w_db w) = queued (w_db (rl_world s))" by (rule autocommit_queue [OF claim(4)]) (rule claim_queue(1))
  moreover have "content ` worker_jobs (rl_worker s') \<subseteq> content ` set (delivery_jobs (w_db (rl_world s)))"
    using claim(2,4) by (cases r) (auto dest!: autocommit_Inr(1) dest: claim_queue(2))
  ultimately show ?thesis using new claim(2) by (auto simp: carried_def queued_def)
next
  case (job job jobs orc r w)
  with deliver_queue [OF job(4)] new show ?thesis by (auto simp: carried_def split: sum.splits if_splits)
next
  case (mark job st jobs orc r w)
  have "queued (w_db w) = queued (w_db (rl_world s))"
    by (rule autocommit_queue [OF mark(4)]) (metis mark_queue snd_conv)
  with mark(2,3) new show ?thesis by (auto simp: carried_def inc_def split: sum.splits if_splits)
next
  case done_jobs
  with new show ?thesis by (simp add: carried_def)
next
  case (restart w b t)
  with new show ?thesis by (simp add: carried_def)
qed

interpretation assertions: provenance "relay_does app" "\<lambda>s. carried s \<inter> {c. aead_ok (crates_of app) (at_rest app)}"
  "\<lambda>i s c. \<exists>a. consent_input app i s a \<and> holds_assertion app a c" for app
  by unfold_locales (use carried_step in blast)

definition posted_from :: "AppState \<Rightarrow> string \<times> string \<times> string \<times> bytes \<Rightarrow> site_post \<Rightarrow> bool" where
  "posted_from app c p \<longleftrightarrow> (case c of (kind, domain, jti, ct) \<Rightarrow> kind = ''assertion'' \<and> sp_domain p = domain
     \<and> sp_key p = Some jti \<and> decrypt (crates_of app) (at_rest app) ct = Inr (sp_body p))"

definition assertion_posts :: "relay \<Rightarrow> site_post set" where
  "assertion_posts s = {p \<in> set (w_posts (rl_world s)). sp_path p = ASSERTION_PATH}"

lemma posts_step:
  assumes aead: "aead_ok (crates_of app) (at_rest app)" and step: "relay_does app i s s'" and new: "p \<in> assertion_posts s'"
  shows "p \<in> assertion_posts s \<or> (\<exists>c \<in> carried s. posted_from app c p)"
  using step
proof cases
  case (job job jobs orc r w)
  have "post_of app job p \<Longrightarrow> sp_path p = ASSERTION_PATH \<Longrightarrow> j_kind job = ''assertion''"
    by (auto simp: post_of_def job_path_def ASSERTION_PATH_def REVOCATION_PATH_def split: if_splits)
  moreover have "content job \<in> carried s" if "j_kind job = ''assertion''"
    using job(3) that by (auto simp: carried_def content_def)
  moreover have "posted_from app (content job) p" if "j_kind job = ''assertion''" "post_of app job p"
    using that by (simp add: posted_from_def content_def post_of_def)
  ultimately show ?thesis
    using deliver_effect(2) [OF job(4)] new job(2) by (auto simp: assertion_posts_def)
next
  case (http orc now_s body resp l w)
  with http_safe [OF http(3)] new show ?thesis by (simp add: assertion_posts_def safe_handler_def)
next
  case (message orc w room event_id sender msg)
  with message_safe [OF aead message(3), of "rl_world s" room event_id sender msg] new
  show ?thesis by (simp add: assertion_posts_def safe_handler_def)
next
  case (sync orc sync_ok get_room invited w acts)
  then have "w_posts w = w_posts (rl_world s)" by (auto simp: on_sync_result_def split: if_splits prod.splits sum.splits)
  with sync new show ?thesis by (simp add: assertion_posts_def)
next
  case (claim orc r w)
  with autocommit_db(1) [OF claim(4)] new show ?thesis by (simp add: assertion_posts_def)
next
  case (mark job st jobs orc r w)
  with autocommit_db(1) [OF mark(4)] new show ?thesis by (auto simp: assertion_posts_def inc_def split: sum.splits if_splits)
next
  case done_jobs
  with new show ?thesis by (simp add: assertion_posts_def)
next
  case (restart w b t)
  with new show ?thesis by (simp add: assertion_posts_def)
qed

interpretation posts: provenance "relay_does app" "\<lambda>s. assertion_posts s \<inter> {p. aead_ok (crates_of app) (at_rest app)}"
  "\<lambda>i s p. \<exists>c \<in> carried s. posted_from app c p" for app
  by unfold_locales (use posts_step in blast)

lemma assertion_post_consented:
  assumes aead: "aead_ok (crates_of app) (at_rest app)" and run: "trace (relay_does app) (start (initial_world cfg now db)) is s"
    and fresh: "queued db = {}" and p: "p \<in> set (w_posts (rl_world s))" "sp_path p = ASSERTION_PATH"
  shows "\<exists>is1 orc room event_id sender text is2 s1 s2 a. is = is1 @ RoomMessage orc room event_id sender text # is2
    \<and> trace (relay_does app) (start (initial_world cfg now db)) is1 s1
    \<and> relay_does app (RoomMessage orc room event_id sender text) s1 s2 \<and> trace (relay_does app) s2 is2 s
    \<and> consent_message app (rl_world s1) room event_id sender text a
    \<and> assertion_to_bytes (crates_of app) a = Inr (sp_body p) \<and> as_aud a = sp_domain p \<and> sp_key p = Some (as_jti a)"
proof -
  let ?s0 = "start (initial_world cfg now db)"
  have none: "assertion_posts ?s0 = {}" "carried ?s0 = {}"
    by (simp_all add: assertion_posts_def carried_def fresh start_def initial_world_def)
  from p have "p \<in> assertion_posts s \<inter> {p. aead_ok (crates_of app) (at_rest app)}" using aead by (simp add: assertion_posts_def)
  from posts.origin_of_item [OF run this] none obtain is3 i is4 s3 s4 c where
    post: "is = is3 @ i # is4" "trace (relay_does app) ?s0 is3 s3" "c \<in> carried s3" "posted_from app c p"
      "relay_does app i s3 s4" "trace (relay_does app) s4 is4 s" by auto
  from post(3) aead have "c \<in> carried s3 \<inter> {c. aead_ok (crates_of app) (at_rest app)}" by simp
  from assertions.origin_of_item [OF post(2) this] none obtain is1 i' is2 s1 s2 a where
    consent: "is3 = is1 @ i' # is2" "trace (relay_does app) ?s0 is1 s1" "consent_input app i' s1 a" "holds_assertion app a c"
      "relay_does app i' s1 s2" "trace (relay_does app) s2 is2 s3" by auto
  from consent(4) post(4) have "assertion_to_bytes (crates_of app) a = Inr (sp_body p)" "as_aud a = sp_domain p" "sp_key p = Some (as_jti a)"
    by (auto simp: holds_assertion_def posted_from_def)
  moreover have "is = is1 @ i' # (is2 @ i # is4)" by (simp add: post(1) consent(1))
  moreover have "trace (relay_does app) s2 (is2 @ i # is4) s" by (rule trace_append [OF consent(6) trace_first [OF post(5,6)]])
  ultimately show ?thesis using consent(2,3,5) unfolding consent_input_def by blast
qed

end
