(* ===== verification/Delivery_Completion.thy ===== *)
theory Delivery_Completion
  imports Delivery_Properties
begin

text \<open>
  The end of a login: what happens when a site accepts the assertion the relay delivers.
\<close>

lemma accepted_tx_found:
  assumes "calm orc" "schema_ok (tx_db st)" "session \<in> set (sessions (tx_db st))" "s_version session \<noteq> i32_max"
    and "j_domain job = s_domain session" "j_session_id job = s_session_id session" "j_nonce_hash job = s_nonce_hash session"
    and "s_request_room_ciphertext session = Some room_ct" "decrypt_text app room_ct = Inr room"
    and "decrypt_text app (s_nonce_ciphertext session) = Inr nonce"
  shows "accepted_tx app orc job st = (Inr (Committed (Some (room, nonce))),
    st\<lparr>tx_db := snd (cas_update (s_id session) (s_version session) ''ASSERTION_DELIVERED'' no_update (tx_db st))\<rparr>)"
proof -
  have found: "get_matching (s_domain session) (s_session_id session) (s_nonce_hash session) (tx_db st) = (Inr (Some session), tx_db st)"
    using get_matching_unique [OF assms(2,3)] lookup_snd(3) by (metis prod.collapse)
  obtain db where "cas_update (s_id session) (s_version session) ''ASSERTION_DELIVERED'' no_update (tx_db st) = (Inr True, db)"
    using cas_update_once(1) [OF assms(2-4)] by (metis prod.collapse)
  with found assms(1,5-) show ?thesis
    by (simp add: accepted_tx_def bnd_def sql_def lift_result_def ret_def calm_def ok_or_def)
qed

lemma deliver_accepted:
  assumes calm: "calm orc" and ok: "schema_ok (w_db w)"
    and row: "session \<in> set (sessions (w_db w))" "s_version session \<noteq> i32_max"
    and job: "j_kind job = ''assertion''" "j_domain job = s_domain session" "j_session_id job = s_session_id session"
      "j_nonce_hash job = s_nonce_hash session" "decrypt (crates_of app) (at_rest app) (j_payload_ciphertext job) = Inr payload"
    and site: "o_post orc (j_domain job) ASSERTION_PATH payload (Some (j_jti job)) = Inr response" "sr_status response \<in> {200, 202}"
    and parsed: "from_slice (json_parse (crates_of app)) assertion_from_value payload = Inr a"
    and room: "s_request_room_ciphertext session = Some room_ct" "decrypt_text app room_ct = Inr room"
      "decrypt_text app (s_nonce_ciphertext session) = Inr nonce"
    and body: "matrix_encode (crates_of app) (Result (s_session_id session) nonce (o_now orc 0) True (Some (as_sub a)) None) = Inr body"
    and sink: "o_sink orc room body = Inr ()"
  shows "deliver app orc job w = (Inr (), w\<lparr>w_db := snd (cas_update (s_id session) (s_version session) ''ASSERTION_DELIVERED'' no_update (w_db w)),
    w_posts := w_posts w @ [\<lparr>sp_domain = j_domain job, sp_path = ASSERTION_PATH, sp_body = payload, sp_key = Some (j_jti job)\<rparr>],
    w_outbox := w_outbox w @ [\<lparr>on_room_id = room, on_body = body\<rparr>]\<rparr>)"
proof -
  let ?w = "w\<lparr>w_posts := w_posts w @ [\<lparr>sp_domain = j_domain job, sp_path = ASSERTION_PATH, sp_body = payload, sp_key = Some (j_jti job)\<rparr>]\<rparr>"
  have "run_tx orc (accepted_tx app orc job) ?w = (Inr (Some (room, nonce)),
      ?w\<lparr>w_db := snd (cas_update (s_id session) (s_version session) ''ASSERTION_DELIVERED'' no_update (w_db w))\<rparr>)"
    using accepted_tx_found [of orc "start_tx w" session job room_ct app room nonce] calm ok row job room
    by (simp add: run_tx_def calm_def)
  then have "after_assertion_accepted app orc job payload ?w = (Inr (),
      ?w\<lparr>w_db := snd (cas_update (s_id session) (s_version session) ''ASSERTION_DELIVERED'' no_update (w_db w)),
         w_outbox := w_outbox w @ [\<lparr>on_room_id = room, on_body = body\<rparr>]\<rparr>)"
    using parsed body sink job(3)
    by (simp add: after_assertion_accepted_def bnd_def lift_result_def send_success_result_def send_notice_def)
  with job(1,5) site show ?thesis
    by (auto simp: deliver_def lift_then job_path_def bnd_def lift_result_def post_io_def)
qed

lemma only_due:
  assumes "schema_ok db" "filter P (delivery_jobs db) = [job]"
  shows "job \<in> set (delivery_jobs db)" and "\<And>j. j \<in> set (delivery_jobs db) \<Longrightarrow> j_id j = j_id job \<longleftrightarrow> j = job"
    and "filter (\<lambda>j. j_id j = j_id job) (delivery_jobs db) = [job]"
proof -
  have "job \<in> set (filter P (delivery_jobs db))" by (simp add: assms(2))
  then show mem: "job \<in> set (delivery_jobs db)" by simp
  then show "j_id j = j_id job \<longleftrightarrow> j = job" if "j \<in> set (delivery_jobs db)" for j
    using assms(1) that by (auto simp: schema_ok_def unique_ids_def distinct_map inj_on_def)
  have "length (filter (\<lambda>j. j_id j = j_id job) (delivery_jobs db)) \<le> 1"
    by (rule filter_unique [of j_id _ _ "j_id job"]) (use assms(1) in \<open>auto simp: schema_ok_def unique_ids_def\<close>)
  from filter_unique_singleton [OF this mem] show "filter (\<lambda>j. j_id j = j_id job) (delivery_jobs db) = [job]" by simp
qed

lemma claim_only:
  assumes ok: "schema_ok db" and due: "filter (job_due now) (delivery_jobs db) = [job]" and fits: "j_attempts job < i32_max"
  shows "claim_due now 10 db = (Inr [claimed now job],
    db\<lparr>delivery_jobs := map (\<lambda>j. if j = job then claimed now j else j) (delivery_jobs db)\<rparr>)"
  using only_due [OF ok due] due fits by (auto simp: claim_due_def claimed_def list_ex_iff cong: map_cong)

text \<open>
  A delivered assertion completes the login: when the one due job is an assertion for a session whose room
  and nonce can be decrypted, the site answers 200 or 202 and neither the database nor the sink fails, one
  tick posts exactly that assertion, moves exactly that session to the delivered state, marks exactly that job
  delivered, and tells the room of the request that the login succeeded, naming the subject of the assertion.
\<close>

lemma delivery_completes:
  assumes calm: "\<forall>k. calm (orcs k)" and ok: "schema_ok (w_db w)"
    and due: "filter (job_due (o_db_now (orcs 0))) (delivery_jobs (w_db w)) = [job]" "j_attempts job < i32_max"
    and row: "session \<in> set (sessions (w_db w))" "s_version session \<noteq> i32_max"
    and job: "j_kind job = ''assertion''" "j_domain job = s_domain session" "j_session_id job = s_session_id session"
      "j_nonce_hash job = s_nonce_hash session" "decrypt (crates_of app) (at_rest app) (j_payload_ciphertext job) = Inr payload"
    and site: "o_post (orcs 1) (j_domain job) ''/pseud0/web-login/assertions'' payload (Some (j_jti job)) = Inr response"
      "sr_status response \<in> {200, 202}"
    and parsed: "from_slice (json_parse (crates_of app)) assertion_from_value payload = Inr a"
    and room: "s_request_room_ciphertext session = Some room_ct" "decrypt_text app room_ct = Inr room"
      "decrypt_text app (s_nonce_ciphertext session) = Inr nonce"
    and body: "matrix_encode (crates_of app) (Result (s_session_id session) nonce (o_now (orcs 1) 0) True (Some (as_sub a)) None) = Inr body"
    and sink: "o_sink (orcs 1) room body = Inr ()"
  shows "\<exists>w'. tick app orcs w = (Inr (), w')
    \<and> w_posts w' = w_posts w @ [\<lparr>sp_domain = s_domain session, sp_path = ''/pseud0/web-login/assertions'', sp_body = payload,
        sp_key = Some (j_jti job)\<rparr>]
    \<and> w_outbox w' = w_outbox w @ [\<lparr>on_room_id = room, on_body = body\<rparr>]
    \<and> sessions (w_db w') = map (\<lambda>x. if x = session then session\<lparr>s_state := ''ASSERTION_DELIVERED'', s_version := s_version session + 1\<rparr>
        else x) (sessions (w_db w))
    \<and> delivery_jobs (w_db w') = map (\<lambda>j. if j = job then (claimed (o_db_now (orcs 0)) job)\<lparr>j_status := ''delivered''\<rparr> else j)
        (delivery_jobs (w_db w))
    \<and> deliveries (w_metrics w') = deliveries (w_metrics w) + 1"
proof -
  let ?now = "o_db_now (orcs 0)"
  define db1 where "db1 = (w_db w)\<lparr>delivery_jobs := map (\<lambda>j. if j = job then claimed ?now j else j) (delivery_jobs (w_db w))\<rparr>"
  note claim = claim_only [OF ok due, folded db1_def]
  have ok1: "schema_ok db1" using claim_stmt.keeps [OF ok, of ?now 10] claim by simp
  define db2 where "db2 = snd (cas_update (s_id session) (s_version session) ''ASSERTION_DELIVERED'' no_update db1)"
  define w2 where "w2 = w\<lparr>w_db := db2, w_posts := w_posts w @ [\<lparr>sp_domain = s_domain session, sp_path = ASSERTION_PATH, sp_body = payload,
    sp_key = Some (j_jti job)\<rparr>], w_outbox := w_outbox w @ [\<lparr>on_room_id = room, on_body = body\<rparr>]\<rparr>"
  have "deliver app (orcs 1) (claimed ?now job) (w\<lparr>w_db := db1\<rparr>) = (Inr (), w2)"
    using deliver_accepted [of "orcs 1" "w\<lparr>w_db := db1\<rparr>" session "claimed ?now job" app payload response a room_ct room nonce body]
      calm ok1 row job site parsed room body sink
    by (simp add: db1_def claimed_def ASSERTION_PATH_def w2_def db2_def)
  then have tick: "tick app orcs w = (Inr (), snd (inc (\<lambda>m. m\<lparr>deliveries := deliveries m + 1\<rparr>)
      (w2\<lparr>w_db := snd (set_job_status ''delivered'' (j_id job) db2)\<rparr>)))"
    using autocommit_calm [OF calm [rule_format, of 0], of "claim_due ?now 10" w "[claimed ?now job]" db1] claim
      autocommit_calm [OF calm [rule_format, of "Suc (Suc 0)"], of "set_job_status ''delivered'' (j_id job)" w2 "()"]
    by (simp add: tick_def bnd_def mark_delivered_def inc_def claimed_def w2_def set_job_status_def)
  have jobs2: "delivery_jobs db2 = delivery_jobs db1" by (simp add: db2_def frame)
  have "delivery_jobs (snd (set_job_status ''delivered'' (j_id job) db2))
      = map (\<lambda>j. if j = job then (claimed ?now job)\<lparr>j_status := ''delivered''\<rparr> else j) (delivery_jobs (w_db w))"
    using only_due(2) [OF ok due(1)] by (auto simp: set_job_status_def jobs2 db1_def claimed_def)
  moreover have "sessions db2 = map (\<lambda>x. if x = session then session\<lparr>s_state := ''ASSERTION_DELIVERED'', s_version := s_version session + 1\<rparr>
      else x) (sessions (w_db w))"
    using cas_update_once(2) [OF ok1, of session] row
    by (simp add: db2_def db1_def apply_update_def no_update_def coalesce_def)
  ultimately show ?thesis using tick by (simp add: inc_def w2_def ASSERTION_PATH_def frame)
qed

end
