(* ===== verification/Login_Completion.thy ===== *)
theory Login_Completion
  imports Delivery_Completion Consent_Properties
begin

text \<open>
  The login service and the delivery worker together: what becomes of a consent, from the message in the
  room to the site's answer and back to the room.
\<close>

subsection \<open>Reading an assertion back\<close>

definition assertion_entries :: "RelayAssertion \<Rightarrow> (string \<times> Value) list" where
  "assertion_entries a =
     [(''version'', json_int (as_version a)), (''iss'', String (as_iss a)), (''aud'', String (as_aud a)),
      (''sub'', String (as_sub a)), (''sessionId'', String (as_session_id a)), (''nonce'', String (as_nonce a)),
      (''jti'', String (as_jti a)), (''iat'', json_int (as_iat a)), (''nbf'', json_int (as_nbf a)),
      (''exp'', json_int (as_exp a)), (''displayName'', String (as_display_name a)),
      (''subjectKeyVersion'', json_int (as_subject_key_version a)), (''kid'', String (as_kid a)),
      (''signature'', String (as_signature a))]"

lemma assertion_to_bytes_entries: "assertion_to_bytes c a = ok_or (Problem InternalError) (json_to_vec c (Object (assertion_entries a)))"
  by (simp add: assertion_to_bytes_def assertion_entries_def)

lemma struct_fields_plain:
  assumes "distinct (map fst fs)" "\<forall>k \<in> set (map fst fs). k \<in> set names"
  shows "struct_fields names (Object (btree_of fs)) = Some (map (map_of fs) names)"
  using assms by (auto simp: struct_fields_def list_all_iff btree_of_entries btree_of_lookup)

lemma assertion_from_entries:
  assumes "in_i64 (as_version a)" "in_i64 (as_iat a)" "in_i64 (as_nbf a)" "in_i64 (as_exp a)" "in_i32 (as_subject_key_version a)"
  shows "assertion_from_value (Object (btree_of (assertion_entries a))) = Some a"
  using assms by (simp add: assertion_from_value_def struct_fields_plain assertion_entries_def)

lemma assertion_reads_back:
  assumes "json_text_ok c (assertion_entries a) payload"
    and "in_i64 (as_version a)" "in_i64 (as_iat a)" "in_i64 (as_nbf a)" "in_i64 (as_exp a)" "in_i32 (as_subject_key_version a)"
  shows "assertion_to_bytes c a = Inr payload" "from_slice (json_parse c) assertion_from_value payload = Inr a"
  using assms assertion_from_entries [OF assms(2-)]
  by (auto simp: json_text_ok_def assertion_to_bytes_entries ok_or_def intro: from_sliceI)

subsection \<open>From the consent to the site and back\<close>

lemma at_rest_readable:
  assumes "aead_ok (crates_of app) (at_rest app)" "calm orc" "at_rest_encrypt app orc k p = Inr ct"
  shows "decrypt (crates_of app) (at_rest app) ct = Inr p"
  using decrypt_encrypt [OF assms(1), of "o_rng orc k NONCE_LEN" p ct] assms(2,3)
  by (simp add: at_rest_encrypt_def calm_def NONCE_LEN_def)

lemma stored_text_readable: "stored_text app column = Some x \<Longrightarrow> \<exists>ct. column = Some ct \<and> decrypt_text app ct = Inr x"
  by (cases column; cases "decrypt (crates_of app) (at_rest app) (the column)")
    (auto simp: stored_text_def decrypt_text_def ok_def split: if_splits)

definition consented_row :: "InboundEvent \<Rightarrow> bytes \<Rightarrow> string \<Rightarrow> bytes \<Rightarrow> SessionRow \<Rightarrow> SessionRow" where
  "consented_row event display_ct jti ct session = apply_update ''CONSENT_RECEIVED'' (consent_update event display_ct jti ct) session"

lemma consented_row_simps [simp]:
  "s_domain (consented_row e d j c r) = s_domain r" "s_session_id (consented_row e d j c r) = s_session_id r"
  "s_nonce_hash (consented_row e d j c r) = s_nonce_hash r" "s_nonce_ciphertext (consented_row e d j c r) = s_nonce_ciphertext r"
  "s_request_room_ciphertext (consented_row e d j c r) = s_request_room_ciphertext r"
  "s_version (consented_row e d j c r) = s_version r + 1" "s_id (consented_row e d j c r) = s_id r"
  "s_consent_event_id (consented_row e d j c r) = Some (ev_event_id e)" "s_assertion_jti (consented_row e d j c r) = Some j"
  by (simp_all add: consented_row_def apply_update_def consent_update_def no_update_def coalesce_def)

lemma consent_queued:
  assumes tx: "approve_tx app orc event s n (Some display) (s_nonce_hash session) (o_now orc 0) session st1 = (Inr x, st)"
    and st1: "tx_db st1 = snd (reserve_consent_event e expiry db)" and ok: "schema_ok db" and row: "session \<in> set (sessions db)"
    and sub: "derive_pairwise_sub (crates_of app) (subject_secret app) (s_domain session) (ev_sender event) = Inr sub"
    and sign: "assertion_sign (crates_of app) (signing_key app) (signing_kid app) (s_domain session) sub s n
       (fresh_jti app orc 2) (o_now orc 0) (min (s_exp session) (wrapping_add (o_now orc 0) MAX_TTL_MS)) display
       (subject_key_version app) = Inr a"
    and bytes: "assertion_to_bytes (crates_of app) a = Inr payload"
    and fresh: "\<not> list_ex (\<lambda>j. j_jti j = fresh_jti app orc 2) (delivery_jobs db)"
  obtains display_ct ct ct' where "schema_ok (tx_db st)" "at_rest_encrypt app orc 3 payload = Inr ct"
    "sessions (tx_db st) = map (\<lambda>x. if x = session then consented_row event display_ct (fresh_jti app orc 2) ct' session else x) (sessions db)"
    "delivery_jobs (tx_db st) = delivery_jobs db @ [assertion_job orc db (s_domain session) (fresh_jti app orc 2) ct s (s_nonce_hash session)]"
proof -
  have ok1: "schema_ok (tx_db st1)" unfolding st1 by (rule consent_events.keeps [OF ok])
  have same: "sessions (tx_db st1) = sessions db" "delivery_jobs (tx_db st1) = delivery_jobs db"
    "assertion_job orc (tx_db st1) = assertion_job orc db"
    by (simp_all add: st1 frame assertion_job_def fun_eq_iff)
  obtain display_ct ct' where st: "schema_ok (tx_db st)"
    "sessions (tx_db st) = map (\<lambda>x. if x = session then consented_row event display_ct (fresh_jti app orc 2) ct' session else x) (sessions db)"
    by (rule approve_tx_row [OF tx ok1, unfolded same]) (use row in \<open>auto simp: consented_row_def\<close>)
  from tx show thesis
    by (rule approve_tx_jobs) (use st that sub sign bytes fresh in \<open>auto simp: same\<close>)
qed

lemma signed_assertion_reads_back:
  assumes sign: "assertion_sign c key kid aud sub s n jti now (min e (wrapping_add now MAX_TTL_MS)) display kv = Inr a"
    and json: "json_text_ok c (assertion_entries a) payload" "in_i64 now" "in_i64 e" "in_i32 kv"
  shows "assertion_to_bytes c a = Inr payload" "from_slice (json_parse c) assertion_from_value payload = Inr a" "as_sub a = sub"
proof -
  have fields: "as_version a = 1" "as_iat a = now" "as_nbf a = now" "as_subject_key_version a = kv"
    "as_exp a = min e (wrapping_add now MAX_TTL_MS)" "as_sub a = sub"
    using sign by (auto elim!: assertion_sign_InrE simp: unsigned_assertion_def)
  have "in_i64 (as_exp a)" using json(3) wrapping_add_range [of now MAX_TTL_MS] by (auto simp: fields(5) min_def)
  from assertion_reads_back [OF json(1), unfolded fields(1-4), OF _ json(2,2) this json(4)]
  show "assertion_to_bytes c a = Inr payload" "from_slice (json_parse c) assertion_from_value payload = Inr a"
    by (simp_all add: in_i64_def)
qed (use sign in \<open>auto elim!: assertion_sign_InrE simp: unsigned_assertion_def\<close>)

lemma updated_rows:
  assumes "schema_ok db" "session \<in> set (sessions db)" "s_id r = s_id session"
  shows "map (\<lambda>x. if x = r then r' else x) (map (\<lambda>x. if x = session then r else x) (sessions db))
    = map (\<lambda>x. if x = session then r' else x) (sessions db)"
  using assms by (auto simp: schema_ok_def unique_ids_def distinct_map inj_on_def)

text \<open>
  A verified consent and the next tick of the delivery worker, when nothing outside fails.
\<close>

lemma consent_reaches_site:
  assumes ok: "schema_ok (w_db w)" and calm: "calm orc" "\<forall>k. calm (orcs k)"
    and crypto: "hmac_ok (crates_of app)" "aead_ok (crates_of app) (at_rest app)"
    and row: "session \<in> set (sessions (w_db w))" "s_version session + 1 < i32_max"
    and only: "fst (get_by_session_and_nonce (s_session_id session) (s_nonce_hash session) (w_db w)) = Inr (Some session)"
    and hashes: "keyed_hash (crates_of app) (lookup_pepper app) n = Inr (s_nonce_hash session)"
      "keyed_hash (crates_of app) (lookup_pepper app) ch = Inr h" "s_challenge_hash session = Some h"
    and sig: "consent_signed_bytes (crates_of app) True ch (Some display) n (s_session_id session) t = Inr msg"
      "verify_consent_signature (crates_of app) k msg sg = Inr ()"
    and live: "o_now orc 0 \<le> s_exp session" "sent_at_in_qr_window t (s_iat session) (s_exp session)"
      "case s_challenge_expires_at session of None \<Rightarrow> True | Some e \<Rightarrow> t \<le> e \<and> o_now orc 0 \<le> e"
    and same: "stored_text app (s_request_sender_ciphertext session) = Some (ev_sender event)"
      "stored_text app (s_request_room_ciphertext session) = Some (ev_room_id event)" "decrypt_text app (s_nonce_ciphertext session) = Inr n"
    and expiry: "until app (s_exp session) = Inr expiry"
    and fresh: "ev_event_id event \<notin> fst ` set (replay_consent_event_ids (w_db w))"
      "fresh_jti app orc 2 \<notin> fst ` set (replay_assertion_jtis (w_db w))"
      "\<forall>j \<in> set (delivery_jobs (w_db w)). j_jti j \<noteq> fresh_jti app orc 2 \<and> \<not> job_due (o_db_now (orcs 0)) j"
    and sub: "derive_pairwise_sub (crates_of app) (subject_secret app) (s_domain session) (ev_sender event) = Inr sub"
    and sign: "assertion_sign (crates_of app) (signing_key app) (signing_kid app) (s_domain session) sub (s_session_id session) n
       (fresh_jti app orc 2) (o_now orc 0) (min (s_exp session) (wrapping_add (o_now orc 0) MAX_TTL_MS)) display
       (subject_key_version app) = Inr a"
    and json: "json_text_ok (crates_of app) (assertion_entries a) payload"
      "in_i64 (o_now orc 0)" "in_i64 (s_exp session)" "in_i32 (subject_key_version app)"
    and later: "o_db_now orc \<le> o_db_now (orcs 0)"
    and site: "o_post (orcs 1) (s_domain session) ''/pseud0/web-login/assertions'' payload (Some (fresh_jti app orc 2)) = Inr response"
      "sr_status response \<in> {200, 202}"
    and body: "matrix_encode (crates_of app) (Result (s_session_id session) n (o_now (orcs 1) 0) True (Some sub) None) = Inr body"
    and sink: "o_sink (orcs 1) (ev_room_id event) body = Inr ()"
  shows "\<exists>w1 w2 r j. process_consent app orc event (s_session_id session) n t True (Some display) ch k sg w = (Inr Sent, w1)
    \<and> tick app orcs w1 = (Inr (), w2)
    \<and> w_posts w2 = w_posts w @ [\<lparr>sp_domain = s_domain session, sp_path = ''/pseud0/web-login/assertions'', sp_body = payload,
        sp_key = Some (fresh_jti app orc 2)\<rparr>]
    \<and> w_outbox w2 = w_outbox w @ [\<lparr>on_room_id = ev_room_id event, on_body = body\<rparr>]
    \<and> sessions (w_db w2) = map (\<lambda>x. if x = session then r else x) (sessions (w_db w))
    \<and> s_state r = ''ASSERTION_DELIVERED'' \<and> s_version r = s_version session + 2 \<and> s_session_id r = s_session_id session
    \<and> s_consent_event_id r = Some (ev_event_id event) \<and> s_assertion_jti r = Some (fresh_jti app orc 2)
    \<and> delivery_jobs (w_db w2) = delivery_jobs (w_db w) @ [j] \<and> j_jti j = fresh_jti app orc 2 \<and> j_status j = ''delivered''"
proof -
  note pay = signed_assertion_reads_back [OF sign json]
  have v: "s_version session \<noteq> i32_max" using row(2) by simp
  obtain st1 st where run: "process_consent app orc event (s_session_id session) n t True (Some display) ch k sg w
      = (Inr Sent, w\<lparr>w_db := tx_db st, w_metrics := (w_metrics w)\<lparr>consents := consents (w_metrics w) + 1\<rparr>\<rparr>)"
    and tx: "approve_tx app orc event (s_session_id session) n (Some display) (s_nonce_hash session) (o_now orc 0) session st1
      = (Inr (Committed ConsentAccepted), st)" "tx_db st1 = snd (reserve_consent_event (ev_event_id event) expiry (w_db w))"
    by (rule consent_commits [OF ok calm(1) crypto row(1) v only hashes sig live same(1,2) expiry fresh(1,2) sub sign pay(1)])
  let ?w1 = "w\<lparr>w_db := tx_db st, w_metrics := (w_metrics w)\<lparr>consents := consents (w_metrics w) + 1\<rparr>\<rparr>"
  have new: "\<not> list_ex (\<lambda>j. j_jti j = fresh_jti app orc 2) (delivery_jobs (w_db w))" using fresh(3) by (auto simp: list_ex_iff)
  obtain display_ct ct ct' where st: "schema_ok (tx_db st)" "at_rest_encrypt app orc 3 payload = Inr ct"
    "sessions (tx_db st) = map (\<lambda>x. if x = session then consented_row event display_ct (fresh_jti app orc 2) ct' session else x) (sessions (w_db w))"
    "delivery_jobs (tx_db st) = delivery_jobs (w_db w) @ [assertion_job orc (w_db w) (s_domain session) (fresh_jti app orc 2) ct
       (s_session_id session) (s_nonce_hash session)]"
    by (rule consent_queued [OF tx ok row(1) sub sign pay(1) new])
  let ?r = "consented_row event display_ct (fresh_jti app orc 2) ct' session"
  let ?j = "assertion_job orc (w_db w) (s_domain session) (fresh_jti app orc 2) ct (s_session_id session) (s_nonce_hash session)"
  obtain room_ct where room: "s_request_room_ciphertext session = Some room_ct" "decrypt_text app room_ct = Inr (ev_room_id event)"
    using stored_text_readable [OF same(2)] by blast
  have due: "filter (job_due (o_db_now (orcs 0))) (delivery_jobs (w_db ?w1)) = [?j]"
    using fresh(3) later by (simp add: st(4) filter_empty_conv) (simp add: job_due_def assertion_job_def)
  have job: "j_kind ?j = ''assertion''" "j_domain ?j = s_domain session" "j_session_id ?j = s_session_id session"
    "j_nonce_hash ?j = s_nonce_hash session" "j_payload_ciphertext ?j = ct" "j_jti ?j = fresh_jti app orc 2" "j_attempts ?j = 0"
    by (simp_all add: assertion_job_def)
  have "\<exists>w'. tick app orcs ?w1 = (Inr (), w')
    \<and> w_posts w' = w_posts ?w1 @ [\<lparr>sp_domain = s_domain ?r, sp_path = ''/pseud0/web-login/assertions'', sp_body = payload,
        sp_key = Some (j_jti ?j)\<rparr>]
    \<and> w_outbox w' = w_outbox ?w1 @ [\<lparr>on_room_id = ev_room_id event, on_body = body\<rparr>]
    \<and> sessions (w_db w') = map (\<lambda>x. if x = ?r then ?r\<lparr>s_state := ''ASSERTION_DELIVERED'', s_version := s_version ?r + 1\<rparr>
        else x) (sessions (w_db ?w1))
    \<and> delivery_jobs (w_db w') = map (\<lambda>j. if j = ?j then (claimed (o_db_now (orcs 0)) ?j)\<lparr>j_status := ''delivered''\<rparr> else j)
        (delivery_jobs (w_db ?w1))
    \<and> deliveries (w_metrics w') = deliveries (w_metrics ?w1) + 1"
    by (rule delivery_completes [where nonce = n and room_ct = room_ct and response = response and a = a, OF calm(2) _ due])
      (use st(1) row at_rest_readable [OF crypto(2) calm(1) st(2)] site pay(2) room same(3) body sink
        in \<open>auto simp: job st(3) pay(3)\<close>)
  then obtain w' where w': "tick app orcs ?w1 = (Inr (), w')"
    "w_posts w' = w_posts w @ [\<lparr>sp_domain = s_domain session, sp_path = ''/pseud0/web-login/assertions'', sp_body = payload,
        sp_key = Some (fresh_jti app orc 2)\<rparr>]"
    "w_outbox w' = w_outbox w @ [\<lparr>on_room_id = ev_room_id event, on_body = body\<rparr>]"
    "sessions (w_db w') = map (\<lambda>x. if x = session then ?r\<lparr>s_state := ''ASSERTION_DELIVERED'', s_version := s_version ?r + 1\<rparr> else x)
       (sessions (w_db w))"
    "delivery_jobs (w_db w') = map (\<lambda>j. if j = ?j then (claimed (o_db_now (orcs 0)) ?j)\<lparr>j_status := ''delivered''\<rparr> else j)
       (delivery_jobs (w_db w)) @ [(claimed (o_db_now (orcs 0)) ?j)\<lparr>j_status := ''delivered''\<rparr>]"
    by (auto simp: st(3,4) job(6) updated_rows [OF ok row(1)] simp del: map_map)
  moreover have "map (\<lambda>j. if j = ?j then j' else j) (delivery_jobs (w_db w)) = delivery_jobs (w_db w)" for j'
    by (rule map_idI) (use fresh(3) job(6) in auto)
  ultimately show ?thesis
    by (intro exI [of _ ?w1] exI [of _ w'] exI [of _ "?r\<lparr>s_state := ''ASSERTION_DELIVERED'', s_version := s_version ?r + 1\<rparr>"]
        exI [of _ "(claimed (o_db_now (orcs 0)) ?j)\<lparr>j_status := ''delivered''\<rparr>"]) (simp add: run claimed_def job(6))
qed

subsection \<open>A concrete login\<close>

text \<open>The crates of the demo with another JSON writer and parser.\<close>

lemma json_swap:
  fixes c :: crates and F P
  defines "c' \<equiv> c\<lparr>json_to_vec := F, json_parse := P\<rparr>"
  shows "base64url_encode c' = base64url_encode c" "keyed_hash c' = keyed_hash c" "decrypt c' = decrypt c"
    "derive_pairwise_sub c' = derive_pairwise_sub c" "consent_signed_bytes c' = consent_signed_bytes c"
    "verify_consent_signature c' = verify_consent_signature c" "assertion_sign c' = assertion_sign c"
    "millis_to_utc c' = millis_to_utc c" "hmac_ok c' = hmac_ok c" "aead_ok c' = aead_ok c"
  unfolding c'_def fun_eq_iff
  by (simp_all add: base64url_encode_def keyed_hash_def decrypt_def derive_pairwise_sub_def consent_signed_bytes_def
      verify_consent_signature_def decode_p256_did_key_def base64url_decode_def assertion_sign_def assertion_canonical_def ed25519_sign_def
      millis_to_utc_def hmac_ok_def aead_ok_def Let_def cong: option.case_cong if_cong)

definition demo_sub :: string where
  "demo_sub = projr (derive_pairwise_sub demo_crates (subject_secret demo_app) ''a.org'' ''@a'')"

definition demo_assertion :: RelayAssertion where
  "demo_assertion = projr (assertion_sign demo_crates (signing_key demo_app) (signing_kid demo_app) ''a.org'' demo_sub demo_sid demo_nonce
     (fresh_jti demo_app demo_oracles 2) 100 200 ''Al'' 1)"

definition demo_trees :: "bytes \<Rightarrow> jtext" where
  "demo_trees s = (if s = ''doc'' then (let a = demo_assertion in TMap
     [(''version'', TI64 (as_version a)), (''iss'', TStr (as_iss a)), (''aud'', TStr (as_aud a)),
      (''sub'', TStr (as_sub a)), (''sessionId'', TStr (as_session_id a)), (''nonce'', TStr (as_nonce a)),
      (''jti'', TStr (as_jti a)), (''iat'', TI64 (as_iat a)), (''nbf'', TI64 (as_nbf a)), (''exp'', TI64 (as_exp a)),
      (''displayName'', TStr (as_display_name a)), (''subjectKeyVersion'', TI64 (as_subject_key_version a)), (''kid'', TStr (as_kid a)),
      (''signature'', TStr (as_signature a))])
   else TMap
     [(''kind'', TStr ''consent''), (''sessionId'', TStr demo_sid), (''nonce'', TStr demo_nonce), (''sentAt'', TI64 100),
      (''approved'', TBool True), (''displayName'', TStr ''Al''), (''challenge'', TStr demo_challenge), (''keyId'', TStr demo_key),
      (''signature'', TStr (demo_signature True (Some ''Al'')))])"

definition demo_login_app :: AppState where
  "demo_login_app = demo_app\<lparr>crates_of := demo_crates\<lparr>json_to_vec := (\<lambda>_. Some ''doc''), json_parse := (\<lambda>s. Some (demo_trees s))\<rparr>\<rparr>"

lemma demo_login_crates: "crates_of demo_login_app = demo_crates\<lparr>json_to_vec := (\<lambda>_. Some ''doc''), json_parse := (\<lambda>s. Some (demo_trees s))\<rparr>"
  and demo_login_app_simps: "at_rest demo_login_app = at_rest demo_app" "lookup_pepper demo_login_app = lookup_pepper demo_app"
  "subject_secret demo_login_app = subject_secret demo_app" "signing_key demo_login_app = signing_key demo_app"
  "signing_kid demo_login_app = signing_kid demo_app" "subject_key_version demo_login_app = 1" "relay_user_id demo_login_app = ''@relay''"
  by (simp_all add: demo_login_app_def demo_app_def)

lemmas demo_login = demo_login_app_simps demo_login_crates json_swap

lemma demo_login_stored: "stored_text demo_login_app = stored_text demo_app" "decrypt_text demo_login_app = decrypt_text demo_app"
  "until demo_login_app = until demo_app" "at_rest_encrypt demo_login_app = at_rest_encrypt demo_app"
  by (simp_all add: fun_eq_iff stored_text_def decrypt_text_def until_def at_rest_encrypt_def encrypt_def demo_login)

lemma demo_login_facts:
  obtains b where "consent_signed_bytes demo_crates True demo_challenge (Some ''Al'') demo_nonce demo_sid 100 = Inr b"
    "verify_consent_signature demo_crates demo_key b (demo_signature True (Some ''Al'')) = Inr ()"
    "derive_pairwise_sub demo_crates (subject_secret demo_app) ''a.org'' ''@a'' = Inr demo_sub"
    "assertion_sign demo_crates (signing_key demo_app) (signing_kid demo_app) ''a.org'' demo_sub demo_sid demo_nonce
      (fresh_jti demo_app demo_oracles 2) 100 200 ''Al'' 1 = Inr demo_assertion"
    "\<exists>mac. demo_sub = base64url_encode demo_crates mac \<and> length mac = 32"
proof (rule demo_consent_facts)
  fix b mac a
  have ttl: "min 200 (wrapping_add 100 MAX_TTL_MS) = 200" by (simp add: wrapping_add_def MAX_TTL_MS_def)
  assume sig: "consent_signed_bytes demo_crates True demo_challenge (Some ''Al'') demo_nonce demo_sid 100 = Inr b"
      "verify_consent_signature demo_crates demo_key b (demo_signature True (Some ''Al'')) = Inr ()"
    and sub: "derive_pairwise_sub demo_crates (subject_secret demo_app) ''a.org'' ''@a'' = Inr (base64url_encode demo_crates mac)" "length mac = 32"
    and a: "assertion_sign demo_crates (signing_key demo_app) (signing_kid demo_app) ''a.org'' (base64url_encode demo_crates mac) demo_sid demo_nonce
      (fresh_jti demo_app demo_oracles 2) 100 (min 200 (wrapping_add 100 MAX_TTL_MS)) ''Al'' (subject_key_version demo_app) = Inr a"
  have "demo_sub = base64url_encode demo_crates mac" by (simp add: demo_sub_def sub)
  moreover have "a = demo_assertion" using a by (simp add: demo_assertion_def calculation ttl) (simp add: demo_app_def)
  ultimately show thesis using sig sub a ttl by (intro that) (auto simp: demo_app_def)
qed

lemma demo_assertion_text: "json_text_ok (crates_of demo_login_app) (assertion_entries demo_assertion) ''doc''"
proof -
  have "utf8_valid ''doc''" by code_simp
  moreover have "strict_ok (demo_trees ''doc'')" by (simp add: demo_trees_def Let_def)
  moreover have "plain_value (demo_trees ''doc'') = Object (btree_of (assertion_entries demo_assertion))"
    by (simp only: demo_trees_def assertion_entries_def Let_def btree_of_def plain_value.simps simp_thms if_True list.map map_prod_simp id_apply)
  ultimately show ?thesis by (simp add: json_text_ok_def demo_login_crates)
qed

lemma demo_result_encoded:
  "\<exists>body. matrix_encode (crates_of demo_login_app) (Result demo_sid demo_nonce 100 True (Some demo_sub) None) = Inr body"
proof (rule demo_login_facts)
  assume "\<exists>mac. demo_sub = base64url_encode demo_crates mac \<and> length mac = 32"
  then obtain mac where mac: "demo_sub = base64url_encode demo_crates mac" "length mac = 32" by blast
  from base64_engine.enc_account [OF demo_base64 mac(2)]
  have "validate_site_account_id demo_sub = Inr ()" by (simp add: mac base64url_encode_def)
  moreover have "validate_id demo_sid = Inr ()" "validate_id demo_nonce = Inr ()" by code_simp+
  ultimately show ?thesis by (simp add: matrix_encode_def demo_login_crates check_opt_def ok_or_def MAX_DECODED_BODY_def)
qed

end
