(* ===== verification/Relay_Ledger.thy ===== *)
theory Relay_Ledger
  imports Relay_Runs
begin

text \<open>
  The abstract specification of the session store: a ledger from (domain, session id) to the nonce hash,
  the expiry and the challenge of a session. A ledger only ever gains sessions without challenge and
  gives a session without challenge one; the relay, with all its tables and interleavings, implements
  it step by step.
\<close>

subsection \<open>The ledger\<close>

type_synonym ledger = "string \<times> string \<rightharpoonup> bytes \<times> int \<times> bytes option"

inductive ledger_step :: "ledger \<Rightarrow> ledger \<Rightarrow> bool" where
  stay: "ledger_step L L"
| register: "L k = None \<Longrightarrow> ledger_step L (L(k \<mapsto> (n, e, None)))"
| challenge: "L k = Some (n, e, None) \<Longrightarrow> ledger_step L (L(k \<mapsto> (n, e, Some h)))"

inductive_cases ledger_stepE: "ledger_step L L'"

definition entry :: "SessionRow \<Rightarrow> (string \<times> string) \<times> bytes \<times> int \<times> bytes option" where
  "entry r = ((s_domain r, s_session_id r), s_nonce_hash r, s_exp r, s_challenge_hash r)"

definition ledger_of :: "database \<Rightarrow> ledger" where
  "ledger_of db = map_of (map entry (sessions db))"

text \<open>The ledger forgets nothing and never changes a challenge.\<close>

lemma ledger_run_keeps:
  assumes "ledger_step\<^sup>*\<^sup>* L L'" "L k = Some (n, e, c)"
  shows "\<exists>c'. L' k = Some (n, e, c') \<and> (c = None \<or> c' = c)"
  using assms
  by (induction rule: rtranclp_induct) (auto elim!: ledger_stepE)

subsection \<open>How a step changes the table of sessions\<close>

definition session_change :: "SessionRow list \<Rightarrow> SessionRow list \<Rightarrow> bool" where
  "session_change rows rows' \<longleftrightarrow> rows' = rows
     \<or> (\<exists>r. rows' = rows @ [r] \<and> s_challenge_hash r = None \<and> fst (entry r) \<notin> fst ` entry ` set rows)
     \<or> (\<exists>r r'. r \<in> set rows \<and> rows' = map (\<lambda>x. if x = r then r' else x) rows \<and> fst (entry r') = fst (entry r)
          \<and> s_nonce_hash r' = s_nonce_hash r \<and> s_exp r' = s_exp r
          \<and> (s_challenge_hash r' = s_challenge_hash r \<or> (s_challenge_hash r = None \<and> s_challenge_hash r' \<noteq> None)))"

lemma map_of_replace:
  assumes "distinct (map (fst \<circ> entry) rows)" "r \<in> set rows" "fst (entry r') = fst (entry r)"
  shows "map_of (map entry (map (\<lambda>x. if x = r then r' else x) rows)) = (map_of (map entry rows)) (fst (entry r) \<mapsto> snd (entry r'))"
  using assms(1,2)
proof (induction rows)
  case (Cons x rows)
  show ?case
  proof (cases "x = r")
    case True
    with Cons.prems have "r \<notin> set rows" by auto
    then have "map (\<lambda>x. if x = r then r' else x) rows = rows" by (auto intro: map_idI)
    with True assms(3) show ?thesis by (cases "entry r'"; cases "entry r") (auto simp: fun_eq_iff)
  next
    case False
    with Cons have "r \<in> set rows" by auto
    moreover from this Cons.prems(1) have "fst (entry x) \<noteq> fst (entry r)" by force
    ultimately show ?thesis
      using False Cons.IH Cons.prems(1) by (cases "entry x") (intro ext, auto simp del: map_map)
  qed
qed simp

lemma session_change_ledger:
  assumes "schema_ok db" "session_change (sessions db) (sessions db')"
  shows "ledger_step (ledger_of db) (ledger_of db')"
proof -
  have dist: "distinct (map (fst \<circ> entry) (sessions db))" using assms(1) by (simp add: schema_ok_def entry_def comp_def)
  from assms(2) consider "sessions db' = sessions db"
    | r where "sessions db' = sessions db @ [r]" "s_challenge_hash r = None" "fst (entry r) \<notin> fst ` entry ` set (sessions db)"
    | r r' where "r \<in> set (sessions db)" "sessions db' = map (\<lambda>x. if x = r then r' else x) (sessions db)" "fst (entry r') = fst (entry r)"
        "s_nonce_hash r' = s_nonce_hash r" "s_exp r' = s_exp r"
        "s_challenge_hash r' = s_challenge_hash r \<or> (s_challenge_hash r = None \<and> s_challenge_hash r' \<noteq> None)"
    unfolding session_change_def by blast
  then show ?thesis
  proof cases
    case 1
    then show ?thesis by (simp add: ledger_of_def ledger_step.stay)
  next
    case (2 r)
    have none: "ledger_of db (fst (entry r)) = None" using 2(3) by (simp add: ledger_of_def map_of_eq_None_iff)
    have "ledger_of db' = (ledger_of db) (fst (entry r) \<mapsto> (s_nonce_hash r, s_exp r, None))"
      using none 2(1,2) by (auto simp: ledger_of_def entry_def fun_eq_iff map_add_def split: option.splits)
    with ledger_step.register [of "ledger_of db", OF none] show ?thesis by simp
  next
    case (3 r r')
    have new: "ledger_of db' = (ledger_of db) (fst (entry r) \<mapsto> snd (entry r'))"
      using map_of_replace [OF dist 3(1,3)] 3(2) by (simp add: ledger_of_def)
    have old: "ledger_of db (fst (entry r)) = Some (snd (entry r))"
      unfolding ledger_of_def using dist 3(1) by (intro map_of_is_SomeI) (auto simp: comp_def)
    show ?thesis
    proof (cases "s_challenge_hash r' = s_challenge_hash r")
      case True
      with 3 have "snd (entry r') = snd (entry r)" by (simp add: entry_def)
      with new old have "ledger_of db' = ledger_of db" by (auto simp: fun_eq_iff)
      then show ?thesis by (simp add: ledger_step.stay)
    next
      case False
      with 3 obtain h where "snd (entry r) = (s_nonce_hash r, s_exp r, None)" "snd (entry r') = (s_nonce_hash r, s_exp r, Some h)"
        by (auto simp: entry_def)
      with ledger_step.challenge [of "ledger_of db"] old new show ?thesis by simp
    qed
  qed
qed

subsection \<open>Every handler makes one ledger step\<close>

lemma cas_change:
  assumes "schema_ok db" "session \<in> set (sessions db)" "u_challenge_hash u = None \<or> s_challenge_hash session = None"
  shows "session_change (sessions db) (sessions (snd (cas_update (s_id session) (s_version session) st u db)))"
proof (cases "s_version session = i32_max")
  case True
  then show ?thesis using assms(2) by (auto simp: session_change_def cas_update_def Let_def list_ex_iff)
next
  case False
  have "s_challenge_hash (apply_update st u session) = s_challenge_hash session
      \<or> (s_challenge_hash session = None \<and> s_challenge_hash (apply_update st u session) \<noteq> None)"
    using assms(3) by (auto simp: apply_update_def coalesce_def split: option.splits)
  then show ?thesis
    unfolding cas_update_once(2) [OF assms(1,2) False] session_change_def
    by (intro disjI2 exI [of _ session] exI [of _ "apply_update st u session"])
      (use assms(2) in \<open>simp add: entry_def, simp add: apply_update_def\<close>)
qed

lemma cas_any_change:
  assumes "schema_ok db"
  shows "session_change (sessions db) (sessions (snd (cas_update i v st no_update db)))"
proof (cases "\<exists>r \<in> set (sessions db). s_id r = i \<and> s_version r = v")
  case True
  then obtain r where "r \<in> set (sessions db)" "s_id r = i" "s_version r = v" by blast
  with cas_change [OF assms, of r no_update] show ?thesis by (simp add: no_update_def)
next
  case False
  then have "sessions (snd (cas_update i v st no_update db)) = sessions db"
    by (auto simp: cas_update_def Let_def intro!: map_idI)
  then show ?thesis by (simp add: session_change_def)
qed

lemma request_session_change:
  assumes ok: "schema_ok (w_db w)" and run: "process_request app orc event s n t d w = (r, w')"
  shows "session_change (sessions (w_db w)) (sessions (w_db w'))"
proof (cases "w_db w' = w_db w")
  case False
  with process_request_db [OF run] obtain nonce_hash x st where
    tx: "request_tx app orc event s n t d nonce_hash (o_now orc 0) (start_tx w) = (Inr (Committed x), st)"
    and db: "w_db w' = tx_db st" by blast
  from tx show ?thesis
  proof (cases rule: request_tx_committed)
    case (fresh session expiry challenge h room_ct sender_ct)
    let ?db2 = "snd (reserve_challenge_hash h expiry (snd (reserve_request_event (ev_event_id event) expiry (w_db w))))"
    have ok2: "schema_ok ?db2" using ok by (intro challenge_hashes.keeps request_events.keeps)
    have mem: "session \<in> set (sessions ?db2)" using get_matching_memD [OF fresh(1)] by (simp add: frame)
    have "w_db w' = snd (cas_update (s_id session) (s_version session) ''CHALLENGE_SENT''
        (request_update app orc event session (o_now orc 0) h room_ct sender_ct) ?db2)" using fresh(12) db by simp
    then show ?thesis using cas_change [OF ok2 mem, of _ "''CHALLENGE_SENT''"] fresh(4) by (simp add: frame)
  qed (use db False in simp)
qed (simp add: session_change_def)

lemma approve_session_change:
  assumes ok: "schema_ok (tx_db st)" and mem: "session \<in> set (sessions (tx_db st))"
    and run: "approve_tx app orc event s n name nonce_hash now session st = (Inr x, st')"
  shows "session_change (sessions (tx_db st)) (sessions (tx_db st'))"
  using run
proof (rule approve_tx_committed)
  fix subject_hash subject_ct user_ct expiry ct display_ct db1 db2 db3 updated
  let ?jti = "fresh_jti app orc 2"
  assume db1: "db1 = snd (upsert_grant (s_domain session) subject_hash subject_ct user_ct s nonce_hash (subject_key_version app) (tx_db st))"
    and res: "reserve_assertion_jti ?jti expiry db1 = (Inr (), db2)"
    and cas: "cas_update (s_id session) (s_version session) ''CONSENT_RECEIVED'' (consent_update event display_ct ?jti ct) db2 = (Inr updated, db3)"
    and enq: "tx_db st' = snd (enqueue (o_db_now orc) ''assertion'' (s_domain session) ?jti ct s nonce_hash db3)"
  have db2: "db2 = snd (reserve_assertion_jti ?jti expiry db1)" using res by simp
  have db3: "db3 = snd (cas_update (s_id session) (s_version session) ''CONSENT_RECEIVED'' (consent_update event display_ct ?jti ct) db2)"
    using cas by simp
  have ok2: "schema_ok db2" unfolding db2 db1 using ok by (intro assertion_jtis.keeps upsert_stmt.keeps)
  have mem2: "session \<in> set (sessions db2)" using mem by (simp add: db1 db2 frame)
  have "u_challenge_hash (consent_update event display_ct ?jti ct) = None" by (simp add: consent_update_def no_update_def)
  with cas_change [OF ok2 mem2, of "consent_update event display_ct ?jti ct" "''CONSENT_RECEIVED''"]
  show ?thesis by (simp add: enq db3 frame) (simp add: db2 db1 frame)
qed

lemma consent_session_change:
  assumes ok: "schema_ok (w_db w)" and run: "process_consent app orc event s n t approved name ch k sg w = (r, w')"
  shows "session_change (sessions (w_db w)) (sessions (w_db w'))"
proof (cases "w_db w' = w_db w")
  case False
  with run show ?thesis
  proof (rule consent_change)
    fix session expiry st1 x st
    let ?u = "no_update\<lparr>u_consent_event_id := Some (ev_event_id event)\<rparr>"
    assume mem: "session \<in> set (sessions (w_db w))"
      and res: "reserve_consent_event (ev_event_id event) expiry (w_db w) = (Inr (), tx_db st1)" and db: "w_db w' = tx_db st"
      and yes: "approved \<longrightarrow> approve_tx app orc event s n name (s_nonce_hash session) (o_now orc 0) session st1 = (Inr (Committed x), st)"
      and no: "\<not> approved \<longrightarrow> (\<exists>b. cas_update (s_id session) (s_version session) ''REFUSED'' ?u (tx_db st1) = (Inr b, tx_db st))"
    have st1: "tx_db st1 = snd (reserve_consent_event (ev_event_id event) expiry (w_db w))" using res by simp
    have ok1: "schema_ok (tx_db st1)" and mem1: "session \<in> set (sessions (tx_db st1))" and same: "sessions (tx_db st1) = sessions (w_db w)"
      using consent_events.keeps [OF ok] mem by (simp_all add: st1 frame)
    show ?thesis
    proof (cases approved)
      case True
      with yes approve_session_change [OF ok1 mem1] db same show ?thesis by metis
    next
      case False
      with no have "tx_db st = snd (cas_update (s_id session) (s_version session) ''REFUSED'' ?u (tx_db st1))" by (metis snd_conv)
      with cas_change [OF ok1 mem1, of ?u "''REFUSED''"] db same show ?thesis by (simp add: no_update_def)
    qed
  qed
qed (simp add: session_change_def)

lemma revocation_session_change:
  assumes ok: "schema_ok (w_db w)" and run: "process_revocation app orc event s n account why w = (r, w')"
  shows "session_change (sessions (w_db w)) (sessions (w_db w'))"
proof (cases "w_db w' = w_db w")
  case False
  with process_revocation_db [OF run] obtain nonce_hash subject_hash x st where
    tx: "revocation_tx app orc event s account (unwrap_or ''user_requested'' why) nonce_hash subject_hash (start_tx w) = (Inr (Committed x), st)"
    and db: "w_db w' = tx_db st" by blast
  from tx show ?thesis
  proof (cases rule: revocation_tx_committed)
    case (revoked session grant expiry rv bytes ct db1 db2 db3)
    have db2: "db2 = snd (reserve_revocation_jti (fresh_jti app orc 0) expiry db1)" using revoked(7) by simp
    have "schema_ok db3" unfolding revoked(11) db2 revoked(5)
      by (intro enqueue_stmt.keeps revocation_jtis.keeps revoke_stmt.keeps) (simp add: ok)
    from cas_any_change [OF this, of "s_id session" "s_version session" "''REVOKED''"] show ?thesis
      by (simp add: db revoked(12) [symmetric]) (simp add: revoked(11,5) db2 frame)
  qed (use db False in simp)
qed (simp add: session_change_def)

subsection \<open>Every step of the relay is a ledger step\<close>

definition one_change :: "world \<Rightarrow> world \<Rightarrow> bool" where
  "one_change w w' \<longleftrightarrow> (schema_ok (w_db w) \<longrightarrow> session_change (sessions (w_db w)) (sessions (w_db w')))"

lemma same_sessions: "sessions (w_db w') = sessions (w_db w) \<Longrightarrow> one_change w w'"
  by (simp add: one_change_def session_change_def)

lemma dispatch_change: "one_change w (snd (dispatch app orc event message w))"
proof (cases message)
  case (Request s n t d)
  obtain r w' where run: "process_request app orc event s n t d w = (r, w')" by fastforce
  with request_session_change [OF _ run] Request show ?thesis by (simp add: one_change_def dispatch_def)
next
  case (Consent s n t a name ch k sg)
  obtain r w' where run: "process_consent app orc event s n t a name ch k sg w = (r, w')" by fastforce
  with consent_session_change [OF _ run] Consent show ?thesis by (simp add: one_change_def dispatch_def)
next
  case (Revocation s n t account why)
  obtain r w' where run: "process_revocation app orc event s n account why w = (r, w')" by fastforce
  with revocation_session_change [OF _ run] Revocation show ?thesis by (simp add: one_change_def dispatch_def)
qed (simp_all add: same_sessions dispatch_def ret_def)

lemma message_change: "one_change w (on_room_message app orc room event_id sender content w)"
  using dispatch_change
  by (auto simp: on_room_message_def dispatch_text_def handle_inbound_def bnd_def inc_def ret_def
      split: option.splits sum.splits) (simp_all add: same_sessions)

lemma register_change:
  assumes "register_session app orc request w = (r, w')"
  shows "one_change w w'"
proof (cases "sessions (w_db w') = sessions (w_db w)")
  case False
  then have "w_db w' \<noteq> w_db w" by auto
  with assms obtain n x where ins: "insert_registered (crates_of app) n (w_db w) = (Inr x, w_db w')"
    by (rule register_session_db)
  from insert_registered_rows(2) [OF ins False] obtain t
    where row: "sessions (w_db w') = sessions (w_db w) @ [new_row (session_seq (w_db w)) t n]" by blast
  moreover have "fst (entry (new_row (session_seq (w_db w)) t n)) \<notin> fst ` entry ` set (sessions (w_db w))"
    using insert_registered_rows(3) [OF ins False] by (auto simp: entry_def new_row_def)
  ultimately show ?thesis by (auto simp: one_change_def session_change_def new_row_def)
qed (simp add: same_sessions)

lemma http_change:
  assumes "site_sessions app orc now_s body (l, w) = (resp, l', w')"
  shows "one_change w w'"
proof -
  have "w' = w \<or> (\<exists>request r w1 m. register_session app orc request w = (r, w1) \<and> (w' = w1 \<or> w' = w1\<lparr>w_metrics := m\<rparr>))"
    using assms by (auto simp: site_sessions_def Let_def split: if_splits sum.splits prod.splits)
  then show ?thesis by (auto simp: one_change_def dest!: register_change intro: same_sessions [unfolded one_change_def, rule_format])
qed

lemma deliver_change:
  assumes "deliver app orc job w = (r, w')"
  shows "one_change w w'"
  using deliver_effect(1) [OF assms] cas_any_change by (auto simp: one_change_def intro: same_sessions [unfolded one_change_def, rule_format])

lemma autocommit_same:
  assumes "autocommit orc f w = (r, w')" "sessions (snd (f (w_db w))) = sessions (w_db w)"
  shows "one_change w w'"
  using autocommit_db(2) [OF assms(1)] assms(2) by (auto intro: same_sessions)

lemma step_change: "relay_does app i s s' \<Longrightarrow> one_change (rl_world s) (rl_world s')"
proof (induction rule: relay_does.induct)
  case (sync orc sync_ok get_room invited s w acts)
  then show ?case by (auto simp: on_sync_result_def intro: same_sessions split: if_splits prod.splits sum.splits)
next
  case (mark s job st jobs orc r w)
  have "one_change (rl_world s) w" by (rule autocommit_same [OF mark(2)]) (simp add: frame)
  then show ?case by (auto simp: one_change_def inc_def split: sum.splits)
next
  case (claim s orc r w)
  have "one_change (rl_world s) w" by (rule autocommit_same [OF claim(2)]) (simp add: frame)
  then show ?case by simp
qed (auto intro: http_change message_change deliver_change same_sessions)

text \<open>The simulation, for runs from any state that satisfies the invariant of the relay.\<close>

lemma run_refines:
  assumes run: "(relay_step app)\<^sup>*\<^sup>* s s'" and "aead_ok (crates_of app) (at_rest app)" "relay_inv app s"
  shows "ledger_step\<^sup>*\<^sup>* (ledger_of (w_db (rl_world s))) (ledger_of (w_db (rl_world s')))"
  using run
proof (induction rule: rtranclp_induct)
  case (step s1 s2)
  have "schema_ok (w_db (rl_world s1))"
    using relay_safe.reachable [OF step(1)] assms(2,3) by (simp add: relay_inv_def db_inv_def)
  moreover have "one_change (rl_world s1) (rl_world s2)" using step(2) by (elim relay_stepE) (rule step_change)
  ultimately have "ledger_step (ledger_of (w_db (rl_world s1))) (ledger_of (w_db (rl_world s2)))"
    by (intro session_change_ledger) (simp_all add: one_change_def)
  with step.IH show ?case by simp
qed simp

end
