(* ===== verification/Relay_System_Demo.thy ===== *)
theory Relay_System_Demo
  imports Relay_Ledger
begin

text \<open>
  A concrete run for the witnesses of the system properties: a stored database with one registered
  session, one used consent event and one queued revocation, and a tick of the delivery loop that
  posts it.
\<close>

definition demo_revocation :: RelayRevocation where
  "demo_revocation = projr (revocation_sign demo_crates (signing_key demo_app) (signing_kid demo_app) ''a.org'' ''acc'' ''j'' 100 ''user_requested'')"

definition demo_payload :: bytes where
  "demo_payload = projr (revocation_to_bytes demo_crates demo_revocation)"

definition demo_job :: DeliveryJob where
  "demo_job = \<lparr>j_id = 1, j_kind = ''revocation'', j_domain = ''a.org'', j_jti = ''j'',
     j_payload_ciphertext = replicate 12 CHR ''0'' @ CHR ''#'' # demo_payload, j_idempotency_key = ''j'', j_session_id = demo_sid,
     j_nonce_hash = pad32 demo_nonce, j_attempts = 0, j_next_retry_at = Some 0, j_status = ''pending''\<rparr>"

definition demo_database :: database where
  "demo_database = (w_db demo_world)\<lparr>replay_consent_event_ids := [(''$3'', 30200)], replay_revocation_jtis := [(''j'', 30200)],
     job_seq := 2, delivery_jobs := [demo_job]\<rparr>"

definition demo_config :: AppConfig where
  "demo_config = \<lparr>cf_listen = [], cf_relay_origin = [], cf_matrix_homeserver = [], cf_matrix_user_id = ''@relay'',
     cf_matrix_enabled = True, cf_database_url = [], cf_crypto_store_path = [], cf_data_path = [], cf_signing_kid = ''relay-1'',
     cf_subject_key_version = 1, cf_signing_key = ''seed'', cf_subject_secret = replicate 32 CHR ''q'',
     cf_at_rest = replicate 32 CHR ''k'', cf_lookup_pepper = replicate 32 CHR ''p'', cf_matrix_access_token = None,
     cf_matrix_device_id = None, cf_crypto_passphrase = None\<rparr>"

definition demo_start :: relay where
  "demo_start = start (initial_world demo_config 100 demo_database)"

definition demo_end :: relay where
  "demo_end = demo_start\<lparr>rl_world := snd (tick demo_app (\<lambda>_. demo_oracles) (rl_world demo_start))\<rparr>"

subsection \<open>The database is well-formed\<close>

lemma demo_revocation_signed:
  obtains b where "revocation_sign demo_crates (signing_key demo_app) (signing_kid demo_app) ''a.org'' ''acc'' ''j'' 100 ''user_requested''
      = Inr demo_revocation" "revocation_to_bytes demo_crates demo_revocation = Inr demo_payload"
    "revocation_canonical demo_crates demo_revocation = Inr b" "rv_aud demo_revocation = ''a.org''"
    "rv_signature demo_revocation = ed25519_sign demo_crates (signing_key demo_app) b"
proof -
  let ?u = "\<lparr>rv_version = PROTOCOL_VERSION, rv_iss = RELAY_ORIGIN, rv_aud = ''a.org'', rv_sub = ''acc'', rv_jti = ''j'', rv_iat = 100,
    rv_reason = ''user_requested'', rv_kid = signing_kid demo_app, rv_signature = []\<rparr>"
  obtain b where "revocation_canonical demo_crates ?u = Inr b"
    using revocation_doc.canonical_exists [of quoted ?u] by (auto simp: revocation_canonical_def literal_total_def demo_crates_def quoted_def)
  then have sign: "revocation_sign demo_crates (signing_key demo_app) (signing_kid demo_app) ''a.org'' ''acc'' ''j'' 100 ''user_requested''
      = Inr demo_revocation" by (simp add: demo_revocation_def revocation_sign_def)
  moreover obtain p where "revocation_to_bytes demo_crates demo_revocation = Inr p"
    using demo_json by (force simp: revocation_to_bytes_def ok_or_def split: option.splits)
  then have "revocation_to_bytes demo_crates demo_revocation = Inr demo_payload" by (simp add: demo_payload_def)
  ultimately show thesis using signed_revocation_fields [OF sign] that by blast
qed

lemma demo_job_payload: "decrypt demo_crates key (j_payload_ciphertext demo_job) = Inr demo_payload"
  by (simp add: decrypt_def demo_job_def NONCE_LEN_def demo_crates_def ok_or_def)

lemma demo_database_inv: "db_inv demo_app demo_database"
proof -
  have "validate_domain_field ''a.org'' = Inr ()" "validate_id demo_sid = Inr ()" by code_simp+
  then have "row_inv demo_database demo_row"
    by (simp add: row_inv_def row_ok_def refs_ok_def opt_in_def session_states_def)
      (simp add: demo_row_def new_row_def)
  moreover have "signed_revocation demo_app ''a.org'' demo_payload"
    by (rule demo_revocation_signed) (auto simp: signed_revocation_def)
  then have "job_inv demo_app demo_database demo_job"
    using demo_job_payload by (simp add: job_inv_def payload_ok_def demo_database_def) (simp add: demo_job_def)
  moreover have "schema_ok demo_database"
    using demo_schema by (simp add: demo_database_def schema_ok_def unique_ids_def demo_db empty_database_def demo_job_def)
  ultimately show ?thesis by (simp add: db_inv_def demo_database_def demo_db empty_database_def)
qed

subsection \<open>The run\<close>

lemma demo_run: "(relay_step demo_app)\<^sup>*\<^sup>* demo_start demo_end"
proof -
  have "rl_worker demo_start = Idle" by (simp add: demo_start_def start_def)
  from tick_steps [OF this, of demo_app "\<lambda>_. demo_oracles"] show ?thesis
    by (metis demo_end_def demo_start_def prod.collapse relay.surjective relay.update_convs(1) relay.update_convs(3) start_def)
qed

lemma demo_posted: "map (\<lambda>p. (sp_domain p, sp_path p)) (w_posts (rl_world demo_end)) = [(''a.org'', ''/pseud0/web-login/revocations'')]"
proof -
  have due: "claim_due 100 10 demo_database = (Inr [claimed 100 demo_job], demo_database\<lparr>delivery_jobs := [claimed 100 demo_job]\<rparr>)"
    by (simp add: claim_due_def claimed_def demo_database_def demo_job_def job_due_def)
  have payload: "decrypt demo_crates key (j_payload_ciphertext (claimed 100 demo_job)) = Inr demo_payload" for key
    using demo_job_payload by (simp add: claimed_def)
  have kind: "j_kind (claimed 100 demo_job) = ''revocation''" "j_domain (claimed 100 demo_job) = ''a.org''"
    by (simp_all add: claimed_def demo_job_def)
  show ?thesis
    by (simp add: demo_end_def demo_start_def start_def initial_world_def tick_def autocommit_def bnd_def run_tx_def sql_def ret_def due
        deliver_def payload kind job_path_def lift_result_def post_io_def REVOCATION_PATH_def demo_oracles_def mark_delivered_def set_job_status_def inc_def)
qed

end
