(* ===== verification/Relay_Agreement_Demo.thy ===== *)
theory Relay_Agreement_Demo
  imports Relay_Agreement Login_Completion Relay_System_Demo
begin

text \<open>
  A concrete run for the agreement between sites and users: a relay started with one challenged session
  receives the user's consent in the room of the request and delivers the assertion.
\<close>

definition demo_room :: sdk_room where
  "demo_room = \<lparr>r_id = ''!r'', room_state = Joined, encryption_state = Encrypted, direct = Some True,
     active_members = Some [(''@a'', True), (''@relay'', True)], joined_count = 2, invited_count = 0, join_ok = True, leave_ok = True,
     fetched_encryption = Some Encrypted, sync_members_ok = True, join_members = Some [(''@a'', True), (''@relay'', True)]\<rparr>"

definition demo_message :: msgtype where
  "demo_message = TextMessage (MATRIX_PREFIX @ base64url_encode demo_crates ''msg'')"

definition demo_login_start :: relay where
  "demo_login_start = start (initial_world demo_config 100 (w_db demo_refused))"

definition demo_login_end :: relay where
  "demo_login_end = demo_login_start\<lparr>rl_world := snd (tick demo_login_app (\<lambda>_. demo_oracles)
     (on_room_message demo_login_app demo_oracles demo_room ''$3'' ''@a'' demo_message (rl_world demo_login_start)))\<rparr>"

abbreviation demo_consent :: MatrixMessage where
  "demo_consent \<equiv> Consent demo_sid demo_nonce 100 True (Some ''Al'') demo_challenge demo_key (demo_signature True (Some ''Al''))"

lemma demo_consent_valid: "validate_inbound demo_consent = Inr ()"
proof -
  have "validate_signature_b64 (demo_signature True (Some ''Al'')) = Inr ()"
    using base64_engine.enc_signature [OF demo_base64] by (simp add: demo_signature_def base64url_encode_def)
  moreover have "starts_with ''did:'' demo_key" "length demo_key \<le> 512" by code_simp+
  moreover have "validate_id demo_sid = Inr ()" "validate_id demo_nonce = Inr ()" "validate_challenge_token demo_challenge = Inr ()"
    by code_simp+
  ultimately show ?thesis by (simp add: MAX_DISPLAY_NAME_def)
qed

lemma demo_message_decoded:
  "matrix_decode (crates_of demo_login_app) (MATRIX_PREFIX @ base64url_encode demo_crates ''msg'') = Inr demo_consent"
proof -
  let ?c = "crates_of demo_login_app"
  have b64: "base64url_decode ?c (base64url_encode demo_crates ''msg'') = Inr ''msg''"
    using base64url_roundtrip [OF demo_base64, of "''msg''"] by (simp add: demo_login_crates base64url_decode_def split: if_splits)
  have tree: "demo_trees ''msg'' = TMap
     [(''kind'', TStr ''consent''), (''sessionId'', TStr demo_sid), (''nonce'', TStr demo_nonce), (''sentAt'', TI64 100),
      (''approved'', TBool True), (''displayName'', TStr ''Al''), (''challenge'', TStr demo_challenge), (''keyId'', TStr demo_key),
      (''signature'', TStr (demo_signature True (Some ''Al'')))]" by (simp add: demo_trees_def)
  have "plain_value (demo_trees ''msg'') = Object (btree_of (message_fields demo_consent))"
    by (simp only: tree message_fields.simps json_opt_def option.case btree_of_def plain_value.simps list.map map_prod_simp id_apply)
  with message_from_value_fields [of demo_consent]
  have read: "message_from_value (plain_value (demo_trees ''msg'')) = Some demo_consent" by (simp add: in_i64_def del: message_from_value.simps)
  have parsed: "from_slice (json_parse ?c) message_from_value ''msg'' = Inr demo_consent"
  proof (rule from_sliceI [where t = "demo_trees ''msg''"])
    show "utf8_valid ''msg''" by code_simp
    show "strict_ok (demo_trees ''msg'')" by (simp add: tree)
    show "message_from_value (plain_value (demo_trees ''msg'')) = Some demo_consent" by (rule read)
  qed (simp add: demo_login_crates)
  have len: "length (base64url_encode demo_crates ''msg'') = 4"
    using base64_engine.enc_length [OF demo_base64] by (simp add: base64url_encode_def)
  show ?thesis using b64 parsed len demo_consent_valid by (simp add: matrix_decode_def starts_with_iff MAX_DECODED_BODY_def del: validate_inbound.simps)
qed

lemma demo_message_handled:
  "\<exists>e. on_room_message demo_login_app demo_oracles demo_room ''$3'' ''@a'' demo_message w
     = snd (process_consent demo_login_app demo_oracles e demo_sid demo_nonce 100 True (Some ''Al'') demo_challenge demo_key
         (demo_signature True (Some ''Al'')) w)
   \<and> ev_event_id e = ''$3'' \<and> ev_room_id e = ''!r'' \<and> ev_sender e = ''@a''"
proof -
  let ?snap = "\<lparr>rs_encrypted = True, rs_is_direct = True, rs_members = [''@a'', ''@relay''], rs_sender = ''@a'', rs_relay_user_id = ''@relay''\<rparr>"
  let ?e = "\<lparr>ev_event_id = ''$3'', ev_room_id = ''!r'', ev_sender = ''@a'', ev_decrypted = True, ev_redacted = False,
    ev_body = MATRIX_PREFIX @ base64url_encode demo_crates ''msg'', ev_room = ?snap\<rparr>"
  have "is_ok (check_room ?snap)" by code_simp
  moreover have "snapshot demo_room ''@a'' ''@relay'' = Inr ?snap" by (simp add: snapshot_def demo_room_def ok_or_def unwrap_or_def)
  ultimately have "on_room_message demo_login_app demo_oracles demo_room ''$3'' ''@a'' demo_message w
     = snd (dispatch demo_login_app demo_oracles ?e demo_consent w)"
    using demo_message_decoded
    by (simp add: on_room_message_def demo_message_def clear_text_def demo_login_app_simps dispatch_text_def handle_inbound_def)
      (simp add: demo_room_def)
  then show ?thesis by (intro exI [of _ ?e]) (simp add: dispatch_def)
qed

lemma demo_login_posted:
  assumes w: "w_db w = w_db demo_refused" "w_posts w = []" and e: "ev_event_id e = ''$3''" "ev_room_id e = ''!r''" "ev_sender e = ''@a''"
  shows "\<exists>p. w_posts (snd (tick demo_login_app (\<lambda>_. demo_oracles) (snd (process_consent demo_login_app demo_oracles e demo_sid demo_nonce 100
      True (Some ''Al'') demo_challenge demo_key (demo_signature True (Some ''Al'')) w)))) = [p] \<and> sp_path p = ASSERTION_PATH"
proof (rule demo_login_facts)
  fix b
  let ?app = demo_login_app and ?r = demo_refused_row
  assume facts: "consent_signed_bytes demo_crates True demo_challenge (Some ''Al'') demo_nonce demo_sid 100 = Inr b"
    "verify_consent_signature demo_crates demo_key b (demo_signature True (Some ''Al'')) = Inr ()"
    "derive_pairwise_sub demo_crates (subject_secret demo_app) ''a.org'' ''@a'' = Inr demo_sub"
    "assertion_sign demo_crates (signing_key demo_app) (signing_kid demo_app) ''a.org'' demo_sub demo_sid demo_nonce
      (fresh_jti demo_app demo_oracles 2) 100 200 ''Al'' 1 = Inr demo_assertion"
  obtain body where body: "matrix_encode (crates_of ?app) (Result demo_sid demo_nonce 100 True (Some demo_sub) None) = Inr body"
    using demo_result_encoded by blast
  have nonce: "decrypt_text demo_app (s_nonce_ciphertext ?r) = Inr demo_nonce" by code_simp
  have ttl: "min 200 (wrapping_add 100 MAX_TTL_MS) = 200" by (simp add: wrapping_add_def MAX_TTL_MS_def)
  have tables: "delivery_jobs (w_db demo_refused) = []" "sessions (w_db demo_refused) = [?r]"
    "replay_assertion_jtis (w_db demo_refused) = []" "replay_consent_event_ids (w_db demo_refused) = [(''$2'', 30200)]"
    by (simp_all add: demo_refused_def demo_world_def empty_database_def)
  have login: "\<exists>w1 w2 r j. process_consent ?app demo_oracles e (s_session_id ?r) demo_nonce 100 True (Some ''Al'')
        demo_challenge demo_key (demo_signature True (Some ''Al'')) w = (Inr Sent, w1)
    \<and> tick ?app (\<lambda>_. demo_oracles) w1 = (Inr (), w2)
    \<and> w_posts w2 = w_posts w @ [\<lparr>sp_domain = s_domain ?r, sp_path = ''/pseud0/web-login/assertions'', sp_body = ''doc'',
        sp_key = Some (fresh_jti ?app demo_oracles 2)\<rparr>]
    \<and> w_outbox w2 = w_outbox w @ [\<lparr>on_room_id = ev_room_id e, on_body = body\<rparr>]
    \<and> sessions (w_db w2) = map (\<lambda>x. if x = ?r then r else x) (sessions (w_db w))
    \<and> s_state r = ''ASSERTION_DELIVERED'' \<and> s_version r = s_version ?r + 2 \<and> s_session_id r = s_session_id ?r
    \<and> s_consent_event_id r = Some (ev_event_id e) \<and> s_assertion_jti r = Some (fresh_jti ?app demo_oracles 2)
    \<and> delivery_jobs (w_db w2) = delivery_jobs (w_db w) @ [j] \<and> j_jti j = fresh_jti ?app demo_oracles 2 \<and> j_status j = ''delivered''"
    by (rule consent_reaches_site [OF _ demo_calm, where expiry = 30200 and h = "pad32 demo_challenge" and a = demo_assertion
        and msg = b and sub = demo_sub and response = "\<lparr>sr_status = 202, sr_body = []\<rparr>"])
      (use facts body demo_assertion_text demo_refused_schema in \<open>simp_all add: w e demo_calm demo_login demo_login_stored demo_hmac demo_aead
        demo_refused_stored demo_lookup tables ttl nonce\<close>, simp_all add: demo_oracles_def in_i64_def in_i32_def)
  then show ?thesis using w(2) by (auto simp: ASSERTION_PATH_def)
qed

lemma demo_login_run:
  "\<exists>is. trace (relay_does demo_login_app) demo_login_start (RoomMessage demo_oracles demo_room ''$3'' ''@a'' demo_message # is) demo_login_end"
  "\<exists>p. w_posts (rl_world demo_login_end) = [p] \<and> sp_path p = ASSERTION_PATH"
proof -
  let ?w0 = "rl_world demo_login_start"
  let ?w1 = "on_room_message demo_login_app demo_oracles demo_room ''$3'' ''@a'' demo_message ?w0"
  let ?s1 = "demo_login_start\<lparr>rl_world := ?w1\<rparr>"
  have rng: "rng_ok demo_oracles" using demo_calm by (simp add: rng_ok_def calm_def)
  let ?i = "RoomMessage demo_oracles demo_room ''$3'' ''@a'' demo_message"
  have first: "relay_does demo_login_app ?i demo_login_start ?s1" by (rule relay_does.message [OF rng]) simp
  have idle: "rl_worker ?s1 = Idle" "rl_worker demo_login_start = Idle" by (simp_all add: demo_login_start_def start_def)
  have "(relay_step demo_login_app)\<^sup>*\<^sup>* ?s1 (?s1\<lparr>rl_world := snd (tick demo_login_app (\<lambda>_. demo_oracles) (rl_world ?s1)), rl_worker := Idle\<rparr>)"
    by (rule tick_steps [OF idle(1) surjective_pairing])
  moreover have "?s1\<lparr>rl_world := snd (tick demo_login_app (\<lambda>_. demo_oracles) (rl_world ?s1)), rl_worker := Idle\<rparr> = demo_login_end"
    using idle(2) by (simp add: demo_login_end_def)
  ultimately show "\<exists>is. trace (relay_does demo_login_app) demo_login_start (?i # is) demo_login_end"
    using trace_first [of "relay_does demo_login_app", OF first] by (auto simp: relay_steps_trace)
  have "w_db ?w0 = w_db demo_refused" "w_posts ?w0 = []" by (simp_all add: demo_login_start_def start_def initial_world_def)
  with demo_message_handled [of ?w0] demo_login_posted [of ?w0]
  show "\<exists>p. w_posts (rl_world demo_login_end) = [p] \<and> sp_path p = ASSERTION_PATH" by (fastforce simp: demo_login_end_def)
qed

end
