(* ===== verification/Relay_Accounting.thy ===== *)
theory Relay_Accounting
  imports Relay_Runs
begin

text \<open>
  How often the relay posts: a post is paid for by an attempt recorded in the queue before it is made. The
  invariant counts, for one identifier, the posts already made and the claimed jobs still in the hands of the
  worker, and compares them with the attempts recorded in the table since the start.
\<close>

definition attempts :: "database \<Rightarrow> string \<Rightarrow> int" where
  "attempts db jti = (\<Sum>j \<leftarrow> filter (\<lambda>j. j_jti j = jti) (delivery_jobs db). j_attempts j)"

definition posted :: "string \<Rightarrow> world \<Rightarrow> nat" where
  "posted jti w = length (filter (\<lambda>p. sp_key p = Some jti) (w_posts w))"

fun in_hand :: "worker \<Rightarrow> DeliveryJob list" where
  "in_hand Idle = []"
| "in_hand (Delivering jobs) = jobs"
| "in_hand (Marking job st jobs) = jobs"

definition pending :: "string \<Rightarrow> worker \<Rightarrow> nat" where
  "pending jti k = length (filter (\<lambda>j. j_jti j = jti) (in_hand k))"

definition accounted :: "(string \<Rightarrow> int) \<Rightarrow> relay \<Rightarrow> bool" where
  "accounted A s \<longleftrightarrow> (\<forall>jti. int (posted jti (rl_world s) + pending jti (rl_worker s)) \<le> attempts (w_db (rl_world s)) jti - A jti)"

subsection \<open>What the statements do to the attempts\<close>

lemma attempts_same: "delivery_jobs db' = delivery_jobs db \<Longrightarrow> attempts db' = attempts db"
  by (simp add: attempts_def fun_eq_iff)

lemma attempts_enqueue: "attempts (snd (enqueue now kind d jti ct s nh db)) = attempts db"
  by (auto simp: attempts_def fun_eq_iff enqueue_def Let_def)

lemma attempts_lookup: "attempts (snd (get_matching d s n db)) = attempts db" "attempts (snd (get_by_session_and_nonce s n db)) = attempts db"
  "attempts (snd (find_active_grant d h db)) = attempts db"
  by simp_all

lemma attempts_frames:
  "attempts (snd (reserve_request_event k t db)) = attempts db" "attempts (snd (reserve_challenge_hash h t db)) = attempts db"
  "attempts (snd (reserve_consent_event k t db)) = attempts db" "attempts (snd (reserve_assertion_jti k t db)) = attempts db"
  "attempts (snd (reserve_revocation_jti k t db)) = attempts db" "attempts (snd (cas_update i v st u db)) = attempts db"
  "attempts (snd (upsert_grant d h sc uc s n v' db)) = attempts db" "attempts (snd (mark_revoked t i db)) = attempts db"
  by (rule attempts_same, simp add: frame)+

lemma attempts_registered: "attempts (snd (insert_registered c new db)) = attempts db"
  by (rule attempts_same) (rule insert_registered_jobs [OF surjective_pairing])

lemma attempts_status: "attempts (snd (set_job_status st i db)) = attempts db"
  by (auto simp: attempts_def fun_eq_iff set_job_status_def filter_map comp_def cong: filter_cong intro!: arg_cong [where f = sum_list])

lemma sum_bumped:
  "(\<Sum>j \<leftarrow> filter (\<lambda>j. j_jti j = jti) (map (\<lambda>j. if P j then claimed now j else j) js). j_attempts j)
   = (\<Sum>j \<leftarrow> filter (\<lambda>j. j_jti j = jti) js. j_attempts j) + int (length (filter (\<lambda>j. j_jti j = jti) (map (claimed now) (filter P js))))"
  by (induction js) (auto simp: claimed_def)

lemma attempts_claimed:
  assumes "claim_due now limit db = (Inr jobs, db')"
  shows "attempts db' jti = attempts db jti + int (length (filter (\<lambda>j. j_jti j = jti) jobs))"
  using assms sum_bumped by (auto simp: claim_due_def Let_def attempts_def claimed_def [symmetric] split: if_splits)

interpretation book: statement_invariant "\<lambda>db. attempts db = A" for A
  by unfold_locales (simp_all add: attempts_enqueue attempts_frames attempts_registered)

subsection \<open>What the handlers do to the posts\<close>

lemma message_posts: "w_posts (on_room_message app orc room event_id sender content w) = w_posts w"
proof -
  have "w_posts (snd (dispatch app orc event m w)) = w_posts w" for event m
    using process_posts by (cases m) (simp_all add: dispatch_def ret_def, (metis prod.collapse)+)
  then show ?thesis
    by (auto simp: on_room_message_def dispatch_text_def handle_inbound_def bnd_def inc_def ret_def split: option.splits sum.splits)
qed

lemma http_posts: "site_sessions app orc now_s body (l, w) = (resp, l', w') \<Longrightarrow> w_posts w' = w_posts w"
  using http_safe by (simp add: safe_handler_def)

lemma job_posts:
  assumes "deliver app orc job w = (r, w')"
  shows "posted jti w' \<le> posted jti w + (if j_jti job = jti then 1 else 0)"
  using deliver_effect(2) [OF assms] by (auto simp: posted_def post_of_def split: if_splits)

subsection \<open>The relay keeps its accounts\<close>

lemma accounted_same:
  assumes "accounted A s" "w_posts (rl_world s') = w_posts (rl_world s)" "\<And>jti. pending jti (rl_worker s') \<le> pending jti (rl_worker s)"
    and "attempts (w_db (rl_world s')) = attempts (w_db (rl_world s))"
  shows "accounted A s'"
proof -
  have "int (posted jti (rl_world s') + pending jti (rl_worker s')) \<le> int (posted jti (rl_world s) + pending jti (rl_worker s))" for jti
    using assms(2) assms(3) [of jti] by (simp add: posted_def)
  then show ?thesis using assms(1) unfolding accounted_def assms(4) by (meson order_trans)
qed

lemma claim_accounted:
  assumes acc: "accounted A s" and idle: "rl_worker s = Idle"
    and run: "autocommit orc (claim_due now limit) (rl_world s) = (r, w)"
  shows "accounted A (s\<lparr>rl_world := w, rl_worker := (case r of Inl _ \<Rightarrow> Idle | Inr jobs \<Rightarrow> Delivering jobs)\<rparr>)"
proof -
  have more: "attempts (w_db (rl_world s)) jti \<le> attempts (w_db w) jti" for jti
    using autocommit_db(2) [OF run] attempts_claimed [where jti = jti] by fastforce
  have all: "attempts (w_db w) jti = attempts (w_db (rl_world s)) jti + int (pending jti (Delivering jobs))" if "r = Inr jobs" for jti jobs
    using attempts_claimed [OF autocommit_Inr(1) [OF run [unfolded that]]] by (simp add: pending_def)
  have "int (posted jti w) \<le> attempts (w_db (rl_world s)) jti - A jti" for jti
    using acc idle autocommit_db(1) [OF run] by (simp add: accounted_def pending_def posted_def)
  with more all show ?thesis
    by (cases r) (simp_all add: accounted_def pending_def [of _ Idle] diff_left_mono, smt (verit))
qed

lemma step_keeps_accounts:
  assumes "relay_does app i s s'" "accounted A s"
  shows "accounted A s'"
  using assms
proof (induction rule: relay_does.induct)
  case (claim s orc r w)
  then show ?case by (intro claim_accounted)
next
  case (job s jb jobs orc r w)
  have "attempts (w_db w) = attempts (w_db (rl_world s))" by (rule book.delivery_keeps [OF job(2) refl])
  moreover have "posted jti w + pending jti (Delivering jobs) \<le> posted jti (rl_world s) + pending jti (rl_worker s)" for jti
    using job_posts [OF job(2), of jti] job(1) by (auto simp: pending_def)
  then have "int (posted jti w + pending jti (Delivering jobs)) \<le> attempts (w_db (rl_world s)) jti - A jti" for jti
    using job(3) unfolding accounted_def by (meson of_nat_mono order_trans)
  ultimately show ?case by (auto simp: accounted_def pending_def split: sum.splits)
next
  case (mark s jb st jobs orc r w)
  have "attempts (w_db w) = attempts (w_db (rl_world s))"
    by (rule autocommit_keeps [where I = "\<lambda>db. attempts db = attempts (w_db (rl_world s))", OF mark(2) refl]) (simp add: attempts_status)
  with mark show ?case
    by (auto simp: inc_def pending_def autocommit_db(1) split: sum.splits intro!: accounted_same [OF mark(3)])
next
  case (http orc now_s body s resp l w)
  then show ?case by (intro accounted_same [OF http(2)]) (simp_all add: http_posts book.http_keeps)
next
  case (message orc w room event_id sender content s)
  then show ?case by (intro accounted_same [OF message(3)]) (simp_all add: message_posts book.message_keeps)
next
  case (sync orc sync_ok get_room invited s w acts)
  then show ?case by (intro accounted_same [OF sync(2)]) (auto dest: book.sync_keeps)
qed (auto intro: accounted_same simp: pending_def)

interpretation accounts: transition_system "relay_step app" "accounted A" for app A
  by unfold_locales (auto elim!: relay_stepE intro: step_keeps_accounts)

subsection \<open>The constraints of the schema hold in every run\<close>

interpretation schema: statement_invariant schema_ok
  by unfold_locales (blast intro: request_events.keeps challenge_hashes.keeps consent_events.keeps assertion_jtis.keeps
      revocation_jtis.keeps cas_stmt.keeps upsert_stmt.keeps revoke_stmt.keeps enqueue_stmt.keeps insert_stmt.keeps)+

interpretation relay_schema: transition_system "relay_step app" "\<lambda>s. schema_ok (w_db (rl_world s))" for app
proof
  fix s s'
  assume "relay_step app s s'" and ok: "schema_ok (w_db (rl_world s))"
  then obtain i where "relay_does app i s s'" by (elim relay_stepE)
  from this ok show "schema_ok (w_db (rl_world s'))"
  proof (induction rule: relay_does.induct)
    case (claim s orc r w)
    then show ?case using autocommit_keeps [OF claim(2,3) claim_stmt.keeps] by simp
  next
    case (mark s jb st jobs orc r w)
    then show ?case using autocommit_keeps [OF mark(2,3) status_stmt.keeps] by (auto simp: inc_def split: sum.splits)
  qed (auto intro: schema.http_keeps schema.message_keeps schema.delivery_keeps dest: schema.sync_keeps)
qed

lemma job_attempts:
  assumes "schema_ok db" "j \<in> set (delivery_jobs db)"
  shows "attempts db (j_jti j) = j_attempts j"
proof -
  have "distinct (map j_jti js) \<Longrightarrow> j \<in> set js \<Longrightarrow> filter (\<lambda>x. j_jti x = j_jti j) js = [j]" for js
    by (induction js) (auto simp: filter_empty_conv, metis image_eqI)
  with assms show ?thesis by (simp add: attempts_def schema_ok_def)
qed

lemma attempts_nonneg: "\<forall>j \<in> set (delivery_jobs db). 0 \<le> j_attempts j \<Longrightarrow> 0 \<le> attempts db jti"
  by (auto simp: attempts_def intro!: sum_list_nonneg)

lemma posts_bounded:
  assumes "schema_ok db" "\<forall>j \<in> set (delivery_jobs db). 0 \<le> j_attempts j"
    and "(relay_step app)\<^sup>*\<^sup>* (start (initial_world cfg now db)) s"
  shows "schema_ok (w_db (rl_world s))" "int (posted jti (rl_world s)) \<le> attempts (w_db (rl_world s)) jti"
proof -
  show "schema_ok (w_db (rl_world s))"
    using relay_schema.reachable [OF assms(3)] assms(1) by (simp add: start_def initial_world_def)
  have "accounted (attempts db) (start (initial_world cfg now db))"
    by (simp add: accounted_def start_def initial_world_def posted_def pending_def)
  from accounts.reachable [OF assms(3) this, unfolded accounted_def, rule_format, of jti] attempts_nonneg [OF assms(2), of jti]
  show "int (posted jti (rl_world s)) \<le> attempts (w_db (rl_world s)) jti" by simp
qed

end
