(* ===== verification/Delivery_Wire.thy ===== *)
theory Delivery_Wire
  imports Registration_Completion Relay_System_Demo
begin

text \<open>
  The delivery worker with the site client: what a delivery that counts as done has put on the network, and
  what a site reads there.
\<close>

subsection \<open>The lines of a request\<close>

definition request_lines :: "string \<Rightarrow> string \<Rightarrow> string \<Rightarrow> (string \<times> string) list \<Rightarrow> bytes \<Rightarrow> string list" where
  "request_lines verb path host headers body =
     [verb @ '' '' @ path @ '' HTTP/1.1'', ''Host: '' @ host, ''Accept: application/json'', ''Connection: close'']
     @ (if body \<noteq> [] then [''Content-Type: application/json'', ''Content-Length: '' @ nat_digits (length body)] else [])
     @ map (\<lambda>(name, value). name @ '': '' @ value) headers"

lemma request_head_block:
  "request_head verb path host headers body =
     header_block (hd (request_lines verb path host headers body)) (tl (request_lines verb path host headers body)) @ CRLF @ CRLF"
proof -
  have "CRLF @ concat (map (\<lambda>(n, v). n @ '': '' @ v @ CRLF) hs) = concat (map (\<lambda>(n, v). CRLF @ n @ '': '' @ v) hs) @ CRLF" for hs
    by (induction hs) (auto simp: case_prod_unfold)
  then show ?thesis by (auto simp: request_head_def request_lines_def header_block_def comp_def case_prod_unfold)
qed

lemma no_return_in_digits: "CHR 0x0D \<notin> set (nat_digits n)"
  using nat_digits_digits [of "CHR 0x0D" n] by (auto simp: byte_in_def)

lemma no_return_in_domain: "validate_domain d = Inr u \<Longrightarrow> CHR 0x0D \<notin> set d"
  using domain_chars [of d "CHR 0x0D"] by (auto simp: validate_domain_iff in_cls_def LABEL_MID_def char_le_iff)

lemma request_read:
  assumes "CHR 0x0D \<notin> set verb" "CHR 0x0D \<notin> set path" "CHR 0x0D \<notin> set host"
    and "list_all (\<lambda>(n, v). CHR 0x0D \<notin> set n \<and> CHR 0x0D \<notin> set v) headers"
  shows "\<exists>h. split_once (CRLF @ CRLF) (request_head verb path host headers body @ body) = Some (h, body)
    \<and> split_crlf h = request_lines verb path host headers body"
proof -
  let ?l = "request_lines verb path host headers body"
  have "CHR 0x0D \<notin> set (hd ?l)" using assms(1,2) by (simp add: request_lines_def)
  moreover have "list_all plain_line (tl ?l)"
    using assms(3,4) no_return_in_digits by (auto simp: request_lines_def list_all_iff)
  ultimately have "split_once (CRLF @ CRLF) (request_head verb path host headers body @ body) = Some (header_block (hd ?l) (tl ?l), body)"
    "split_crlf (header_block (hd ?l) (tl ?l)) = hd ?l # tl ?l"
    by (simp_all add: request_head_block split_once_header split_crlf_header)
  then show ?thesis by (simp add: request_lines_def)
qed

subsection \<open>A delivery that counts as done\<close>

lemma site_request_sent:
  assumes "site_request resolve ex domain path verb headers body max_body = (Inr response, evs)"
  shows "validate_domain domain = Inr ()" and "\<exists>ips ip. resolve domain = Inr ips \<and> ip \<in> set ips \<and> \<not> is_blocked_ip ip
    \<and> evs = Connect ip 443 # Send (request_head verb path domain headers body) # (if body = [] then [] else [Send body])"
proof -
  let ?target = "and_then (site_url domain path) (\<lambda>(host, path). and_then (resolve host) (\<lambda>ips.
      and_then (pick_public_address ips) (\<lambda>ip. if is_blocked_ip ip then err DomainVerificationFailed else Inr (host, path, ip))))"
  obtain target where target: "?target = Inr target" using assms by (cases ?target) (simp_all add: site_request_def)
  then obtain ips ip where t: "target = (domain, path, ip)" "validate_domain domain = Inr ()"
    "resolve domain = Inr ips" "ip \<in> set ips" "\<not> is_blocked_ip ip"
    by (auto simp: result_simps site_url_def split: if_splits dest: pick_public_Inr)
  from assms t show "validate_domain domain = Inr ()" and "\<exists>ips ip. resolve domain = Inr ips \<and> ip \<in> set ips \<and> \<not> is_blocked_ip ip
    \<and> evs = Connect ip 443 # Send (request_head verb path domain headers body) # (if body = [] then [] else [Send body])"
    unfolding site_request_def target by (auto simp: pinned_socket_def Let_def split: if_splits option.splits)
qed

lemma deliver_Inr:
  assumes "deliver app orc job w = (Inr u, w')"
  obtains payload path response where "decrypt (crates_of app) (at_rest app) (j_payload_ciphertext job) = Inr payload"
    "job_path (j_kind job) = Inr path" "sr_status response \<in> {200, 202}"
    "o_post orc (j_domain job) path payload (if j_kind job = ''assertion'' then Some (j_jti job) else None) = Inr response"
  using assms
  by (auto simp: deliver_def bnd_def lift_result_def post_io_def Let_def split: sum.splits if_splits)

text \<open>
  C15. Delivered means received. With the relay's own site client, a delivery that succeeds has made one
  connection, to port 443 of a public address of the job's domain, and sent one request there; a receiver
  that cuts it at the first blank line reads, as header lines, exactly the request line for the job's path, the
  job's domain as host, the length of the payload and, for an assertion alone, its identifier as idempotency
  key, and after them the stored payload, byte by byte; and the site answered 200 or 202.
\<close>

theorem delivered_on_the_wire:
  assumes "deliver app (with_client c resolve ex orc) job w = (Inr u, w')" "CHR 0x0D \<notin> set (j_jti job)"
  shows "\<exists>payload path key response ips ip head h.
      decrypt (crates_of app) (at_rest app) (j_payload_ciphertext job) = Inr payload
    \<and> (path, key) \<in> {(''/pseud0/web-login/assertions'', Some (j_jti job)), (''/pseud0/web-login/revocations'', None)}
    \<and> (key = None \<longleftrightarrow> j_kind job = ''revocation'')
    \<and> post_json resolve ex (j_domain job) path payload key
        = (Inr response, Connect ip 443 # Send head # (if payload = [] then [] else [Send payload]))
    \<and> sr_status response \<in> {200, 202} \<and> resolve (j_domain job) = Inr ips \<and> ip \<in> set ips \<and> \<not> is_blocked_ip ip
    \<and> split_once (CRLF @ CRLF) (head @ payload) = Some (h, payload)
    \<and> split_crlf h = [''POST '' @ path @ '' HTTP/1.1'', ''Host: '' @ j_domain job, ''Accept: application/json'', ''Connection: close'']
        @ (if payload = [] then [] else [''Content-Type: application/json'', ''Content-Length: '' @ nat_digits (length payload)])
        @ (case key of None \<Rightarrow> [] | Some k \<Rightarrow> [''Idempotency-Key: '' @ k])"
  using assms(1)
proof (rule deliver_Inr)
  fix payload path response
  let ?key = "if j_kind job = ''assertion'' then Some (j_jti job) else None"
  let ?hs = "case ?key of None \<Rightarrow> [] | Some key \<Rightarrow> [(''Idempotency-Key'', key)]"
  assume dec: "decrypt (crates_of app) (at_rest app) (j_payload_ciphertext job) = Inr payload"
    and path: "job_path (j_kind job) = Inr path" and st: "sr_status response \<in> {200, 202}"
    and post: "o_post (with_client c resolve ex orc) (j_domain job) path payload ?key = Inr response"
  obtain evs where req: "post_json resolve ex (j_domain job) path payload ?key = (Inr response, evs)"
    using post by (cases "post_json resolve ex (j_domain job) path payload ?key") (simp add: with_client_def)
  note sent = site_request_sent [OF req [unfolded post_json_def]]
  have "CHR 0x0D \<notin> set path" using path by (auto simp: job_path_def ASSERTION_PATH_def REVOCATION_PATH_def split: if_splits)
  moreover have "list_all (\<lambda>(n, v). CHR 0x0D \<notin> set n \<and> CHR 0x0D \<notin> set v) ?hs" using assms(2) by simp
  ultimately obtain h where h: "split_once (CRLF @ CRLF) (request_head ''POST'' path (j_domain job) ?hs payload @ payload) = Some (h, payload)"
    "split_crlf h = request_lines ''POST'' path (j_domain job) ?hs payload"
    using request_read [of "''POST''" path "j_domain job" ?hs payload] no_return_in_domain [OF sent(1)] by auto
  have "(path, ?key) \<in> {(''/pseud0/web-login/assertions'', Some (j_jti job)), (''/pseud0/web-login/revocations'', None)}"
    "?key = None \<longleftrightarrow> j_kind job = ''revocation''"
    using path by (auto simp: job_path_def ASSERTION_PATH_def REVOCATION_PATH_def split: if_splits)
  moreover obtain ips ip where "resolve (j_domain job) = Inr ips" "ip \<in> set ips" "\<not> is_blocked_ip ip"
    "evs = Connect ip 443 # Send (request_head ''POST'' path (j_domain job) ?hs payload) # (if payload = [] then [] else [Send payload])"
    using sent(2) by blast
  moreover have "request_lines ''POST'' path (j_domain job) ?hs payload
      = [''POST '' @ path @ '' HTTP/1.1'', ''Host: '' @ j_domain job, ''Accept: application/json'', ''Connection: close'']
        @ (if payload = [] then [] else [''Content-Type: application/json'', ''Content-Length: '' @ nat_digits (length payload)])
        @ (case ?key of None \<Rightarrow> [] | Some k \<Rightarrow> [''Idempotency-Key: '' @ k])" by (simp add: request_lines_def)
  ultimately show ?thesis
    using dec st req h by (intro exI [of _ payload] exI [of _ path] exI [of _ ?key] exI [of _ response] exI [of _ ips] exI [of _ ip]
        exI [of _ "request_head ''POST'' path (j_domain job) ?hs payload"] exI [of _ h] conjI) simp_all
qed

theorem delivered_on_the_wire_witness:
  "\<exists>h w'. deliver demo_app (with_client demo_crates demo_resolve demo_exchange demo_oracles) demo_job demo_world = (Inr (), w')
     \<and> split_once (CRLF @ CRLF) (request_head ''POST'' ''/pseud0/web-login/revocations'' ''a.org'' [] demo_payload @ demo_payload) = Some (h, demo_payload)
     \<and> hd (split_crlf h) = ''POST /pseud0/web-login/revocations HTTP/1.1''"
proof -
  let ?orc = "with_client demo_crates demo_resolve demo_exchange demo_oracles"
  have url: "site_url ''a.org'' REVOCATION_PATH = Inr (''a.org'', REVOCATION_PATH)" by code_simp
  have job: "j_kind demo_job = ''revocation''" "j_domain demo_job = ''a.org''" "CHR 0x0D \<notin> set (j_jti demo_job)" by (simp_all add: demo_job_def)
  have post: "post_json demo_resolve demo_exchange ''a.org'' REVOCATION_PATH demo_payload None
     = (Inr \<lparr>sr_status = 200, sr_body = ''{}''\<rparr>, Connect (V4 (Ipv4Addr 93 184 216 34)) 443
        # Send (request_head ''POST'' REVOCATION_PATH ''a.org'' [] demo_payload) # (if demo_payload = [] then [] else [Send demo_payload]))"
    unfolding post_json_def option.case by (rule demo_site_responds [OF url]) (simp add: MAX_SITE_RESPONSE_BYTES_def)
  obtain w' where run: "deliver demo_app ?orc demo_job demo_world = (Inr (), w')"
    by (simp add: deliver_def bnd_def lift_result_def demo_job_payload job job_path_def post_io_def with_client_def post ret_def)
  from delivered_on_the_wire [OF run job(3)] run post show ?thesis
    by (auto simp: demo_job_payload job REVOCATION_PATH_def)
qed

end
