(* ===== verification/Rows.thy ===== *)
theory Rows
  imports Registration_Properties "HOL-Library.Monad_Syntax"
begin

text \<open>
  Rows as PostgreSQL returns them and parameters as it takes them: the functions \<^verbatim>\<open>from_row\<close> of \<^verbatim>\<open>db/sessions.rs\<close>,
  \<^verbatim>\<open>db/grants.rs\<close> and \<^verbatim>\<open>db/delivery.rs\<close> against the columns of \<^verbatim>\<open>migrations/0001_init.sql\<close>, and the
  functions that read the driver's errors. A \<^verbatim>\<open>Row::get\<close> that would panic is \<^const>\<open>None\<close>.
\<close>

subsection \<open>Columns and values\<close>

datatype sql_type = BIGINT | INTEGER | TEXT | BYTEA | TIMESTAMPTZ

datatype sql_value = Null | Int8 int | Int4 int | Txt string | Bin bytes | Stamp int

type_synonym row = "(string \<times> sql_value) list"
type_synonym columns = "(string \<times> sql_type \<times> bool) list"

text \<open>The values a column can hold; a \<^verbatim>\<open>TEXT\<close> cannot hold a zero byte.\<close>

fun has_type :: "sql_type \<Rightarrow> sql_value \<Rightarrow> bool" where
  "has_type BIGINT (Int8 i) = in_i64 i"
| "has_type INTEGER (Int4 i) = in_i32 i"
| "has_type TEXT (Txt s) = (CHR 0x00 \<notin> set s)"
| "has_type BYTEA (Bin b) = True"
| "has_type TIMESTAMPTZ (Stamp t) = True"
| "has_type _ _ = False"

definition holds_in :: "string \<times> sql_type \<times> bool \<Rightarrow> string \<times> sql_value \<Rightarrow> bool" where
  "holds_in col cell = (case (col, cell) of ((n, t, nul), (m, v)) \<Rightarrow> m = n \<and> (v = Null \<and> nul \<or> has_type t v))"

definition fits :: "columns \<Rightarrow> row \<Rightarrow> bool" where
  "fits cols row = list_all2 holds_in cols row"

text \<open>The tables of the migration: name, type and whether the column may be null.\<close>

definition sessions_columns :: columns where
  "sessions_columns = [
     (''id'', BIGINT, False), (''domain'', TEXT, False), (''session_id'', TEXT, False), (''nonce_hash'', BYTEA, False),
     (''nonce_ciphertext'', BYTEA, False), (''iat'', BIGINT, False), (''exp'', BIGINT, False),
     (''requested_display_name'', TEXT, False), (''site_display_name'', TEXT, False),
     (''site_public_key'', TEXT, False), (''qr_signature'', TEXT, False), (''registration_signature'', TEXT, False),
     (''registration_hash'', BYTEA, False), (''state'', TEXT, False), (''version'', INTEGER, False),
     (''request_event_id'', TEXT, True), (''request_room_ciphertext'', BYTEA, True),
     (''request_sender_ciphertext'', BYTEA, True), (''challenge_hash'', BYTEA, True),
     (''challenge_expires_at'', BIGINT, True), (''consent_event_id'', TEXT, True),
     (''display_name_ciphertext'', BYTEA, True), (''assertion_jti'', TEXT, True),
     (''assertion_ciphertext'', BYTEA, True), (''created_at'', TIMESTAMPTZ, False), (''expires_at'', TIMESTAMPTZ, False)]"

definition grants_columns :: columns where
  "grants_columns = [
     (''id'', BIGINT, False), (''domain'', TEXT, False), (''subject_hash'', BYTEA, False),
     (''subject_ciphertext'', BYTEA, False), (''matrix_user_ciphertext'', BYTEA, False), (''session_id'', TEXT, False),
     (''nonce_hash'', BYTEA, False), (''subject_key_version'', INTEGER, False), (''created_at'', TIMESTAMPTZ, False),
     (''revoked_at'', TIMESTAMPTZ, True)]"

text \<open>What the claim returns, in the order of its \<^verbatim>\<open>RETURNING\<close> list.\<close>

definition claimed_columns :: columns where
  "claimed_columns = [
     (''id'', BIGINT, False), (''kind'', TEXT, False), (''domain'', TEXT, False), (''jti'', TEXT, False),
     (''payload_ciphertext'', BYTEA, False), (''idempotency_key'', TEXT, False), (''session_id'', TEXT, False),
     (''nonce_hash'', BYTEA, False), (''attempts'', INTEGER, False), (''status'', TEXT, False)]"

subsection \<open>Reading a row\<close>

fun from_int8 :: "sql_value \<Rightarrow> int option" where
  "from_int8 (Int8 i) = Some i" | "from_int8 _ = None"

fun from_int4 :: "sql_value \<Rightarrow> int option" where
  "from_int4 (Int4 i) = Some i" | "from_int4 _ = None"

fun from_text :: "sql_value \<Rightarrow> string option" where
  "from_text (Txt s) = Some s" | "from_text _ = None"

fun from_bytea :: "sql_value \<Rightarrow> bytes option" where
  "from_bytea (Bin b) = Some b" | "from_bytea _ = None"

fun from_stamp :: "sql_value \<Rightarrow> int option" where
  "from_stamp (Stamp t) = Some t" | "from_stamp _ = None"

definition nullable :: "(sql_value \<Rightarrow> 'a option) \<Rightarrow> sql_value \<Rightarrow> 'a option option" where
  "nullable f v = (if v = Null then Some None else map_option Some (f v))"

definition row_get :: "(sql_value \<Rightarrow> 'a option) \<Rightarrow> row \<Rightarrow> string \<Rightarrow> 'a option" where
  "row_get f row name = Option.bind (map_of row name) f"

text \<open>
  The three \<^verbatim>\<open>from_row\<close>. The struct of a session has no \<^verbatim>\<open>expires_at\<close> and the struct of a job no \<^verbatim>\<open>next_retry_at\<close>: the
  model's records, which are also the rows of the tables, carry a fixed value there.
\<close>

definition session_from_row :: "row \<Rightarrow> SessionRow option" where
  "session_from_row row = do {
     i \<leftarrow> row_get from_int8 row ''id''; domain \<leftarrow> row_get from_text row ''domain'';
     session_id \<leftarrow> row_get from_text row ''session_id''; nonce_hash \<leftarrow> row_get from_bytea row ''nonce_hash'';
     nonce_ciphertext \<leftarrow> row_get from_bytea row ''nonce_ciphertext''; iat \<leftarrow> row_get from_int8 row ''iat'';
     e \<leftarrow> row_get from_int8 row ''exp''; requested_display_name \<leftarrow> row_get from_text row ''requested_display_name'';
     site_display_name \<leftarrow> row_get from_text row ''site_display_name'';
     site_public_key \<leftarrow> row_get from_text row ''site_public_key''; qr_signature \<leftarrow> row_get from_text row ''qr_signature'';
     registration_signature \<leftarrow> row_get from_text row ''registration_signature'';
     registration_hash \<leftarrow> row_get from_bytea row ''registration_hash''; state \<leftarrow> row_get from_text row ''state'';
     version \<leftarrow> row_get from_int4 row ''version'';
     request_event_id \<leftarrow> row_get (nullable from_text) row ''request_event_id'';
     request_room_ciphertext \<leftarrow> row_get (nullable from_bytea) row ''request_room_ciphertext'';
     request_sender_ciphertext \<leftarrow> row_get (nullable from_bytea) row ''request_sender_ciphertext'';
     challenge_hash \<leftarrow> row_get (nullable from_bytea) row ''challenge_hash'';
     challenge_expires_at \<leftarrow> row_get (nullable from_int8) row ''challenge_expires_at'';
     consent_event_id \<leftarrow> row_get (nullable from_text) row ''consent_event_id'';
     display_name_ciphertext \<leftarrow> row_get (nullable from_bytea) row ''display_name_ciphertext'';
     assertion_jti \<leftarrow> row_get (nullable from_text) row ''assertion_jti'';
     assertion_ciphertext \<leftarrow> row_get (nullable from_bytea) row ''assertion_ciphertext'';
     Some \<lparr>
       s_id = i, s_domain = domain, s_session_id = session_id, s_nonce_hash = nonce_hash, s_nonce_ciphertext = nonce_ciphertext, s_iat = iat, s_exp = e,
       s_requested_display_name = requested_display_name, s_site_display_name = site_display_name, s_site_public_key = site_public_key, s_qr_signature = qr_signature,
       s_registration_signature = registration_signature, s_registration_hash = registration_hash, s_state = state, s_version = version,
       s_request_event_id = request_event_id, s_request_room_ciphertext = request_room_ciphertext, s_request_sender_ciphertext = request_sender_ciphertext,
       s_challenge_hash = challenge_hash, s_challenge_expires_at = challenge_expires_at, s_consent_event_id = consent_event_id, s_display_name_ciphertext = display_name_ciphertext,
       s_assertion_jti = assertion_jti, s_assertion_ciphertext = assertion_ciphertext, s_expires_at = 0\<rparr> }"

definition grant_from_row :: "row \<Rightarrow> GrantRow option" where
  "grant_from_row row = do {
     i \<leftarrow> row_get from_int8 row ''id''; domain \<leftarrow> row_get from_text row ''domain'';
     subject_hash \<leftarrow> row_get from_bytea row ''subject_hash'';
     subject_ciphertext \<leftarrow> row_get from_bytea row ''subject_ciphertext'';
     matrix_user_ciphertext \<leftarrow> row_get from_bytea row ''matrix_user_ciphertext'';
     session_id \<leftarrow> row_get from_text row ''session_id''; nonce_hash \<leftarrow> row_get from_bytea row ''nonce_hash'';
     subject_key_version \<leftarrow> row_get from_int4 row ''subject_key_version'';
     revoked_at \<leftarrow> row_get (nullable from_stamp) row ''revoked_at'';
     Some \<lparr>
       g_id = i, g_domain = domain, g_subject_hash = subject_hash, g_subject_ciphertext = subject_ciphertext, g_matrix_user_ciphertext = matrix_user_ciphertext,
       g_session_id = session_id, g_nonce_hash = nonce_hash, g_subject_key_version = subject_key_version, g_revoked_at = revoked_at\<rparr> }"

definition job_from_row :: "row \<Rightarrow> DeliveryJob option" where
  "job_from_row row = do {
     i \<leftarrow> row_get from_int8 row ''id''; kind \<leftarrow> row_get from_text row ''kind'';
     domain \<leftarrow> row_get from_text row ''domain''; jti \<leftarrow> row_get from_text row ''jti'';
     payload_ciphertext \<leftarrow> row_get from_bytea row ''payload_ciphertext'';
     idempotency_key \<leftarrow> row_get from_text row ''idempotency_key''; session_id \<leftarrow> row_get from_text row ''session_id'';
     nonce_hash \<leftarrow> row_get from_bytea row ''nonce_hash''; attempts \<leftarrow> row_get from_int4 row ''attempts'';
     status \<leftarrow> row_get from_text row ''status'';
     Some \<lparr>
       j_id = i, j_kind = kind, j_domain = domain, j_jti = jti, j_payload_ciphertext = payload_ciphertext, j_idempotency_key = idempotency_key,
       j_session_id = session_id, j_nonce_hash = nonce_hash, j_attempts = attempts, j_next_retry_at = None, j_status = status\<rparr> }"

text \<open>The columns of a stored row.\<close>

definition null_or :: "('a \<Rightarrow> sql_value) \<Rightarrow> 'a option \<Rightarrow> sql_value" where
  "null_or k x = (case x of None \<Rightarrow> Null | Some v \<Rightarrow> k v)"

definition session_cells :: "int \<Rightarrow> SessionRow \<Rightarrow> row" where
  "session_cells created_at r = [
     (''id'', Int8 (s_id r)), (''domain'', Txt (s_domain r)), (''session_id'', Txt (s_session_id r)),
     (''nonce_hash'', Bin (s_nonce_hash r)), (''nonce_ciphertext'', Bin (s_nonce_ciphertext r)),
     (''iat'', Int8 (s_iat r)), (''exp'', Int8 (s_exp r)),
     (''requested_display_name'', Txt (s_requested_display_name r)),
     (''site_display_name'', Txt (s_site_display_name r)), (''site_public_key'', Txt (s_site_public_key r)),
     (''qr_signature'', Txt (s_qr_signature r)), (''registration_signature'', Txt (s_registration_signature r)),
     (''registration_hash'', Bin (s_registration_hash r)), (''state'', Txt (s_state r)),
     (''version'', Int4 (s_version r)), (''request_event_id'', null_or Txt (s_request_event_id r)),
     (''request_room_ciphertext'', null_or Bin (s_request_room_ciphertext r)),
     (''request_sender_ciphertext'', null_or Bin (s_request_sender_ciphertext r)),
     (''challenge_hash'', null_or Bin (s_challenge_hash r)),
     (''challenge_expires_at'', null_or Int8 (s_challenge_expires_at r)),
     (''consent_event_id'', null_or Txt (s_consent_event_id r)),
     (''display_name_ciphertext'', null_or Bin (s_display_name_ciphertext r)),
     (''assertion_jti'', null_or Txt (s_assertion_jti r)),
     (''assertion_ciphertext'', null_or Bin (s_assertion_ciphertext r)), (''created_at'', Stamp created_at),
     (''expires_at'', Stamp (s_expires_at r))]"

definition grant_cells :: "int \<Rightarrow> GrantRow \<Rightarrow> row" where
  "grant_cells created_at g = [
     (''id'', Int8 (g_id g)), (''domain'', Txt (g_domain g)), (''subject_hash'', Bin (g_subject_hash g)),
     (''subject_ciphertext'', Bin (g_subject_ciphertext g)),
     (''matrix_user_ciphertext'', Bin (g_matrix_user_ciphertext g)), (''session_id'', Txt (g_session_id g)),
     (''nonce_hash'', Bin (g_nonce_hash g)), (''subject_key_version'', Int4 (g_subject_key_version g)),
     (''created_at'', Stamp created_at), (''revoked_at'', null_or Stamp (g_revoked_at g))]"

definition job_cells :: "DeliveryJob \<Rightarrow> row" where
  "job_cells j = [
     (''id'', Int8 (j_id j)), (''kind'', Txt (j_kind j)), (''domain'', Txt (j_domain j)), (''jti'', Txt (j_jti j)),
     (''payload_ciphertext'', Bin (j_payload_ciphertext j)), (''idempotency_key'', Txt (j_idempotency_key j)),
     (''session_id'', Txt (j_session_id j)), (''nonce_hash'', Bin (j_nonce_hash j)),
     (''attempts'', Int4 (j_attempts j)), (''status'', Txt (j_status j))]"

subsection \<open>Driver errors\<close>

record pg_error =
  pe_code :: "string option"

definition is_unique_violation :: "pg_error \<Rightarrow> bool" where
  "is_unique_violation e \<longleftrightarrow> pe_code e = Some ''23505''"

definition conflict_or_internal :: "pg_error \<Rightarrow> RelayError" where
  "conflict_or_internal e = (if is_unique_violation e then Problem SessionConflict else Problem InternalError)"

definition map_unique :: "pg_error + nat \<Rightarrow> ProblemCode \<Rightarrow> unit relay_result" where
  "map_unique result conflict =
     (case result of
        Inr _ \<Rightarrow> Inr ()
      | Inl e \<Rightarrow> if is_unique_violation e then err conflict else err InternalError)"

text \<open>
  The insert of \<^verbatim>\<open>insert_text\<close> as the driver sees it, and that the statements of the store answer as \<open>map_unique\<close> does.
\<close>

definition execute_insert :: "(string \<times> int) list \<Rightarrow> string \<Rightarrow> int \<Rightarrow> (pg_error + nat) \<times> (string \<times> int) list" where
  "execute_insert table value expires_at =
     (if value \<in> fst ` set table then (Inl \<lparr>pe_code = Some ''23505''\<rparr>, table) else (Inr 1, table @ [(value, expires_at)]))"

lemma insert_key_mapped:
  "insert_key table value expires_at conflict = (map_unique (fst (execute_insert table value expires_at)) conflict, snd (execute_insert table value expires_at))"
  by (simp add: insert_key_def execute_insert_def map_unique_def is_unique_violation_def)

text \<open>The parameters of the insert of a session.\<close>

definition insert_columns :: "sql_type list" where
  "insert_columns = [TEXT, TEXT, BYTEA, BYTEA, BIGINT, BIGINT, TEXT, TEXT, TEXT, TEXT, TEXT, BYTEA, TIMESTAMPTZ]"

definition insert_params :: "NewSession \<Rightarrow> int \<Rightarrow> sql_value list" where
  "insert_params n expires_at =
     [Txt (n_domain n), Txt (n_session_id n), Bin (n_nonce_hash n), Bin (n_nonce_ciphertext n), Int8 (n_iat n), Int8 (n_exp n),
      Txt (n_requested_display_name n), Txt (n_site_display_name n), Txt (n_site_public_key n), Txt (n_qr_signature n),
      Txt (n_registration_signature n), Bin (n_registration_hash n), Stamp expires_at]"

subsection \<open>Every row of a table can be read\<close>

definition readable :: "row \<Rightarrow> string \<times> sql_type \<times> bool \<Rightarrow> bool" where
  "readable row col = (case col of (n, t, nul) \<Rightarrow> \<exists>v. map_of row n = Some v \<and> (v = Null \<and> nul \<or> has_type t v))"

lemma fits_readable:
  assumes "fits cols row" "distinct (map fst cols)" "col \<in> set cols"
  shows "readable row col"
  using assms unfolding fits_def
proof (induction rule: list_all2_induct)
  case (Cons x xs y ys)
  then show ?case by (cases x; cases y; cases col) (force simp: readable_def holds_in_def)
qed simp

lemma has_type_cases:
  "has_type BIGINT v \<longleftrightarrow> (\<exists>i. v = Int8 i \<and> in_i64 i)" "has_type INTEGER v \<longleftrightarrow> (\<exists>i. v = Int4 i \<and> in_i32 i)"
  "has_type TEXT v \<longleftrightarrow> (\<exists>s. v = Txt s \<and> CHR 0x00 \<notin> set s)" "has_type BYTEA v \<longleftrightarrow> (\<exists>b. v = Bin b)"
  "has_type TIMESTAMPTZ v \<longleftrightarrow> (\<exists>t. v = Stamp t)"
  by (cases v; simp)+

lemma get_reads:
  "readable row (n, BIGINT, False) \<Longrightarrow> \<exists>x. row_get from_int8 row n = Some x"
  "readable row (n, INTEGER, False) \<Longrightarrow> \<exists>x. row_get from_int4 row n = Some x"
  "readable row (n, TEXT, False) \<Longrightarrow> \<exists>x. row_get from_text row n = Some x"
  "readable row (n, BYTEA, False) \<Longrightarrow> \<exists>x. row_get from_bytea row n = Some x"
  "readable row (n, BIGINT, True) \<Longrightarrow> \<exists>x. row_get (nullable from_int8) row n = Some x"
  "readable row (n, TEXT, True) \<Longrightarrow> \<exists>x. row_get (nullable from_text) row n = Some x"
  "readable row (n, BYTEA, True) \<Longrightarrow> \<exists>x. row_get (nullable from_bytea) row n = Some x"
  "readable row (n, TIMESTAMPTZ, True) \<Longrightarrow> \<exists>x. row_get (nullable from_stamp) row n = Some x"
  by (auto simp: readable_def row_get_def nullable_def has_type_cases)

lemma bind_total: "\<exists>x. m = Some x \<Longrightarrow> (\<And>x. \<exists>y. f x = Some y) \<Longrightarrow> \<exists>y. Option.bind m f = Some y"
  by auto

locale table_reader =
  fixes cols :: columns and from_row :: "row \<Rightarrow> 'a option"
  assumes names: "distinct (map fst cols)"
    and total: "(\<And>col. col \<in> set cols \<Longrightarrow> readable row col) \<Longrightarrow> \<exists>x. from_row row = Some x"
begin

lemma decodes: "fits cols row \<Longrightarrow> \<exists>x. from_row row = Some x"
  by (rule total) (rule fits_readable [OF _ names])

end

interpretation session_rows: table_reader sessions_columns session_from_row
proof
  show "distinct (map fst sessions_columns)" by (simp add: sessions_columns_def)
  show "\<exists>x. session_from_row row = Some x" if all: "\<And>col. col \<in> set sessions_columns \<Longrightarrow> readable row col" for row
    unfolding session_from_row_def by (intro bind_total get_reads all) (simp_all add: sessions_columns_def)
qed

interpretation grant_rows: table_reader grants_columns grant_from_row
proof
  show "distinct (map fst grants_columns)" by (simp add: grants_columns_def)
  show "\<exists>x. grant_from_row row = Some x" if all: "\<And>col. col \<in> set grants_columns \<Longrightarrow> readable row col" for row
    unfolding grant_from_row_def by (intro bind_total get_reads all) (simp_all add: grants_columns_def)
qed

interpretation job_rows: table_reader claimed_columns job_from_row
proof
  show "distinct (map fst claimed_columns)" by (simp add: claimed_columns_def)
  show "\<exists>x. job_from_row row = Some x" if all: "\<And>col. col \<in> set claimed_columns \<Longrightarrow> readable row col" for row
    unfolding job_from_row_def by (intro bind_total get_reads all) (simp_all add: claimed_columns_def)
qed

lemma row_get_cell: "row_get f ((n, v) # row) m = (if m = n then f v else row_get f row m)"
  by (simp add: row_get_def)

lemma null_or_read [simp]:
  "nullable from_int8 (null_or Int8 i) = Some i" "nullable from_text (null_or Txt s) = Some s"
  "nullable from_bytea (null_or Bin b) = Some b" "nullable from_stamp (null_or Stamp t) = Some t"
  by (simp_all add: nullable_def null_or_def split: option.splits)

lemma cells_decode:
  "session_from_row (session_cells created_at r) = Some (r\<lparr>s_expires_at := 0\<rparr>)"
  "grant_from_row (grant_cells created_at g) = Some g" "job_from_row (job_cells j) = Some (j\<lparr>j_next_retry_at := None\<rparr>)"
  by (simp_all add: session_from_row_def session_cells_def grant_from_row_def grant_cells_def job_from_row_def job_cells_def row_get_cell)

subsection \<open>Properties\<close>

lemma stored_cells_fit:
  assumes "in_i64 (s_id r)" "in_i64 (s_iat r)" "in_i64 (s_exp r)" "in_i32 (s_version r)"
    and "\<forall>e. s_challenge_expires_at r = Some e \<longrightarrow> in_i64 e"
    and "\<forall>x \<in> {s_domain r, s_session_id r, s_requested_display_name r, s_site_display_name r, s_site_public_key r, s_qr_signature r,
      s_registration_signature r, s_state r} \<union> set_option (s_request_event_id r) \<union> set_option (s_consent_event_id r)
      \<union> set_option (s_assertion_jti r). CHR 0x00 \<notin> set x"
  shows "fits sessions_columns (session_cells created_at r)"
  using assms by (simp add: fits_def sessions_columns_def session_cells_def holds_in_def null_or_def split: option.splits)

text \<open>
  C18. The readers of rows match the schema. Every row that fits the columns the migration creates for sessions
  and grants, or the columns the claim of jobs returns, is read without a panic: every column is asked for by
  its name, at its type, and as optional exactly where it may be null. What is read is what is stored: each
  field of a session, a grant and a job comes from its own column.
\<close>

theorem rows_decode:
  "(fits sessions_columns row \<longrightarrow> (\<exists>r. session_from_row row = Some r))
   \<and> (fits grants_columns row \<longrightarrow> (\<exists>g. grant_from_row row = Some g))
   \<and> (fits claimed_columns row \<longrightarrow> (\<exists>j. job_from_row row = Some j))
   \<and> session_from_row (session_cells created_at r) = Some (r\<lparr>s_expires_at := 0\<rparr>)
   \<and> grant_from_row (grant_cells created_at g) = Some g \<and> job_from_row (job_cells j) = Some (j\<lparr>j_next_retry_at := None\<rparr>)"
  using session_rows.decodes grant_rows.decodes job_rows.decodes cells_decode by blast

theorem rows_decode_witness:
  "fits claimed_columns [(''id'', Int8 7), (''kind'', Txt ''assertion''), (''domain'', Txt ''a.org''), (''jti'', Txt ''j''),
     (''payload_ciphertext'', Bin ''c''), (''idempotency_key'', Txt ''j''), (''session_id'', Txt ''s''), (''nonce_hash'', Bin ''h''),
     (''attempts'', Int4 1), (''status'', Txt ''pending'')]
   \<and> (\<exists>j. job_from_row [(''id'', Int8 7), (''kind'', Txt ''assertion''), (''domain'', Txt ''a.org''), (''jti'', Txt ''j''),
     (''payload_ciphertext'', Bin ''c''), (''idempotency_key'', Txt ''j''), (''session_id'', Txt ''s''), (''nonce_hash'', Bin ''h''),
     (''attempts'', Int4 1), (''status'', Txt ''pending'')] = Some j)
   \<and> fits sessions_columns (session_cells 5 demo_row) \<and> (\<exists>r. session_from_row (session_cells 5 demo_row) = Some r)"
  (is "?fits \<and> _")
proof -
  have fits: ?fits by (simp add: fits_def claimed_columns_def holds_in_def in_i64_def in_i32_def i64_defs)
  have "fits sessions_columns (session_cells 5 demo_row)"
    by (rule stored_cells_fit) (simp_all add: demo_row_def new_row_def demo_session_def demo_sid_def i64_defs)
  with fits rows_decode show ?thesis by blast
qed

lemma ascii_no_zero:
  "validate_domain_field d = Inr u \<Longrightarrow> CHR 0x00 \<notin> set d" "validate_id s = Inr u \<Longrightarrow> CHR 0x00 \<notin> set s"
  "validate_signature_b64 s = Inr u \<Longrightarrow> CHR 0x00 \<notin> set s"
  using domain_chars [of d "CHR 0x00"] id_tok.accepts_chars [of s u "CHR 0x00"] sig_tok.accepts_chars [of s u "CHR 0x00"]
  by (auto simp: validate_domain_field_def validate_domain_iff in_cls_def LABEL_MID_def TOKEN_def char_le_iff)

lemma key_no_zero:
  assumes "base64_engine (b64_encode c) (b64_decode c)" "ed25519_verify c key m sg = Inr u"
  shows "CHR 0x00 \<notin> set key"
proof -
  obtain b where "b64_decode c key = Some b"
    using assms(2) by (auto simp: ed25519_verify_def parse_public_key_def base64url_decode_def ok_or_def result_simps split: if_splits option.splits)
  with base64_engine.enc_dec [OF assms(1)] base64_engine.enc_alphabet [OF assms(1), of b] show ?thesis
    by (auto simp: list_all_iff in_cls_def TOKEN_def char_le_iff)
qed

text \<open>
  C19. What a registration can store. When a registration has passed every check of the service, PostgreSQL
  accepts the parameters of its insert exactly when neither the display name the site asks for nor the one in
  its metadata contains a zero byte, which JSON can write and no check refuses; otherwise the statement fails
  with a character error, which the service reports as its own internal error.
\<close>

theorem registration_storable:
  assumes "registration_checked app orc request metadata n" "base64_engine (b64_encode (crates_of app)) (b64_decode (crates_of app))"
    and "in_i64 (reg_iat request)" "in_i64 (reg_exp request)"
  shows "(list_all2 has_type insert_columns (insert_params n t)
      \<longleftrightarrow> CHR 0x00 \<notin> set (reg_display_name request) \<and> CHR 0x00 \<notin> set (md_display_name metadata))
    \<and> conflict_or_internal \<lparr>pe_code = Some ''22021''\<rparr> = Problem InternalError"
proof -
  from assms(1) obtain h ct rh qr where n: "n = new_session request metadata h ct rh" and v: "registration_validate request = Inr ()"
    and key: "ed25519_verify (crates_of app) (md_public_key metadata) qr (reg_qr_signature request) = Inr ()"
    unfolding registration_checked_def by blast
  from v have "validate_domain_field (reg_domain request) = Inr ()" "validate_id (reg_session_id request) = Inr ()"
    "validate_signature_b64 (reg_qr_signature request) = Inr ()" "validate_signature_b64 (reg_signature request) = Inr ()"
    by (auto simp: registration_validate_def result_simps split: if_splits)
  then show ?thesis
    using ascii_no_zero key_no_zero [OF assms(2) key] assms(3,4)
    by (auto simp: n insert_columns_def insert_params_def new_session_def conflict_or_internal_def is_unique_violation_def)
qed

lemma demo_checked:
  "\<exists>n. registration_checked demo_app (demo_oracles\<lparr>o_fetch := (\<lambda>_. Inr (demo_metadata\<lparr>md_display_name := name\<rparr>))\<rparr>) demo_request
     (demo_metadata\<lparr>md_display_name := name\<rparr>) n"
proof -
  obtain j where j: "json_to_vec demo_crates (Object (registration_json demo_request)) = Some j"
    using demo_json [of "registration_json demo_request"] by (force simp: registration_json_def)
  obtain ct where ct: "at_rest_encrypt demo_app demo_oracles 0 demo_nonce = Inr ct"
    using at_rest_total [OF _ demo_calm, of demo_app 0 demo_nonce] demo_aead by auto
  then show ?thesis
    using demo_request_canonical j demo_request_valid
    by (auto simp: registration_checked_def demo_site_signature at_rest_encrypt_def)
qed

theorem registration_storable_witness:
  "\<exists>n n'. list_all2 has_type insert_columns (insert_params n 30200) \<and> n_site_display_name n = ''B''
     \<and> \<not> list_all2 has_type insert_columns (insert_params n' 30200) \<and> n_site_display_name n' = [CHR 0x00]
     \<and> n_session_id n = n_session_id n'"
proof -
  have names: "CHR 0x00 \<notin> set (reg_display_name demo_request)" "in_i64 (reg_iat demo_request)" "in_i64 (reg_exp demo_request)"
    by (simp_all add: demo_request_def demo_qr_signed_def demo_unsigned_def i64_defs)
  have "\<exists>n. (list_all2 has_type insert_columns (insert_params n 30200) \<longleftrightarrow> CHR 0x00 \<notin> set name) \<and> n_site_display_name n = name
      \<and> n_session_id n = reg_session_id demo_request" for name
  proof -
    obtain n where n: "registration_checked demo_app (demo_oracles\<lparr>o_fetch := (\<lambda>_. Inr (demo_metadata\<lparr>md_display_name := name\<rparr>))\<rparr>) demo_request
        (demo_metadata\<lparr>md_display_name := name\<rparr>) n" using demo_checked by blast
    then have "n_site_display_name n = name" "n_session_id n = reg_session_id demo_request"
      by (auto simp: registration_checked_def new_session_def)
    with registration_storable [OF n] names demo_base64 show ?thesis by auto
  qed
  from this [of "''B''"] this [of "[CHR 0x00]"] show ?thesis by fastforce
qed

end
