(* ===== verification/Login_Flow.thy ===== *)
theory Login_Flow
  imports Login_Completion Login_Properties
begin

text \<open>
  A whole login: the request, the consent to the challenge it was answered with, and the delivery, one after
  the other on the same tables.
\<close>

subsection \<open>The session after the request\<close>

definition challenged :: "AppState \<Rightarrow> oracles \<Rightarrow> InboundEvent \<Rightarrow> bytes \<Rightarrow> bytes \<Rightarrow> bytes \<Rightarrow> SessionRow \<Rightarrow> SessionRow" where
  "challenged app orc event h room_ct sender_ct session = apply_update ''CHALLENGE_SENT''
     (request_update app orc event session (o_now orc 0) h room_ct sender_ct) session"

lemma challenged_simps [simp]:
  "s_id (challenged app orc event h rc sc r) = s_id r" "s_domain (challenged app orc event h rc sc r) = s_domain r"
  "s_session_id (challenged app orc event h rc sc r) = s_session_id r" "s_nonce_hash (challenged app orc event h rc sc r) = s_nonce_hash r"
  "s_nonce_ciphertext (challenged app orc event h rc sc r) = s_nonce_ciphertext r"
  "s_iat (challenged app orc event h rc sc r) = s_iat r" "s_exp (challenged app orc event h rc sc r) = s_exp r"
  "s_version (challenged app orc event h rc sc r) = s_version r + 1" "s_challenge_hash (challenged app orc event h rc sc r) = Some h"
  "s_request_room_ciphertext (challenged app orc event h rc sc r) = Some rc"
  "s_request_sender_ciphertext (challenged app orc event h rc sc r) = Some sc"
  "s_challenge_expires_at (challenged app orc event h rc sc r) = Some (challenge_expires_at (o_now orc 0) (s_exp r))"
  by (simp_all add: challenged_def apply_update_def request_update_def no_update_def coalesce_def)

lemma stored_text_encrypted:
  assumes "aead_ok (crates_of app) (at_rest app)" "calm orc" "at_rest_encrypt app orc k p = Inr ct" "utf8_valid p"
  shows "stored_text app (Some ct) = Some p"
  using at_rest_readable [OF assms(1-3)] assms(4) by (simp add: stored_text_def ok_def)

lemma lookup_replaced:
  assumes "fst (get_by_session_and_nonce s h db) = Inr (Some session)" "s_session_id r = s_session_id session" "s_nonce_hash r = s_nonce_hash session"
    and "sessions db' = map (\<lambda>x. if x = session then r else x) (sessions db)"
  shows "fst (get_by_session_and_nonce s h db') = Inr (Some r)"
proof -
  let ?P = "\<lambda>x. s_session_id x = s \<and> s_nonce_hash x = h"
  have one: "filter ?P (sessions db) = [session]" using assms(1) by (simp add: get_by_session_and_nonce_def query_opt_Some)
  have same: "?P (if x = session then r else x) = ?P x" for x using assms(2,3) by simp
  have "filter ?P (sessions db') = map (\<lambda>x. if x = session then r else x) (filter ?P (sessions db))"
    unfolding assms(4) filter_map comp_def same ..
  then show ?thesis by (simp add: one get_by_session_and_nonce_def query_opt_def)
qed

lemma request_challenges:
  assumes ok: "schema_ok (w_db w)" and calm: "calm orc" and crypto: "hmac_ok (crates_of app)" "aead_ok (crates_of app) (at_rest app)"
    and row: "session \<in> set (sessions (w_db w))" "s_challenge_hash session = None" "s_version session \<noteq> i32_max"
    and live: "o_now orc 0 \<le> s_exp session" "sent_at_in_qr_window t (s_iat session) (s_exp session)"
    and nonce: "keyed_hash (crates_of app) (lookup_pepper app) n = Inr (s_nonce_hash session)"
    and expiry: "until app (s_exp session) = Inr expiry"
    and event_new: "ev_event_id event \<notin> fst ` set (replay_request_event_ids (w_db w))"
    and hash: "challenge = base64url_encode (crates_of app) (o_rng orc 0 16)"
      "keyed_hash (crates_of app) (lookup_pepper app) challenge = Inr h" "h \<notin> fst ` set (replay_challenge_hashes (w_db w))"
    and body: "matrix_encode (crates_of app) (Challenge (s_session_id session) n (o_now orc 0) (s_site_display_name session)
      (s_domain session) (s_requested_display_name session) challenge (challenge_expires_at (o_now orc 0) (s_exp session))) = Inr body"
    and sink: "o_sink orc (ev_room_id event) body = Inr ()"
  obtains w' room_ct sender_ct where "process_request app orc event (s_session_id session) n t (s_domain session) w = (Inr Sent, w')"
    "w_outbox w' = w_outbox w @ [\<lparr>on_room_id = ev_room_id event, on_body = body\<rparr>]" "w_posts w' = w_posts w"
    "at_rest_encrypt app orc 1 (ev_room_id event) = Inr room_ct" "at_rest_encrypt app orc 2 (ev_sender event) = Inr sender_ct"
    "sessions (w_db w') = map (\<lambda>x. if x = session then challenged app orc event h room_ct sender_ct session else x) (sessions (w_db w))"
    "schema_ok (w_db w')" "delivery_jobs (w_db w') = delivery_jobs (w_db w)"
    "replay_consent_event_ids (w_db w') = replay_consent_event_ids (w_db w)"
    "replay_assertion_jtis (w_db w') = replay_assertion_jtis (w_db w)"
proof (rule request_commits [OF ok calm crypto row live nonce expiry event_new hash(2) [unfolded hash(1)] hash(3)])
  fix db room_ct sender_ct
  assume tx: "run_tx orc (request_tx app orc event (s_session_id session) n t (s_domain session) (s_nonce_hash session) (o_now orc 0)) w
      = (Inr (Some (Challenge (s_session_id session) n (o_now orc 0) (s_site_display_name session) (s_domain session)
           (s_requested_display_name session) (base64url_encode (crates_of app) (o_rng orc 0 16))
           (challenge_expires_at (o_now orc 0) (s_exp session)))), w\<lparr>w_db := db\<rparr>)"
    and rest: "at_rest_encrypt app orc 1 (ev_room_id event) = Inr room_ct" "at_rest_encrypt app orc 2 (ev_sender event) = Inr sender_ct"
      "sessions db = map (\<lambda>x. if x = session then apply_update ''CHALLENGE_SENT''
        (request_update app orc event session (o_now orc 0) h room_ct sender_ct) session else x) (sessions (w_db w))"
      "schema_ok db" "delivery_jobs db = delivery_jobs (w_db w)" "replay_consent_event_ids db = replay_consent_event_ids (w_db w)"
      "replay_assertion_jtis db = replay_assertion_jtis (w_db w)"
  let ?w = "w\<lparr>w_db := db, w_outbox := w_outbox w @ [\<lparr>on_room_id = ev_room_id event, on_body = body\<rparr>],
      w_metrics := (w_metrics w)\<lparr>challenges := challenges (w_metrics w) + 1\<rparr>\<rparr>"
  have "process_request app orc event (s_session_id session) n t (s_domain session) w = (Inr Sent, ?w)"
    using tx body sink hash(1)
    by (simp add: process_request_def lift_then nonce bnd_def lift_result_def send_notice_def inc_def ret_def)
  with rest show thesis by (intro that [of ?w room_ct sender_ct]) (simp_all add: challenged_def)
qed

subsection \<open>The whole login\<close>

text \<open>
  C4. A login completes. From a registered session without a challenge: the app's request is answered, in its
  room, with a fresh challenge; a consent to that challenge, signed, from the same user and room and in time, is
  accepted; and the next tick of the delivery worker posts exactly the signed assertion to the session's site,
  leaves the session and the job delivered and tells the room that the login succeeded. All it takes is that
  the identifiers are fresh, nothing else is due, the site answers 200 or 202 and neither the database nor
  the sink fails in between.
\<close>

theorem login_completes:
  assumes ok: "schema_ok (w_db w)" and calm: "calm orc1" "calm orc" "\<forall>k. calm (orcs k)"
    and crypto: "hmac_ok (crates_of app)" "aead_ok (crates_of app) (at_rest app)"
    and row: "session \<in> set (sessions (w_db w))" "s_challenge_hash session = None" "s_version session + 2 < i32_max"
    and only: "fst (get_by_session_and_nonce (s_session_id session) (s_nonce_hash session) (w_db w)) = Inr (Some session)"
    and nonce: "keyed_hash (crates_of app) (lookup_pepper app) n = Inr (s_nonce_hash session)" "decrypt_text app (s_nonce_ciphertext session) = Inr n"
    and expiry: "until app (s_exp session) = Inr expiry"
    and request: "o_now orc1 0 \<le> s_exp session" "sent_at_in_qr_window t1 (s_iat session) (s_exp session)"
      "ev_event_id event1 \<notin> fst ` set (replay_request_event_ids (w_db w))"
      "ch = base64url_encode (crates_of app) (o_rng orc1 0 16)" "keyed_hash (crates_of app) (lookup_pepper app) ch = Inr h"
      "h \<notin> fst ` set (replay_challenge_hashes (w_db w))"
      "matrix_encode (crates_of app) (Challenge (s_session_id session) n (o_now orc1 0) (s_site_display_name session) (s_domain session)
        (s_requested_display_name session) ch (challenge_expires_at (o_now orc1 0) (s_exp session))) = Inr body1"
      "o_sink orc1 (ev_room_id event1) body1 = Inr ()"
    and user: "ev_sender event = ev_sender event1" "ev_room_id event = ev_room_id event1" "utf8_valid (ev_sender event1)" "utf8_valid (ev_room_id event1)"
    and consent: "consent_signed_bytes (crates_of app) True ch (Some display) n (s_session_id session) t = Inr msg"
      "verify_consent_signature (crates_of app) k msg sg = Inr ()"
      "o_now orc 0 \<le> s_exp session" "sent_at_in_qr_window t (s_iat session) (s_exp session)"
      "t \<le> challenge_expires_at (o_now orc1 0) (s_exp session)" "o_now orc 0 \<le> challenge_expires_at (o_now orc1 0) (s_exp session)"
    and fresh: "ev_event_id event \<notin> fst ` set (replay_consent_event_ids (w_db w))"
      "fresh_jti app orc 2 \<notin> fst ` set (replay_assertion_jtis (w_db w))"
      "\<forall>j \<in> set (delivery_jobs (w_db w)). j_jti j \<noteq> fresh_jti app orc 2 \<and> \<not> job_due (o_db_now (orcs 0)) j"
    and sub: "derive_pairwise_sub (crates_of app) (subject_secret app) (s_domain session) (ev_sender event) = Inr sub"
    and sign: "assertion_sign (crates_of app) (signing_key app) (signing_kid app) (s_domain session) sub (s_session_id session) n
       (fresh_jti app orc 2) (o_now orc 0) (min (s_exp session) (wrapping_add (o_now orc 0) MAX_TTL_MS)) display
       (subject_key_version app) = Inr a"
    and json: "json_text_ok (crates_of app) (assertion_entries a) payload"
      "in_i64 (o_now orc 0)" "in_i64 (s_exp session)" "in_i32 (subject_key_version app)"
    and later: "o_db_now orc \<le> o_db_now (orcs 0)"
    and site: "o_post (orcs 1) (s_domain session) ''/pseud0/web-login/assertions'' payload (Some (fresh_jti app orc 2)) = Inr response"
      "sr_status response \<in> {200, 202}"
    and body: "matrix_encode (crates_of app) (Result (s_session_id session) n (o_now (orcs 1) 0) True (Some sub) None) = Inr body2"
    and sink: "o_sink (orcs 1) (ev_room_id event) body2 = Inr ()"
  shows "\<exists>w1 w2 w3 r j. process_request app orc1 event1 (s_session_id session) n t1 (s_domain session) w = (Inr Sent, w1)
    \<and> process_consent app orc event (s_session_id session) n t True (Some display) ch k sg w1 = (Inr Sent, w2)
    \<and> tick app orcs w2 = (Inr (), w3)
    \<and> w_posts w3 = w_posts w @ [\<lparr>sp_domain = s_domain session, sp_path = ''/pseud0/web-login/assertions'', sp_body = payload,
        sp_key = Some (fresh_jti app orc 2)\<rparr>]
    \<and> w_outbox w3 = w_outbox w @ [\<lparr>on_room_id = ev_room_id event, on_body = body1\<rparr>, \<lparr>on_room_id = ev_room_id event, on_body = body2\<rparr>]
    \<and> sessions (w_db w3) = map (\<lambda>x. if x = session then r else x) (sessions (w_db w))
    \<and> s_state r = ''ASSERTION_DELIVERED'' \<and> s_version r = s_version session + 3 \<and> s_session_id r = s_session_id session
    \<and> s_consent_event_id r = Some (ev_event_id event) \<and> s_assertion_jti r = Some (fresh_jti app orc 2)
    \<and> delivery_jobs (w_db w3) = delivery_jobs (w_db w) @ [j] \<and> j_jti j = fresh_jti app orc 2 \<and> j_status j = ''delivered''"
proof -
  have v: "s_version session \<noteq> i32_max" using row(3) by simp
  obtain w1 room_ct sender_ct where w1: "process_request app orc1 event1 (s_session_id session) n t1 (s_domain session) w = (Inr Sent, w1)"
    "w_outbox w1 = w_outbox w @ [\<lparr>on_room_id = ev_room_id event1, on_body = body1\<rparr>]" "w_posts w1 = w_posts w"
    "at_rest_encrypt app orc1 1 (ev_room_id event1) = Inr room_ct" "at_rest_encrypt app orc1 2 (ev_sender event1) = Inr sender_ct"
    "sessions (w_db w1) = map (\<lambda>x. if x = session then challenged app orc1 event1 h room_ct sender_ct session else x) (sessions (w_db w))"
    "schema_ok (w_db w1)" "delivery_jobs (w_db w1) = delivery_jobs (w_db w)"
    "replay_consent_event_ids (w_db w1) = replay_consent_event_ids (w_db w)"
    "replay_assertion_jtis (w_db w1) = replay_assertion_jtis (w_db w)"
    by (rule request_challenges [OF ok calm(1) crypto row(1,2) v request(1,2) nonce(1) expiry request(3-8)])
  let ?s = "challenged app orc1 event1 h room_ct sender_ct session"
  have mem: "?s \<in> set (sessions (w_db w1))" using row(1) by (force simp: w1(6))
  have look: "fst (get_by_session_and_nonce (s_session_id session) (s_nonce_hash session) (w_db w1)) = Inr (Some ?s)"
    by (rule lookup_replaced [OF only _ _ w1(6)]) simp_all
  have texts: "stored_text app (Some sender_ct) = Some (ev_sender event)" "stored_text app (Some room_ct) = Some (ev_room_id event)"
    using stored_text_encrypted [OF crypto(2) calm(1)] w1(4,5) user by simp_all
  have "\<exists>w2 w3 r j. process_consent app orc event (s_session_id ?s) n t True (Some display) ch k sg w1 = (Inr Sent, w2)
    \<and> tick app orcs w2 = (Inr (), w3)
    \<and> w_posts w3 = w_posts w1 @ [\<lparr>sp_domain = s_domain ?s, sp_path = ''/pseud0/web-login/assertions'', sp_body = payload,
        sp_key = Some (fresh_jti app orc 2)\<rparr>]
    \<and> w_outbox w3 = w_outbox w1 @ [\<lparr>on_room_id = ev_room_id event, on_body = body2\<rparr>]
    \<and> sessions (w_db w3) = map (\<lambda>x. if x = ?s then r else x) (sessions (w_db w1))
    \<and> s_state r = ''ASSERTION_DELIVERED'' \<and> s_version r = s_version ?s + 2 \<and> s_session_id r = s_session_id ?s
    \<and> s_consent_event_id r = Some (ev_event_id event) \<and> s_assertion_jti r = Some (fresh_jti app orc 2)
    \<and> delivery_jobs (w_db w3) = delivery_jobs (w_db w1) @ [j] \<and> j_jti j = fresh_jti app orc 2 \<and> j_status j = ''delivered''"
    by (rule consent_reaches_site [OF w1(7) calm(2,3) crypto mem, where h = h and expiry = expiry and msg = msg and sub = sub and a = a
        and response = response])
      (use row(3) look nonce request(5) consent texts expiry fresh sub sign json later site body sink in \<open>simp_all add: w1(8-10)\<close>)
  then obtain w2 w3 r j where flow: "process_consent app orc event (s_session_id session) n t True (Some display) ch k sg w1 = (Inr Sent, w2)"
    "tick app orcs w2 = (Inr (), w3)"
    "w_posts w3 = w_posts w @ [\<lparr>sp_domain = s_domain session, sp_path = ''/pseud0/web-login/assertions'', sp_body = payload,
        sp_key = Some (fresh_jti app orc 2)\<rparr>]"
    "w_outbox w3 = w_outbox w1 @ [\<lparr>on_room_id = ev_room_id event, on_body = body2\<rparr>]"
    "sessions (w_db w3) = map (\<lambda>x. if x = ?s then r else x) (sessions (w_db w1))"
    "s_state r = ''ASSERTION_DELIVERED''" "s_version r = s_version session + 1 + 2" "s_session_id r = s_session_id session"
    "s_consent_event_id r = Some (ev_event_id event)" "s_assertion_jti r = Some (fresh_jti app orc 2)"
    "delivery_jobs (w_db w3) = delivery_jobs (w_db w) @ [j]" "j_jti j = fresh_jti app orc 2" "j_status j = ''delivered''"
    unfolding challenged_simps w1(3,8) by blast
  have "sessions (w_db w3) = map (\<lambda>x. if x = session then r else x) (sessions (w_db w))"
    unfolding flow(5) w1(6) by (rule updated_rows [OF ok row(1)]) simp
  with w1(1,2) flow user(2) show ?thesis
    by (intro exI [of _ w1] exI [of _ w2] exI [of _ w3] exI [of _ r] exI [of _ j]) simp
qed

lemma demo_challenge_encoded:
  "\<exists>body. matrix_encode (crates_of demo_login_app) (Challenge demo_sid demo_nonce 100 ''Site'' ''a.org'' ''Al'' ''QUFBQUFBQUFBQUFBQUFBQQ'' 200) = Inr body"
proof -
  have "validate_outbound (Challenge demo_sid demo_nonce 100 ''Site'' ''a.org'' ''Al'' ''QUFBQUFBQUFBQUFBQUFBQQ'' 200) = Inr ()" by code_simp
  then show ?thesis by (simp add: matrix_encode_def demo_login_crates ok_or_def MAX_DECODED_BODY_def del: validate_outbound.simps)
qed

theorem login_completes_witness:
  "\<exists>sg w1 w2 w3 b1 b2. process_request demo_login_app demo_oracles (demo_event ''$1'') demo_sid demo_nonce 100 ''a.org'' demo_world = (Inr Sent, w1)
     \<and> process_consent demo_login_app demo_oracles (demo_event ''$2'') demo_sid demo_nonce 100 True (Some ''Al'')
         ''QUFBQUFBQUFBQUFBQUFBQQ'' demo_key sg w1 = (Inr Sent, w2)
     \<and> tick demo_login_app (\<lambda>_. demo_oracles) w2 = (Inr (), w3)
     \<and> map (\<lambda>p. (sp_domain p, sp_body p)) (w_posts w3) = [(''a.org'', ''doc'')]
     \<and> map on_body (w_outbox w3) = [b1, b2] \<and> map s_state (sessions (w_db w3)) = [''ASSERTION_DELIVERED'']"
proof (rule demo_login_facts)
  let ?app = demo_login_app and ?ch = "''QUFBQUFBQUFBQUFBQUFBQQ''"
  assume facts: "derive_pairwise_sub demo_crates (subject_secret demo_app) ''a.org'' ''@a'' = Inr demo_sub"
    "assertion_sign demo_crates (signing_key demo_app) (signing_kid demo_app) ''a.org'' demo_sub demo_sid demo_nonce
      (fresh_jti demo_app demo_oracles 2) 100 200 ''Al'' 1 = Inr demo_assertion"
  obtain b where b: "consent_signed_bytes demo_crates True ?ch (Some ''Al'') demo_nonce demo_sid 100 = Inr b" using demo_signed by blast
  obtain body1 where body1: "matrix_encode (crates_of ?app) (Challenge demo_sid demo_nonce 100 ''Site'' ''a.org'' ''Al'' ?ch 200) = Inr body1"
    using demo_challenge_encoded by blast
  obtain body2 where body2: "matrix_encode (crates_of ?app) (Result demo_sid demo_nonce 100 True (Some demo_sub) None) = Inr body2"
    using demo_result_encoded by blast
  have ch: "base64url_encode demo_crates (o_rng demo_oracles 0 16) = ?ch" "challenge_expires_at 100 200 = 200"
    "decrypt_text demo_app (s_nonce_ciphertext demo_row) = Inr demo_nonce" "utf8_valid ''@a''" "utf8_valid ''!r''"
    by code_simp+
  have ttl: "min 200 (wrapping_add 100 MAX_TTL_MS) = 200" by (simp add: wrapping_add_def MAX_TTL_MS_def)
  have row: "s_site_display_name demo_row = ''Site''" "s_requested_display_name demo_row = ''Al''"
    by (simp_all add: demo_row_def new_row_def demo_session_def)
  have look: "fst (get_by_session_and_nonce demo_sid (pad32 demo_nonce) (w_db demo_world)) = Inr (Some demo_row)"
    by (simp add: get_by_session_and_nonce_def query_opt_def demo_db)
  have tables: "sessions (w_db demo_world) = [demo_row]" "replay_request_event_ids (w_db demo_world) = []" "replay_challenge_hashes (w_db demo_world) = []"
    "replay_consent_event_ids (w_db demo_world) = []" "replay_assertion_jtis (w_db demo_world) = []" "delivery_jobs (w_db demo_world) = []"
    by (simp_all add: demo_db empty_database_def)
  have "\<exists>w1 w2 w3 r j. process_request ?app demo_oracles (demo_event ''$1'') (s_session_id demo_row) demo_nonce 100 (s_domain demo_row) demo_world = (Inr Sent, w1)
    \<and> process_consent ?app demo_oracles (demo_event ''$2'') (s_session_id demo_row) demo_nonce 100 True (Some ''Al'') ?ch demo_key
        (base64url_encode demo_crates (pad64 (pad32 b))) w1 = (Inr Sent, w2)
    \<and> tick ?app (\<lambda>_. demo_oracles) w2 = (Inr (), w3)
    \<and> w_posts w3 = w_posts demo_world @ [\<lparr>sp_domain = s_domain demo_row, sp_path = ''/pseud0/web-login/assertions'', sp_body = ''doc'',
        sp_key = Some (fresh_jti ?app demo_oracles 2)\<rparr>]
    \<and> w_outbox w3 = w_outbox demo_world @ [\<lparr>on_room_id = ev_room_id (demo_event ''$2''), on_body = body1\<rparr>, \<lparr>on_room_id = ev_room_id (demo_event ''$2''), on_body = body2\<rparr>]
    \<and> sessions (w_db w3) = map (\<lambda>x. if x = demo_row then r else x) (sessions (w_db demo_world))
    \<and> s_state r = ''ASSERTION_DELIVERED'' \<and> s_version r = s_version demo_row + 3 \<and> s_session_id r = s_session_id demo_row
    \<and> s_consent_event_id r = Some (ev_event_id (demo_event ''$2'')) \<and> s_assertion_jti r = Some (fresh_jti ?app demo_oracles 2)
    \<and> delivery_jobs (w_db w3) = delivery_jobs (w_db demo_world) @ [j] \<and> j_jti j = fresh_jti ?app demo_oracles 2 \<and> j_status j = ''delivered''"
    by (rule login_completes [OF demo_schema demo_calm demo_calm, where expiry = 30200 and h = "pad32 ?ch" and a = demo_assertion
        and msg = b and sub = demo_sub and response = "\<lparr>sr_status = 202, sr_body = []\<rparr>" and ?event1.0 = "demo_event ''$1''"])
      (use facts body1 body2 b demo_assertion_text in \<open>simp_all add: demo_calm demo_login demo_login_stored demo_hmac demo_aead look demo_key_signs
        ch ttl row tables\<close>, simp_all add: demo_oracles_def in_i64_def in_i32_def time_defs saturating_sub_def CLOCK_SKEW_MS_def byte_in_def)
  then show ?thesis by (auto simp: tables) (simp add: demo_world_def, fastforce)
qed

end
