(* ===== verification/Spec2Isabelle.thy ===== *)
theory Spec2Isabelle
  imports Crypto_Properties Protocol_Properties Store_Properties Login_Properties Http_Properties
    Config_Properties Matrix_Sync_Properties Registration_Completion Relay_Agreement_Demo Relay_Accounting
    Delivery_Wire Rows Login_Flow
begin

text \<open>
  Verification of the web-login relay (\<^verbatim>\<open>src/\<close>): a service that lets a site log a user in through an
  encrypted Matrix chat. A site registers a login session over HTTP; the user's app, which scanned the
  session's QR code, sends a request to the relay in a direct encrypted room; the relay answers with a
  challenge; the app sends a signed consent; the relay signs an assertion for the site and queues it; the
  delivery worker posts it. A later revocation is queued and posted the same way.

  \<^bold>\<open>Parts and theories.\<close> File names are those under \<^verbatim>\<open>src/src/\<close>.
  \<^item> \<^verbatim>\<open>Relay_Prelude\<close>: results, 64- and 32-bit arithmetic with saturation and wrap-around, the string functions
    of the standard library (UTF-8 check, trim, split) on byte strings. \<^verbatim>\<open>Relay_Error\<close>: \<^verbatim>\<open>constants.rs\<close>, \<^verbatim>\<open>error.rs\<close>.
  \<^item> \<^verbatim>\<open>Time_Window\<close>: \<^verbatim>\<open>protocol/time.rs\<close>. \<^verbatim>\<open>Validation\<close>: \<^verbatim>\<open>protocol/validation.rs\<close> and \<^verbatim>\<open>protocol/domain.rs\<close>, with the
    regular expressions as data, their language and a matcher for each.
  \<^item> \<^verbatim>\<open>Json_Strict\<close>: \<^verbatim>\<open>json/strict.rs\<close> over parse trees, and the field readers serde derives. \<^verbatim>\<open>Jcs\<close>: \<^verbatim>\<open>crypto/jcs.rs\<close>,
    canonical JSON, with the locale of a canonical writer.
  \<^item> \<^verbatim>\<open>Crypto\<close>, \<^verbatim>\<open>Crypto_Properties\<close>: \<^verbatim>\<open>crypto/\<close>, over the record \<open>crates\<close> of primitives. \<^verbatim>\<open>Base64_Reference\<close>: a concrete
    base64 that meets the contract of the primitive, and a concrete record of all primitives.
  \<^item> \<^verbatim>\<open>Signed_Document\<close>, \<^verbatim>\<open>Matrix_Message\<close>, \<^verbatim>\<open>Documents\<close>, \<^verbatim>\<open>Protocol_Properties\<close>: \<^verbatim>\<open>protocol/matrix.rs\<close>, \<^verbatim>\<open>registration.rs\<close>,
    \<^verbatim>\<open>assertion.rs\<close>, \<^verbatim>\<open>revocation.rs\<close>, \<^verbatim>\<open>metadata.rs\<close>; a locale of signed documents, interpreted for each kind.
  \<^item> \<^verbatim>\<open>Room_Policy\<close>: \<^verbatim>\<open>room_policy.rs\<close>, \<^verbatim>\<open>matrix/rooms.rs\<close> and the invitation loop. \<^verbatim>\<open>Ssrf\<close>, \<^verbatim>\<open>Site_Client\<close>: \<^verbatim>\<open>outbound/\<close>.
  \<^item> \<^verbatim>\<open>Store\<close>, \<^verbatim>\<open>Store_Laws\<close>, \<^verbatim>\<open>Store_Properties\<close>: \<^verbatim>\<open>db/\<close> and \<^verbatim>\<open>migrations/0001_init.sql\<close>. The tables are lists of records,
    every SQL statement a function on them; the locales of a replay table and of a statement that keeps the schema
    are interpreted for all of them. \<^verbatim>\<open>Rows\<close>: the columns of the migration, the three \<^verbatim>\<open>from_row\<close> as instances of the locale
    \<open>table_reader\<close>, the parameters of the insert of a session, and the mapping of driver errors.
    \<^verbatim>\<open>Database\<close>: \<^verbatim>\<open>db/mod.rs\<close>, connecting and migrating statement by statement, the
    advisory lock and the ping.
  \<^item> \<^verbatim>\<open>App\<close>: \<^verbatim>\<open>state.rs\<close> and transactions. A handler is a function on a \<open>world\<close> (database, counters, outbox, posts, sync
    state) and \<open>oracles\<close> (clock, random bytes, what the database, the sink and the sites answer).
  \<^item> \<^verbatim>\<open>Login\<close>, \<^verbatim>\<open>Login_Laws\<close>, \<^verbatim>\<open>Login_Properties\<close>, \<^verbatim>\<open>Consent_Properties\<close>, \<^verbatim>\<open>Revocation_Properties\<close>: \<^verbatim>\<open>services/login.rs\<close>.
    \<^verbatim>\<open>Registration\<close>, \<^verbatim>\<open>Registration_Properties\<close>: \<^verbatim>\<open>services/registration.rs\<close>. \<^verbatim>\<open>Delivery\<close>, \<^verbatim>\<open>Delivery_Properties\<close>:
    \<^verbatim>\<open>delivery/queue.rs\<close>. \<^verbatim>\<open>Http\<close>, \<^verbatim>\<open>Http_Properties\<close>: \<^verbatim>\<open>http/\<close>. \<^verbatim>\<open>Matrix_Sync\<close>, \<^verbatim>\<open>Matrix_Sync_Properties\<close>: the callbacks of
    \<^verbatim>\<open>matrix/client.rs\<close> and \<^verbatim>\<open>matrix/handler.rs\<close>. \<^verbatim>\<open>Config\<close>, \<^verbatim>\<open>Config_Properties\<close>: \<^verbatim>\<open>config.rs\<close> and \<^verbatim>\<open>run\<close> of \<^verbatim>\<open>lib.rs\<close>,
    which starts on the tables an earlier relay left behind.
  \<^item> \<^verbatim>\<open>Providers\<close>: the implementations of the interfaces \<^verbatim>\<open>Clock\<close>, \<^verbatim>\<open>MessageSink\<close>, \<^verbatim>\<open>DnsResolver\<close> and \<^verbatim>\<open>SiteFetcher\<close>
    (\<^verbatim>\<open>clock.rs\<close>, \<^verbatim>\<open>state.rs\<close>, \<^verbatim>\<open>outbound/site_client.rs\<close>, \<^verbatim>\<open>matrix/client.rs\<close>) with the locales \<open>message_sink\<close> and
    \<open>site_fetcher\<close> interpreted for each, and \<^verbatim>\<open>test_support\<close> of \<^verbatim>\<open>lib.rs\<close>: the signers of a site and a fresh deployment.
  \<^item> Components together: \<^verbatim>\<open>Registration_Completion\<close> (registration with the site client and with a site that follows
    the protocol), \<^verbatim>\<open>Delivery_Completion\<close> and \<^verbatim>\<open>Login_Completion\<close> (from a consent through the delivery worker to the
    site and back to the room), \<^verbatim>\<open>Login_Flow\<close> (a whole login, from the request on), \<^verbatim>\<open>Delivery_Wire\<close> (the worker with the
    site client, down to the bytes sent).
  \<^item> \<^verbatim>\<open>Relay_System\<close>: the tasks \<^verbatim>\<open>run\<close> starts, as a step relation in which they interleave and restart. Every step is
    labelled with its \<open>input\<close>: the HTTP body, the room message as the SDK hands it over, the outcome of a sync, or the
    move of the delivery worker, each with the answers of the outside; \<open>relay_step\<close> is \<open>relay_does\<close> for some input.
    \<^verbatim>\<open>Relay_Invariant\<close>: its invariant. \<^verbatim>\<open>Statement_Invariant\<close>: the locale of a property of the tables that every statement
    keeps, and that every handler then keeps it; it is interpreted for the growth of the replay tables (\<^verbatim>\<open>Relay_Runs\<close>), for
    the schema and for the recorded attempts (\<^verbatim>\<open>Relay_Accounting\<close>). \<^verbatim>\<open>Relay_Runs\<close> has the locale of an invariant of a transition
    system, runs as lists of inputs (\<open>trace\<close>) and that replay keys are never forgotten; \<^verbatim>\<open>Relay_Accounting\<close> that every post is paid for by a recorded attempt. \<^verbatim>\<open>Relay_Ledger\<close>: the abstract ledger of sessions and the simulation.
    \<^verbatim>\<open>Relay_Agreement\<close>: where the assertions of a run come from, through the locale \<open>provenance\<close> of items that
    enter a labelled transition system only by a given kind of step: it finds that step in the given run, so the room, the
    sender and the text of the consent are those of one input of the run.
    \<^verbatim>\<open>Relay_Demo\<close>, \<^verbatim>\<open>Relay_System_Demo\<close>, \<^verbatim>\<open>Relay_Agreement_Demo\<close>: the concrete relay and the concrete runs of the witnesses.

  \<^bold>\<open>What is shown.\<close> For the data formats: canonical bytes determine every field and do not depend on field order,
  validators accept exactly their languages, encoders and decoders are inverse (and the Matrix envelope refuses the kinds only the relay sends), signatures made by the relay verify.
  For the handlers, on every branch: which events, consents, revocations and registrations change the database, and
  what exactly they change; that in a working environment requests are answered, consents accepted, a site's
  registrations stored, and a login carried from the request over the challenge and the consent to the site and
  confirmed in the room. For the tables: that every row the schema allows can be read, and which registrations
  the schema can store. For the
  outbound side: which addresses are refused, that requests only reach public addresses, that a session rests on
  its own site's key, that the delivery queue drains, and what a successful delivery put on the wire. For the relay as a whole (below): its invariant, that
  only signed documents leave it, that every assertion goes back to its user's consent, that events act
  once, that no document is posted more often than its job records, and that it implements the ledger. For start-up: what a running relay holds, and that an interrupted
  migration blocks every later start.

  \<^bold>\<open>Modelling decisions.\<close> Strings are byte strings, as in Rust. Integers are unbounded with the wrap-around or saturation
  of the source written out (\<^verbatim>\<open>+\<close> on \<^verbatim>\<open>i64\<close> wraps, as in a release build), the limiter's counters are 64-bit words.
  A transaction reads and writes its own copy of the tables; a commit installs it, fails, or
  reports a failure after installing it (the connection was lost). Transactions are serial: each statement of a
  transaction sees the tables its transaction started from, which is what the \<^verbatim>\<open>FOR UPDATE\<close> locks and the version
  check of \<^verbatim>\<open>cas_update\<close> are there for. In the step relation every transaction is one step and the worker can be interrupted
  between any two. Loops are structural (jobs, invitations, bytes read); the delivery loop runs against a list
  of rounds, of which any finite number is allowed.

  \<^bold>\<open>Assumptions\<close>, each a named hypothesis met by the concrete primitives: \<open>aead_ok\<close> (AES-GCM decrypts what it
  encrypted), \<open>hmac_ok\<close> (32-byte digests), \<open>ed25519_ok\<close> (signatures verify), \<open>base64_engine\<close>, \<open>literal_ok\<close> (serde_json's
  escaping of strings is injective and self-delimiting), \<open>calm\<close> (the outside does not fail; that PostgreSQL
  takes the parameters of a statement is part of it, and \<^verbatim>\<open>Rows\<close> says which ones it takes), \<open>rng_ok\<close> (the generator
  returns as many bytes as asked).

  \<^bold>\<open>Not modelled.\<close> The primitives, serde_json's text parser, PostgreSQL's concurrency, the Matrix SDK, DNS, TCP, TLS and
  timeouts (their answers are arbitrary parameters); the connection pool and the TLS configuration; the answers
  axum and tower give themselves (unknown route, body over the limit, timeout); logging; the build without the
  \<^verbatim>\<open>matrix\<close> feature; the unit tests at the end of the source files, \<^verbatim>\<open>tests/\<close> and \<^verbatim>\<open>main.rs\<close>, which only calls \<^verbatim>\<open>run\<close>.
\<close>

section \<open>Properties of the whole relay\<close>

lemma start_db_inv: "db_inv app db \<Longrightarrow> relay_inv app (start (initial_world cfg now db))"
  by (simp add: relay_inv_def start_def initial_world_def worker_inv_def)

lemma empty_db_inv: "db_inv app empty_database"
  using start_inv [of app] by (simp add: relay_inv_def start_def initial_world_def)

lemma run_inv:
  assumes "aead_ok (crates_of app) (at_rest app)" "db_inv app db" "(relay_step app)\<^sup>*\<^sup>* (start (initial_world cfg now db)) s"
  shows "relay_inv app s"
  using relay_safe.reachable [OF assms(3)] assms(1,2) start_db_inv by blast

subsection \<open>Well-formed states\<close>

text \<open>
  C1. However the HTTP endpoint, the Matrix callbacks, the delivery worker and restarts interleave, and
  whatever the outside answers them, a relay started on an empty database, or on one left behind by an
  earlier relay, has in every state it reaches: tables that respect the unique constraints of the
  schema; sessions with a valid domain and id, a lifetime of at most five minutes, a known state, a
  challenge whose request event, room, sender and expiry are all recorded, and an assertion only after a
  consent; every event id, challenge hash and identifier a session or a job mentions in its replay
  table; and in every queued job a payload that decrypts to a document this relay signed for that
  job's domain.
\<close>

theorem reachable_states_well_formed:
  assumes "aead_ok (crates_of app) (at_rest app)" "db_inv app db"
    and "(relay_step app)\<^sup>*\<^sup>* (start (initial_world cfg now db)) s"
  shows "schema_ok (w_db (rl_world s))
    \<and> (\<forall>r \<in> set (sessions (w_db (rl_world s))). row_ok r \<and> refs_ok (w_db (rl_world s)) r)
    \<and> (\<forall>j \<in> set (delivery_jobs (w_db (rl_world s))). job_inv app (w_db (rl_world s)) j)
    \<and> db_inv app empty_database"
  using run_inv [OF assms] empty_db_inv by (simp add: relay_inv_def db_inv_def row_inv_def)

theorem reachable_states_well_formed_witness:
  "sessions (w_db (rl_world demo_start)) = [demo_row] \<and> delivery_jobs (w_db (rl_world demo_start)) = [demo_job]
   \<and> schema_ok (w_db (rl_world demo_end)) \<and> list_all row_ok (sessions (w_db (rl_world demo_end)))
   \<and> list_all (job_inv demo_app (w_db (rl_world demo_end))) (delivery_jobs (w_db (rl_world demo_end)))"
  using reachable_states_well_formed [of demo_app, OF _ demo_database_inv demo_run [unfolded demo_start_def]]
  by (simp add: demo_aead list_all_iff) (simp add: demo_start_def start_def initial_world_def demo_database_def demo_db)

subsection \<open>What leaves the relay\<close>

text \<open>
  C3. Only signed documents leave: everything a reachable relay has ever posted to a site is either an
  assertion, sent to the assertion path of the domain it is addressed to with its own identifier as
  idempotency key, or a revocation, sent to the revocation path of the domain it is addressed to; and
  its signature verifies, over its canonical bytes, under the public key the relay publishes.
\<close>

theorem only_signed_documents_leave:
  assumes "aead_ok (crates_of app) (at_rest app)" "base64_engine (b64_encode (crates_of app)) (b64_decode (crates_of app))"
    and "ed25519_ok (crates_of app) (signing_key app)" "db_inv app db"
    and "(relay_step app)\<^sup>*\<^sup>* (start (initial_world cfg now db)) s" "p \<in> set (w_posts (rl_world s))"
  shows "(\<exists>a b. sp_path p = ''/pseud0/web-login/assertions'' \<and> assertion_to_bytes (crates_of app) a = Inr (sp_body p)
       \<and> as_aud a = sp_domain p \<and> sp_key p = Some (as_jti a) \<and> assertion_canonical (crates_of app) a = Inr b
       \<and> ed25519_verify (crates_of app) (base64url_encode (crates_of app) (public_key_raw (crates_of app) (signing_key app))) b
           (as_signature a) = Inr ())
    \<or> (\<exists>rv b. sp_path p = ''/pseud0/web-login/revocations'' \<and> revocation_to_bytes (crates_of app) rv = Inr (sp_body p)
       \<and> rv_aud rv = sp_domain p \<and> sp_key p = None \<and> revocation_canonical (crates_of app) rv = Inr b
       \<and> ed25519_verify (crates_of app) (base64url_encode (crates_of app) (public_key_raw (crates_of app) (signing_key app))) b
           (rv_signature rv) = Inr ())"
proof -
  have "post_ok app p" using run_inv [OF assms(1,4,5)] assms(6) by (simp add: relay_inv_def)
  then show ?thesis
    using ed25519_verify_sign [OF assms(2,3)]
    by (auto simp: post_ok_def signed_assertion_def signed_revocation_def ASSERTION_PATH_def REVOCATION_PATH_def)
qed

theorem only_signed_documents_leave_witness:
  "\<exists>p rv. w_posts (rl_world demo_end) = [p] \<and> sp_domain p = ''a.org'' \<and> sp_key p = None
     \<and> revocation_to_bytes demo_crates rv = Inr (sp_body p) \<and> rv_aud rv = ''a.org''"
proof -
  obtain p where p: "w_posts (rl_world demo_end) = [p]" "sp_domain p = ''a.org''" "sp_path p = ''/pseud0/web-login/revocations''"
    using demo_posted by auto
  with only_signed_documents_leave [of demo_app, OF _ _ _ demo_database_inv demo_run [unfolded demo_start_def], of p]
  show ?thesis by (auto simp: demo_aead demo_base64 demo_ed25519)
qed

subsection \<open>How often a document is posted\<close>

text \<open>
  C9. Every post of an assertion is paid for in advance. In every state a relay reaches, whatever deliveries
  fail, whatever commits are lost and however often it restarts in the middle of a batch, each assertion it
  has posted has its job in the queue, and the posts made with that job's identifier as idempotency key are
  at most as many as the attempts recorded in the job.
\<close>

theorem posts_accounted:
  assumes "schema_ok db" "\<forall>j \<in> set (delivery_jobs db). 0 \<le> j_attempts j"
    and "(relay_step app)\<^sup>*\<^sup>* (start (initial_world cfg now db)) s" "p \<in> set (w_posts (rl_world s))" "sp_key p = Some jti"
  shows "\<exists>j \<in> set (delivery_jobs (w_db (rl_world s))). j_jti j = jti
    \<and> int (length (filter (\<lambda>q. sp_key q = Some jti) (w_posts (rl_world s)))) \<le> j_attempts j"
proof -
  note run = posts_bounded [OF assms(1-3)]
  have "0 < posted jti (rl_world s)" using assms(4,5) by (auto simp: posted_def filter_empty_conv)
  with run(2) [of jti] have "filter (\<lambda>j. j_jti j = jti) (delivery_jobs (w_db (rl_world s))) \<noteq> []" by (auto simp: attempts_def)
  then obtain j where "j \<in> set (delivery_jobs (w_db (rl_world s)))" "j_jti j = jti" by (auto simp: filter_empty_conv)
  with job_attempts [OF run(1)] run(2) [of jti] show ?thesis by (auto simp: posted_def)
qed

theorem posts_accounted_witness:
  "\<exists>p j jti. w_posts (rl_world demo_login_end) = [p] \<and> sp_key p = Some jti
     \<and> j \<in> set (delivery_jobs (w_db (rl_world demo_login_end))) \<and> j_jti j = jti \<and> 1 \<le> j_attempts j"
proof -
  obtain p where p: "w_posts (rl_world demo_login_end) = [p]" "sp_path p = ASSERTION_PATH" using demo_login_run(2) by blast
  have "aead_ok (crates_of demo_login_app) (at_rest demo_login_app)" by (simp add: demo_login demo_aead)
  moreover have tables: "queued (w_db demo_refused) = {}" "delivery_jobs (w_db demo_refused) = []"
    by (simp_all add: queued_def demo_refused_def demo_world_def empty_database_def)
  moreover obtain ins where run: "trace (relay_does demo_login_app) demo_login_start ins demo_login_end" using demo_login_run(1) by blast
  ultimately obtain jti where "sp_key p = Some jti"
    using assertion_post_consented [OF _ run [unfolded demo_login_start_def], of p] p by auto
  moreover have "(relay_step demo_login_app)\<^sup>*\<^sup>* demo_login_start demo_login_end" using run by (auto simp: relay_steps_trace)
  ultimately show ?thesis
    using posts_accounted [OF demo_refused_schema, of demo_login_app demo_config 100 demo_login_end p jti, folded demo_login_start_def] p tables(2)
    by auto
qed

subsection \<open>Agreement between sites and users\<close>

text \<open>
  C2. An assertion rests on the user's consent. Take any run of a relay that started without queued assertions, as
  the list of the inputs it was given. When at its end something has been posted to a site's assertion path, the
  post is an assertion, and one of the inputs of the run is a room message such that: the room is encrypted and its
  joined members, as the SDK reported them for this very message, are the relay and the sender alone, neither a guest;
  the message decodes to an approval of exactly this session, nonce and display name, with an event id not used
  before; the approval's P-256 signature verifies over its fields, its challenge is the one issued for
  the session, and sender and room are the user and room of the login request; and the assertion's subject, audience
  and expiry are that user's pairwise subject, the session's domain and a time within the session. So no
  interleaving of requests, deliveries, failures and restarts makes the relay vouch for a user who did not
  approve this login, or on a message from a room that others can read.
\<close>

theorem assertions_rest_on_consent:
  assumes "aead_ok (crates_of app) (at_rest app)" "trace (relay_does app) (start (initial_world cfg now db)) ins s" "queued db = {}"
    and "p \<in> set (w_posts (rl_world s))" "sp_path p = ''/pseud0/web-login/assertions''"
  shows "\<exists>ins1 orc room event_id sender msg ins2 s1 s2 a. ins = ins1 @ RoomMessage orc room event_id sender msg # ins2
    \<and> trace (relay_does app) (start (initial_world cfg now db)) ins1 s1
    \<and> relay_does app (RoomMessage orc room event_id sender msg) s1 s2 \<and> trace (relay_does app) s2 ins2 s
    \<and> private_room room (effective_relay (relay_user_id app)) sender
    \<and> consent_message app (rl_world s1) room event_id sender msg a
    \<and> assertion_to_bytes (crates_of app) a = Inr (sp_body p) \<and> as_aud a = sp_domain p \<and> sp_key p = Some (as_jti a)"
proof -
  have "sp_path p = ASSERTION_PATH" using assms(5) by (simp add: ASSERTION_PATH_def)
  from assertion_post_consented [OF assms(1-4) this] show ?thesis unfolding consent_message_def by blast
qed

theorem assertions_rest_on_consent_witness:
  "\<exists>p ins orc room event_id sender msg a w.
     trace (relay_does demo_login_app) demo_login_start ins demo_login_end \<and> hd ins = RoomMessage demo_oracles demo_room ''$3'' ''@a'' demo_message
     \<and> w_posts (rl_world demo_login_end) = [p] \<and> RoomMessage orc room event_id sender msg \<in> set ins
     \<and> private_room room ''@relay'' sender \<and> consent_message demo_login_app w room event_id sender msg a
     \<and> assertion_to_bytes (crates_of demo_login_app) a = Inr (sp_body p)"
proof -
  let ?i = "RoomMessage demo_oracles demo_room ''$3'' ''@a'' demo_message"
  obtain p where p: "w_posts (rl_world demo_login_end) = [p]" "sp_path p = ''/pseud0/web-login/assertions''"
    using demo_login_run(2) by (auto simp: ASSERTION_PATH_def)
  obtain ins where run: "trace (relay_does demo_login_app) demo_login_start (?i # ins) demo_login_end" using demo_login_run(1) by blast
  have aead: "aead_ok (crates_of demo_login_app) (at_rest demo_login_app)" by (simp add: demo_login demo_aead)
  have fresh: "queued (w_db demo_refused) = {}" by (simp add: queued_def demo_refused_def empty_database_def)
  have relay: "effective_relay (relay_user_id demo_login_app) = ''@relay''" by (simp add: demo_login)
  have mem: "p \<in> set (w_posts (rl_world demo_login_end))" using p(1) by simp
  from assertions_rest_on_consent [OF aead run [unfolded demo_login_start_def] fresh mem p(2), unfolded relay]
  obtain ins1 orc room event_id sender msg ins2 and s1 :: relay and a where
    split: "?i # ins = ins1 @ RoomMessage orc room event_id sender msg # ins2" and consent: "private_room room ''@relay'' sender"
    "consent_message demo_login_app (rl_world s1) room event_id sender msg a"
    "assertion_to_bytes (crates_of demo_login_app) a = Inr (sp_body p)"
    by (elim exE conjE) (rule that)
  show ?thesis
  proof (intro exI conjI)
    show "RoomMessage orc room event_id sender msg \<in> set (?i # ins)" by (simp only: split set_append list.set Un_iff insert_iff simp_thms)
    show "hd (?i # ins) = ?i" by simp
  qed (rule run p(1) consent)+
qed

subsection \<open>Replays\<close>

lemma request_event_consumed:
  assumes "process_request app orc event s n t d w = (r, w')" "w_db w' \<noteq> w_db w"
  shows "ev_event_id event \<notin> fst ` set (replay_request_event_ids (w_db w))"
proof -
  from process_request_db [OF assms(1)] assms(2) obtain nonce_hash x st where
    tx: "request_tx app orc event s n t d nonce_hash (o_now orc 0) (start_tx w) = (Inr (Committed x), st)" and "w_db w' = tx_db st" by blast
  from tx show ?thesis
  proof (cases rule: request_tx_committed)
    case again
    with assms(2) \<open>w_db w' = tx_db st\<close> show ?thesis by simp
  next
    case (fresh session expiry)
    then show ?thesis using request_events.refused_unless_new [of "ev_event_id event" expiry "w_db w"] by simp
  qed
qed

text \<open>
  C8. A Matrix event acts once: when an event has been consumed as a consent, then after any further
  interleaving of steps, restarts included, handling an event with the same id as a consent again, whatever fields
  it now carries and whatever the outside answers, leaves the database as it is; and in the same way for an
  event that has been consumed as a request and comes as a request again.
\<close>

theorem consumed_events_stay_consumed:
  assumes "(relay_step app)\<^sup>*\<^sup>* s s'"
  shows "(ev_event_id event \<in> fst ` set (replay_consent_event_ids (w_db (rl_world s))) \<longrightarrow>
      w_db (snd (process_consent app orc event sid n t approved name ch k sg (rl_world s'))) = w_db (rl_world s'))
    \<and> (ev_event_id event \<in> fst ` set (replay_request_event_ids (w_db (rl_world s))) \<longrightarrow>
      w_db (snd (process_request app orc event sid n t d (rl_world s'))) = w_db (rl_world s'))"
proof -
  have "fst ` set (replay_consent_event_ids (w_db (rl_world s))) \<subseteq> fst ` set (replay_consent_event_ids (w_db (rl_world s')))"
    "fst ` set (replay_request_event_ids (w_db (rl_world s))) \<subseteq> fst ` set (replay_request_event_ids (w_db (rl_world s')))"
    using relay_memory.reachable [OF assms, of "w_db (rl_world s)"] by (simp_all add: keys_le_def replay_keys_def)
  then show ?thesis
    using consent_event_consumed [OF surjective_pairing, of app orc event sid n t approved name ch k sg "rl_world s'"]
      request_event_consumed [OF surjective_pairing, of app orc event sid n t d "rl_world s'"] by blast
qed

theorem consumed_events_stay_consumed_witness:
  "w_db (snd (process_consent demo_app demo_oracles (demo_event ''$3'') demo_sid demo_nonce 100 True (Some ''Al'') ''ch'' ''did'' ''sig'' (rl_world demo_end)))
     = w_db (rl_world demo_end)"
  using consumed_events_stay_consumed [OF demo_run, of "demo_event ''$3''" demo_oracles]
  by (simp add: demo_start_def start_def initial_world_def demo_database_def)

subsection \<open>The ledger of sessions\<close>

text \<open>
  C12. The relay implements the ledger: along every run, the table of sessions seen as a map from
  domain and session id to nonce hash, expiry and challenge hash changes only by the steps of the
  abstract ledger, which adds a session without a challenge or gives such a session one. Hence a
  session is never forgotten or renamed, and its nonce, expiry and challenge never change once set,
  whatever consents, revocations, deliveries and restarts happen in between.
\<close>

theorem relay_refines_ledger:
  assumes "aead_ok (crates_of app) (at_rest app)" "db_inv app db"
    and "(relay_step app)\<^sup>*\<^sup>* (start (initial_world cfg now db)) s" "(relay_step app)\<^sup>*\<^sup>* s s'"
  shows "ledger_step\<^sup>*\<^sup>* (ledger_of (w_db (rl_world s))) (ledger_of (w_db (rl_world s')))
    \<and> (\<forall>k n e c. ledger_of (w_db (rl_world s)) k = Some (n, e, c) \<longrightarrow>
         (\<exists>c'. ledger_of (w_db (rl_world s')) k = Some (n, e, c') \<and> (c = None \<or> c' = c)))"
proof -
  have run: "ledger_step\<^sup>*\<^sup>* (ledger_of (w_db (rl_world s))) (ledger_of (w_db (rl_world s')))"
    by (rule run_refines [OF assms(4,1) run_inv [OF assms(1-3)]])
  with ledger_run_keeps [OF run] show ?thesis by blast
qed

theorem relay_refines_ledger_witness:
  "\<exists>c'. ledger_of (w_db (rl_world demo_end)) (''a.org'', demo_sid) = Some (pad32 demo_nonce, 200, c')"
proof -
  have "ledger_of (w_db (rl_world demo_start)) (''a.org'', demo_sid) = Some (pad32 demo_nonce, 200, None)"
    by (simp add: demo_start_def start_def initial_world_def demo_database_def demo_db ledger_of_def entry_def)
  with relay_refines_ledger [of demo_app, OF _ demo_database_inv rtranclp.rtrancl_refl demo_run [unfolded demo_start_def]]
  show ?thesis unfolding demo_start_def demo_app_simps by (metis demo_aead)
qed

end
